(* ===== verification/Prelude.thy ===== *)
theory Prelude
  imports Main "HOL-Library.Word"
begin

text \<open>
  Generic vocabulary of the development: computations that may raise (a sum whose left
  side is the exception), loops over a list that stop at the first exception, slices of a
  list by position, and the few facts on 64-bit words that every bounds argument needs.
  Nothing here mentions the program.
\<close>

named_theorems res_simps \<open>inversion of successful computations that may raise\<close>
named_theorems slice_simps \<open>positions and slices of strings\<close>

type_synonym u64 = "64 word"
type_synonym u32 = "32 word"

section \<open>Computations that may raise\<close>

definition res_bind :: "'e + 'a \<Rightarrow> ('a \<Rightarrow> 'e + 'b) \<Rightarrow> 'e + 'b" where
  "res_bind m f = (case m of Inl e \<Rightarrow> Inl e | Inr x \<Rightarrow> f x)"

lemma res_bind_simps [simp]:
  "res_bind (Inl e) f = Inl e"
  "res_bind (Inr x) f = f x"
  by (simp_all add: res_bind_def)

lemma res_bind_Inr [res_simps]:
  "res_bind m f = Inr y \<longleftrightarrow> (\<exists>x. m = Inr x \<and> f x = Inr y)"
  by (cases m) auto

lemma res_bind_Inl:
  "res_bind m f = Inl e \<longleftrightarrow> m = Inl e \<or> (\<exists>x. m = Inr x \<and> f x = Inl e)"
  by (cases m) auto

lemma if_Inl_Inr [res_simps]:
  "(if b then Inl e else r) = Inr y \<longleftrightarrow> \<not> b \<and> r = Inr y"
  "(if b then r else Inl e) = Inr y \<longleftrightarrow> b \<and> r = Inr y"
  by auto

text \<open>A \<open>for\<close> loop over a list that updates a state and may raise.\<close>

fun res_fold :: "('x \<Rightarrow> 's \<Rightarrow> 'e + 's) \<Rightarrow> 'x list \<Rightarrow> 's \<Rightarrow> 'e + 's" where
  "res_fold f [] s = Inr s"
| "res_fold f (x # xs) s = res_bind (f x s) (res_fold f xs)"

lemma res_fold_append:
  "res_fold f (xs @ ys) s = res_bind (res_fold f xs s) (res_fold f ys)"
proof (induction xs arbitrary: s)
  case Nil
  show ?case by simp
next
  case (Cons x xs)
  then show ?case by (cases "f x s") auto
qed

text \<open>A \<open>for\<close> loop that appends one result per element and may raise.\<close>

fun res_map :: "('x \<Rightarrow> 'e + 'y) \<Rightarrow> 'x list \<Rightarrow> 'e + 'y list" where
  "res_map f [] = Inr []"
| "res_map f (x # xs) = res_bind (f x) (\<lambda>y. res_bind (res_map f xs) (\<lambda>ys. Inr (y # ys)))"

lemma res_map_Inr:
  "res_map f xs = Inr ys \<longleftrightarrow> list_all2 (\<lambda>x y. f x = Inr y) xs ys"
  by (induction xs arbitrary: ys) (auto simp: res_simps list_all2_Cons1)

lemma res_map_length: "res_map f xs = Inr ys \<Longrightarrow> length ys = length xs"
  by (auto simp: res_map_Inr dest: list_all2_lengthD)

text \<open>A \<open>for\<close> loop that only checks its elements.\<close>

fun res_check :: "('x \<Rightarrow> 'e option) \<Rightarrow> 'x list \<Rightarrow> 'e + unit" where
  "res_check f [] = Inr ()"
| "res_check f (x # xs) = (case f x of Some e \<Rightarrow> Inl e | None \<Rightarrow> res_check f xs)"

lemma res_check_Inr [res_simps]:
  "res_check f xs = Inr u \<longleftrightarrow> list_all (\<lambda>x. f x = None) xs"
  by (induction xs) (auto split: option.splits)

lemma res_check_Inl:
  "res_check f xs = Inl e \<Longrightarrow> \<exists>x \<in> set xs. f x = Some e"
  by (induction xs) (auto split: option.splits)

section \<open>Slices\<close>

text \<open>The slice \<open>s[i:j]\<close> of a string for non-negative \<open>i\<close> and \<open>j\<close>.\<close>

definition slice :: "'a list \<Rightarrow> nat \<Rightarrow> nat \<Rightarrow> 'a list" where
  "slice s i j = drop i (take j s)"

lemma length_slice [slice_simps]: "length (slice s i j) = min j (length s) - i"
  by (simp add: slice_def min.commute)

lemma take_slice [slice_simps]: "i \<le> j \<Longrightarrow> take i s @ slice s i j = take j s"
proof -
  assume "i \<le> j"
  then have "take i s = take i (take j s)" by simp
  then show ?thesis unfolding slice_def by (simp only: append_take_drop_id)
qed

lemma slice_split [slice_simps]: "i \<le> j \<Longrightarrow> take i s @ slice s i j @ drop j s = s"
  using take_slice [of i j s] by (simp flip: append_assoc)

lemma slice_append_adjacent:
  assumes "i \<le> j" and "j \<le> k"
  shows "slice s i j @ slice s j k = slice s i k"
proof -
  have "take i s @ slice s i j @ slice s j k = take k s"
    using assms by (simp add: take_slice flip: append_assoc)
  also have "\<dots> = take i s @ slice s i k" using assms by (simp add: take_slice)
  finally show ?thesis by simp
qed

lemma take_eq_le: "take n s = take n t \<Longrightarrow> m \<le> n \<Longrightarrow> take m s = take m t"
  by (metis min.absorb1 take_take)

lemma slice_take_cong: "take n s = take n t \<Longrightarrow> j \<le> n \<Longrightarrow> slice s i j = slice t i j"
  by (simp add: slice_def take_eq_le [of n s t j])

section \<open>Bounds of 64-bit words\<close>

text \<open>\<open>std::numeric_limits<uint64_t>::max()\<close>, also for \<open>size_t\<close> and \<open>uintptr_t\<close>.\<close>

definition u64_max :: u64 where
  "u64_max = 18446744073709551615"

lemma unat_u64_max [simp]: "unat u64_max = 2 ^ 64 - 1"
  by (simp add: u64_max_def)

lemma unat_u64_less [simp]: "unat (w :: u64) < 18446744073709551616"
  using unsigned_less [of w] by simp

lemma u64_le_max_minus_iff:
  "(a :: u64) \<le> u64_max - b \<longleftrightarrow> unat a + unat b < 2 ^ 64"
proof -
  have b: "b \<le> u64_max" unfolding word_le_nat_alt using unat_u64_less [of b] by (simp del: unat_u64_less)
  have "a \<le> u64_max - b \<longleftrightarrow> unat a \<le> unat (u64_max - b)" by (simp add: word_le_nat_alt)
  also have "unat (u64_max - b) = 2 ^ 64 - 1 - unat b"
    using b by (simp add: unat_sub)
  finally show ?thesis using unat_u64_less [of b] by (simp add: le_diff_conv2 less_eq_Suc_le) 
qed

lemma unat_add_u64:
  "unat (a :: u64) + unat b < 2 ^ 64 \<Longrightarrow> unat (a + b) = unat a + unat b"
  by (simp add: unat_word_ariths)

lemma unat_diff_u64: "(b :: u64) \<le> a \<Longrightarrow> unat (a - b) = unat a - unat b"
  by (simp add: unat_sub)

end
