(* ===== verification/PyStr.thy ===== *)
theory PyStr
  imports Prelude "HOL-Library.Char_ord" "HOL-Library.List_Lexorder" "HOL-Library.Sublist"
begin

text \<open>
  What the tools use of Python's \<open>str\<close>.  A string is a list of code points below 256 (the
  char type), so every character class of the standard library is written out exactly on
  that range; strings with larger code points are outside the model.  Positions are numbers,
  and slices clamp as Python's do.
\<close>

section \<open>Character classes\<close>

definition code_point :: "char \<Rightarrow> nat" where
  "code_point c = of_char c"

lemma code_point_bound [simp]: "code_point c < 256"
  by (simp add: code_point_def)

text \<open>\<open>str.isspace\<close>, which is also the class \<open>\s\<close> of the regular expressions.\<close>

definition py_isspace :: "char \<Rightarrow> bool" where
  "py_isspace c = (let n = code_point c in
     9 \<le> n \<and> n \<le> 13 \<or> 28 \<le> n \<and> n \<le> 32 \<or> n = 133 \<or> n = 160)"

text \<open>The class \<open>\w\<close>: letters, digits and underscore of the first 256 code points.\<close>

definition py_isword :: "char \<Rightarrow> bool" where
  "py_isword c = (let n = code_point c in
     48 \<le> n \<and> n \<le> 57 \<or> 65 \<le> n \<and> n \<le> 90 \<or> n = 95 \<or> 97 \<le> n \<and> n \<le> 122 \<or> n = 170 \<or>
     178 \<le> n \<and> n \<le> 179 \<or> n = 181 \<or> 185 \<le> n \<and> n \<le> 186 \<or> 188 \<le> n \<and> n \<le> 190 \<or>
     192 \<le> n \<and> n \<le> 214 \<or> 216 \<le> n \<and> n \<le> 246 \<or> 248 \<le> n)"

definition is_upper :: "char \<Rightarrow> bool" where
  "is_upper c = (65 \<le> code_point c \<and> code_point c \<le> 90)"

definition is_lower :: "char \<Rightarrow> bool" where
  "is_lower c = (97 \<le> code_point c \<and> code_point c \<le> 122)"

definition is_digit :: "char \<Rightarrow> bool" where
  "is_digit c = (48 \<le> code_point c \<and> code_point c \<le> 57)"

text \<open>\<open>[A-Za-z0-9]\<close> and \<open>[A-Za-z0-9_]\<close>.\<close>

definition is_alnum :: "char \<Rightarrow> bool" where
  "is_alnum c = (is_upper c \<or> is_lower c \<or> is_digit c)"

definition is_ident_char :: "char \<Rightarrow> bool" where
  "is_ident_char c = (is_alnum c \<or> c = CHR ''_'')"

text \<open>\<open>str.upper\<close> and \<open>str.lower\<close> on the ASCII letters they are applied to.\<close>

definition upper_char :: "char \<Rightarrow> char" where
  "upper_char c = (if is_lower c then char_of (code_point c - 32) else c)"

definition lower_char :: "char \<Rightarrow> char" where
  "lower_char c = (if is_upper c then char_of (code_point c + 32) else c)"

section \<open>Stripping, splitting, joining\<close>

definition py_lstrip :: "string \<Rightarrow> string" where
  "py_lstrip s = dropWhile py_isspace s"

definition py_rstrip :: "string \<Rightarrow> string" where
  "py_rstrip s = rev (dropWhile py_isspace (rev s))"

definition py_strip :: "string \<Rightarrow> string" where
  "py_strip s = py_rstrip (py_lstrip s)"

lemma py_rstrip_prefix: "\<exists>w. s = py_rstrip s @ w \<and> list_all py_isspace w"
proof -
  have "s = rev (takeWhile py_isspace (rev s) @ dropWhile py_isspace (rev s))" by simp
  then have "s = py_rstrip s @ rev (takeWhile py_isspace (rev s))"
    by (simp only: rev_append py_rstrip_def)
  moreover have "list_all py_isspace (rev (takeWhile py_isspace (rev s)))"
    by (auto simp: list_all_iff dest: set_takeWhileD)
  ultimately show ?thesis by blast
qed

lemma py_strip_parts:
  "\<exists>u w. s = u @ py_strip s @ w \<and> list_all py_isspace u \<and> list_all py_isspace w"
proof -
  obtain w where "py_lstrip s = py_strip s @ w" "list_all py_isspace w"
    using py_rstrip_prefix [of "py_lstrip s"] by (auto simp: py_strip_def)
  moreover have "s = takeWhile py_isspace s @ py_lstrip s" by (simp add: py_lstrip_def)
  moreover have "list_all py_isspace (takeWhile py_isspace s)"
    by (auto simp: list_all_iff dest: set_takeWhileD)
  ultimately show ?thesis by metis
qed

text \<open>The line boundaries of \<open>str.splitlines\<close>, and \<open>splitlines(keepends=True)\<close>.\<close>

definition LF :: char where "LF = CHR 0x0A"

definition CR :: char where "CR = CHR 0x0D"

definition is_linebreak :: "char \<Rightarrow> bool" where
  "is_linebreak c = (let n = code_point c in 10 \<le> n \<and> n \<le> 13 \<or> 28 \<le> n \<and> n \<le> 30 \<or> n = 133)"

fun splitlines_keep :: "string \<Rightarrow> string list" where
  "splitlines_keep [] = []"
| "splitlines_keep (c # cs) =
     (if c = CR \<and> cs \<noteq> [] \<and> hd cs = LF then [c, LF] # splitlines_keep (tl cs)
      else if is_linebreak c then [c] # splitlines_keep cs
      else (case splitlines_keep cs of [] \<Rightarrow> [[c]] | l # ls \<Rightarrow> (c # l) # ls))"

declare splitlines_keep.simps(2) [simp del]

lemma splitlines_keep_crlf:
  "splitlines_keep (CR # LF # cs) = [CR, LF] # splitlines_keep cs"
  by (simp add: splitlines_keep.simps(2))

lemma splitlines_keep_break:
  "\<not> (c = CR \<and> cs \<noteq> [] \<and> hd cs = LF) \<Longrightarrow> is_linebreak c \<Longrightarrow>
   splitlines_keep (c # cs) = [c] # splitlines_keep cs"
  by (simp add: splitlines_keep.simps(2))

lemma splitlines_keep_visible:
  "\<not> is_linebreak c \<Longrightarrow> splitlines_keep (c # cs) =
     (case splitlines_keep cs of [] \<Rightarrow> [[c]] | l # ls \<Rightarrow> (c # l) # ls)"
  by (auto simp: splitlines_keep.simps(2) CR_def is_linebreak_def code_point_def)

lemma concat_splitlines_keep: "concat (splitlines_keep s) = s"
proof (induction s rule: splitlines_keep.induct)
  case (2 c cs)
  consider (crlf) "c = CR" "cs = LF # tl cs" | (brk) "\<not> (c = CR \<and> cs \<noteq> [] \<and> hd cs = LF)" "is_linebreak c"
    | (vis) "\<not> (c = CR \<and> cs \<noteq> [] \<and> hd cs = LF)" "\<not> is_linebreak c"
    by (cases cs) auto
  then show ?case
  proof cases
    case crlf
    then have "c = CR \<and> cs \<noteq> [] \<and> hd cs = LF" by (metis list.distinct(1) list.sel(1))
    from 2(1) [OF this] crlf show ?thesis
      by (metis splitlines_keep_crlf append_Cons append_Nil concat.simps(2))
  next
    case brk
    with 2 show ?thesis by (simp add: splitlines_keep_break)
  next
    case vis
    with 2(3) [OF vis] show ?thesis by (auto simp: splitlines_keep_visible split: list.splits)
  qed
qed simp

lemma splitlines_keep_eq_Nil [simp]: "splitlines_keep s = [] \<longleftrightarrow> s = []"
  using concat_splitlines_keep [of s] by (cases s) (auto simp: splitlines_keep.simps(2) split: list.splits)

text \<open>\<open>sep.join(parts)\<close>\<close>

fun py_join :: "string \<Rightarrow> string list \<Rightarrow> string" where
  "py_join sep [] = []"
| "py_join sep [x] = x"
| "py_join sep (x # y # xs) = x @ sep @ py_join sep (y # xs)"

text \<open>\<open>re.split("[class]+", s)\<close>: the fields between maximal runs of the class.\<close>

function split_runs :: "(char \<Rightarrow> bool) \<Rightarrow> string \<Rightarrow> string list" where
  "split_runs p s =
     (let w = takeWhile (\<lambda>c. \<not> p c) s; r = dropWhile (\<lambda>c. \<not> p c) s
      in if r = [] then [w] else w # split_runs p (dropWhile p r))"
  by pat_completeness auto
termination
proof (relation "measure (\<lambda>(p, s). length s)")
  fix p :: "char \<Rightarrow> bool" and s w r :: string
  assume r: "r = dropWhile (\<lambda>c. \<not> p c) s" "r \<noteq> []"
  then have "p (hd r)" using hd_dropWhile [of "\<lambda>c. \<not> p c" s] by blast
  then have "length (dropWhile p r) < length r"
    using r(2) length_dropWhile_le [of p "tl r"] by (cases r) (auto simp: less_Suc_eq_le)
  also have "length r \<le> length s" using r(1) by (simp add: length_dropWhile_le)
  finally show "((p, dropWhile p r), (p, s)) \<in> measure (\<lambda>(p, s). length s)" by simp
qed simp

declare split_runs.simps [simp del]

section \<open>Searching and replacing\<close>

text \<open>\<open>s.startswith(pat, i)\<close> for a position inside the string.\<close>

definition starts_with_at :: "string \<Rightarrow> string \<Rightarrow> nat \<Rightarrow> bool" where
  "starts_with_at s pat i = (i \<le> length s \<and> prefix pat (drop i s))"

text \<open>\<open>s.count(pat)\<close>: non-overlapping occurrences, left to right.\<close>

function py_count :: "string \<Rightarrow> string \<Rightarrow> nat" where
  "py_count pat s =
     (if pat = [] then Suc (length s)
      else if s = [] then 0
      else if prefix pat s then Suc (py_count pat (drop (length pat) s))
      else py_count pat (tl s))"
  by pat_completeness auto
termination
  by (relation "measure (\<lambda>(pat, s). length s)") (auto simp: Suc_le_eq)

declare py_count.simps [simp del]

text \<open>\<open>s.replace(old, new)\<close> and \<open>s.replace(old, new, 1)\<close>, for a non-empty \<open>old\<close>.\<close>

function py_replace :: "string \<Rightarrow> string \<Rightarrow> string \<Rightarrow> string" where
  "py_replace old new s =
     (if old = [] then concat (map (\<lambda>c. new @ [c]) s) @ new
      else if s = [] then []
      else if prefix old s then new @ py_replace old new (drop (length old) s)
      else hd s # py_replace old new (tl s))"
  by pat_completeness auto
termination
  by (relation "measure (\<lambda>(old, new, s). length s)") (auto simp: Suc_le_eq)

declare py_replace.simps [simp del]

fun py_replace_first :: "string \<Rightarrow> string \<Rightarrow> string \<Rightarrow> string" where
  "py_replace_first old new [] = (if old = [] then new else [])"
| "py_replace_first old new (c # s) =
     (if prefix old (c # s) then new @ drop (length old) (c # s)
      else c # py_replace_first old new s)"

text \<open>\<open>s.rfind(pat)\<close>: \<open>None\<close> stands for -1.\<close>

fun py_rfind :: "string \<Rightarrow> string \<Rightarrow> nat option" where
  "py_rfind pat [] = (if pat = [] then Some 0 else None)"
| "py_rfind pat (c # s) =
     (case py_rfind pat s of
        Some i \<Rightarrow> Some (Suc i)
      | None \<Rightarrow> if prefix pat (c # s) then Some 0 else None)"

lemma py_rfind_Some:
  "py_rfind pat s = Some i \<Longrightarrow> s = take i s @ pat @ drop (i + length pat) s"
proof (induction s arbitrary: i)
  case Nil
  then show ?case by (auto split: if_splits)
next
  case (Cons c s)
  show ?case
  proof (cases "py_rfind pat s")
    case None
    with Cons.prems have "i = 0" "prefix pat (c # s)" by (auto split: if_splits)
    then show ?thesis by (auto simp: prefix_def)
  next
    case (Some j)
    with Cons.prems Cons.IH [OF Some] show ?thesis by auto
  qed
qed

lemma py_rfind_None: "py_rfind pat s = None \<Longrightarrow> \<not> sublist pat s"
  by (induction s) (auto split: option.splits if_splits simp: sublist_Cons_right)

section \<open>Decimal numerals\<close>

text \<open>\<open>str(n)\<close> of an integer.\<close>

definition digit_char :: "nat \<Rightarrow> char" where
  "digit_char d = char_of (48 + d)"

fun nat_str :: "nat \<Rightarrow> string" where
  "nat_str n = (if n < 10 then [digit_char n] else nat_str (n div 10) @ [digit_char (n mod 10)])"

declare nat_str.simps [simp del]

definition int_str :: "int \<Rightarrow> string" where
  "int_str i = (if i < 0 then CHR ''-'' # nat_str (nat (- i)) else nat_str (nat i))"

definition nat_of_digits :: "string \<Rightarrow> nat" where
  "nat_of_digits s = foldl (\<lambda>n c. 10 * n + (code_point c - 48)) 0 s"

lemma digit_char_code [simp]: "d < 10 \<Longrightarrow> code_point (digit_char d) = 48 + d"
  by (simp add: digit_char_def code_point_def)

lemma nat_str_digits: "list_all is_digit (nat_str n)"
proof (induction n rule: nat_str.induct)
  case (1 n)
  have "d < 10 \<Longrightarrow> is_digit (digit_char d)" for d
    by (simp add: is_digit_def digit_char_def code_point_def)
  with 1 show ?case by (subst nat_str.simps) simp
qed

lemma nat_str_nonempty [simp]: "nat_str n \<noteq> []"
  by (subst nat_str.simps) simp

lemma nat_of_digits_snoc: "nat_of_digits (s @ [c]) = 10 * nat_of_digits s + (code_point c - 48)"
  by (simp add: nat_of_digits_def)

lemma nat_of_digits_nat_str [simp]: "nat_of_digits (nat_str n) = n"
proof (induction n rule: nat_str.induct)
  case (1 n)
  show ?case
  proof (cases "n < 10")
    case True
    then show ?thesis by (subst nat_str.simps) (simp add: nat_of_digits_def)
  next
    case False
    then show ?thesis using 1
      by (subst nat_str.simps) (simp add: nat_of_digits_snoc)
  qed
qed

lemma nat_str_inject [simp]: "nat_str m = nat_str n \<longleftrightarrow> m = n"
  by (metis nat_of_digits_nat_str)

lemma digit_not_underscore: "is_digit c \<Longrightarrow> c \<noteq> CHR ''_''"
  by (auto simp: is_digit_def code_point_def)

text \<open>Reading a number off the front of a longer text.\<close>

lemma takeWhile_digits:
  "t = [] \<or> \<not> is_digit (hd t) \<Longrightarrow> takeWhile is_digit (nat_str n @ t) = nat_str n"
  using nat_str_digits [of n] by (cases t) (auto simp: list_all_iff takeWhile_append)

end
