(* ===== verification/PolicyData.thy ===== *)
theory PolicyData
  imports PyStr
begin

text \<open>
  The JSON documents the tools exchange, as records: the policy (types, allocation sites,
  trusted uses) and the boundary description (extra types, helper sites).  An optional key of
  a JSON object is an option field.  Numbers are Python ints.  The exceptions of the tools
  are one datatype, one constructor per \<^verbatim>\<open>raise\<close>, with the values the message names.
\<close>

record site_span =
  ss_start_line :: int
  ss_start_column :: int
  ss_end_line :: int
  ss_end_column :: int

record alloc_entry =
  ae_function :: string
  ae_type :: string
  ae_site :: "site_span option"

record use_entry =
  ue_name :: string
  ue_type :: string
  ue_offset :: int
  ue_bytes :: "int option"
  ue_dynamic :: bool

record policy =
  p_types :: "string list"
  p_allocations :: "alloc_entry list"
  p_uses :: "use_entry list"

record helper_site =
  hs_name :: string
  hs_type :: string

record boundary =
  bd_types :: "string list"
  bd_helper_sites :: "helper_site list"

text \<open>\<open>boundary or {}\<close> with the defaults of the two \<open>get\<close> calls.\<close>

definition no_boundary :: boundary where
  "no_boundary = \<lparr>bd_types = [], bd_helper_sites = []\<rparr>"

datatype policy_error =
    Function_not_found string
  | Unterminated_function string
  | Not_one_based
  | Line_out_of_range int
  | Column_out_of_range int int
  | Anchor_not_malloc string
  | Truncates_malloc
  | No_argument_list
  | Empty_size_expression
  | Span_past_call
  | Unterminated_arguments
  | Invalid_site string
  | Site_escapes string
  | Call_escapes string
  | Expected_one_malloc string
  | Duplicate_type
  | Hash_collision string string
  | Unknown_allocation_type string
  | Unknown_use_type string
  | Negative_access string
  | Missing_key string
  | Empty_type_name
  | Dynamic_with_bytes string
  | No_namespace_close string
  | Duplicate_helper string
  | Unknown_helper_type string
  | Empty_namespace
  | Bad_site_base
  | Site_id_overflow
  | Imprecise_site
  | Not_an_integer string

section \<open>Python dictionaries\<close>

text \<open>
  A dictionary with its insertion order: assigning to a key that is there keeps its place.
\<close>

fun dict_set :: "'k \<Rightarrow> 'v \<Rightarrow> ('k \<times> 'v) list \<Rightarrow> ('k \<times> 'v) list" where
  "dict_set k v [] = [(k, v)]"
| "dict_set k v ((k', v') # d) = (if k' = k then (k, v) # d else (k', v') # dict_set k v d)"

lemma map_of_dict_set [simp]: "map_of (dict_set k v d) = (map_of d)(k \<mapsto> v)"
  by (induction d) (auto simp: fun_eq_iff)

lemma dict_set_keys: "fst ` set (dict_set k v d) = insert k (fst ` set d)"
proof (induction d)
  case (Cons p d)
  then show ?case by (cases p) (simp add: insert_commute)
qed simp

lemma dict_set_distinct: "distinct (map fst d) \<Longrightarrow> distinct (map fst (dict_set k v d))"
proof (induction d)
  case (Cons p d)
  then show ?case using dict_set_keys [of k v d] by (cases p) (auto simp: image_iff)
qed simp

lemma dict_set_new: "k \<notin> fst ` set d \<Longrightarrow> dict_set k v d = d @ [(k, v)]"
  by (induction d) auto

text \<open>\<open>{name: index + 1 for index, name in enumerate(names)}\<close>\<close>

definition enumerate_ids :: "string list \<Rightarrow> (string \<times> nat) list" where
  "enumerate_ids names = fold (\<lambda>(i, n). dict_set n (i + 1)) (enumerate 0 names) []"

lemma enumerate_ids_snoc:
  "enumerate_ids (names @ [n]) = dict_set n (length names + 1) (enumerate_ids names)"
  by (simp add: enumerate_ids_def enumerate_append_eq)

lemma enumerate_ids_keys: "fst ` set (enumerate_ids names) = set names"
  by (induction names rule: rev_induct) (simp_all add: enumerate_ids_snoc dict_set_keys, simp add: enumerate_ids_def)

lemma enumerate_ids_distinct: "distinct (map fst (enumerate_ids names))"
  by (induction names rule: rev_induct)
     (simp_all add: enumerate_ids_snoc dict_set_distinct, simp add: enumerate_ids_def)

lemma enumerate_ids_unique:
  "distinct names \<Longrightarrow> enumerate_ids names = map (\<lambda>(i, n). (n, i + 1)) (enumerate 0 names)"
proof (induction names rule: rev_induct)
  case Nil
  show ?case by (simp add: enumerate_ids_def)
next
  case (snoc n names)
  then show ?case
    using enumerate_ids_keys [of names]
    by (simp add: enumerate_ids_snoc enumerate_append_eq dict_set_new del: enumerate_ids_keys)
qed

lemma enumerate_ids_length: "length (enumerate_ids names) = card (set names)"
proof -
  have "length (enumerate_ids names) = card (set (map fst (enumerate_ids names)))"
    using distinct_card [OF enumerate_ids_distinct [of names]] by simp
  then show ?thesis using enumerate_ids_keys [of names] by simp
qed

lemma enumerate_ids_length_distinct: "length (enumerate_ids names) = length names \<longleftrightarrow> distinct names"
  using card_distinct [of names] distinct_card [of names] by (auto simp: enumerate_ids_length)

lemma enumerate_ids_lookup:
  "map_of (enumerate_ids names) n = Some i \<Longrightarrow> 0 < i \<and> i \<le> length names \<and> names ! (i - 1) = n"
proof (induction names rule: rev_induct)
  case Nil
  then show ?case by (simp add: enumerate_ids_def)
next
  case (snoc m names)
  show ?case
  proof (cases "m = n")
    case True
    with snoc.prems have "i = Suc (length names)" by (simp add: enumerate_ids_snoc)
    with True show ?thesis by simp
  next
    case False
    with snoc.prems have "map_of (enumerate_ids names) n = Some i" by (simp add: enumerate_ids_snoc)
    from snoc.IH [OF this] have "0 < i" "i - 1 < length names" "i \<le> length names" "names ! (i - 1) = n" by auto
    then show ?thesis by (simp add: nth_append)
  qed
qed

end
