(* ===== verification/PyRegex.thy ===== *)
theory PyRegex
  imports PyStr
begin

text \<open>
  The part of Python's \<open>re\<close> that the tools use: a pattern is a sequence of items, matched
  left to right with backtracking in Python's priority order (a greedy item first tries to
  take one more character).  A match is a length, counted from its start, with the offsets
  recorded by the group marks inside it.
\<close>

datatype re_item =
    Lit char                    \<comment> \<open>one given character\<close>
  | Cls "char \<Rightarrow> bool"          \<comment> \<open>one character of a class\<close>
  | StarG "char \<Rightarrow> bool"        \<comment> \<open>\<open>[class]*\<close>, greedy\<close>
  | WordB                       \<comment> \<open>\<open>\b\<close>\<close>
  | Mark                        \<comment> \<open>an end of a capturing group\<close>

type_synonym re_pattern = "re_item list"

text \<open>\<open>\b\<close> between the previous character, if any, and the rest of the string.\<close>

definition word_boundary :: "char option \<Rightarrow> string \<Rightarrow> bool" where
  "word_boundary pv s =
     ((case pv of None \<Rightarrow> False | Some c \<Rightarrow> py_isword c) \<noteq> (case s of [] \<Rightarrow> False | c # _ \<Rightarrow> py_isword c))"

text \<open>A match that starts one character later.\<close>

definition shift_match :: "(nat \<times> nat list) option \<Rightarrow> (nat \<times> nat list) option" where
  "shift_match = map_option (map_prod Suc (map Suc))"

function re_match :: "re_pattern \<Rightarrow> char option \<Rightarrow> string \<Rightarrow> (nat \<times> nat list) option" where
  "re_match [] pv s = Some (0, [])"
| "re_match (Lit c # r) pv s =
     (case s of [] \<Rightarrow> None
      | x # xs \<Rightarrow> if x = c then shift_match (re_match r (Some x) xs) else None)"
| "re_match (Cls p # r) pv s =
     (case s of [] \<Rightarrow> None
      | x # xs \<Rightarrow> if p x then shift_match (re_match r (Some x) xs) else None)"
| "re_match (StarG p # r) pv s =
     (case (case s of [] \<Rightarrow> None
            | x # xs \<Rightarrow> if p x then shift_match (re_match (StarG p # r) (Some x) xs) else None) of
        Some m \<Rightarrow> Some m
      | None \<Rightarrow> re_match r pv s)"
| "re_match (WordB # r) pv s = (if word_boundary pv s then re_match r pv s else None)"
| "re_match (Mark # r) pv s = map_option (map_prod id (Cons 0)) (re_match r pv s)"
  by pat_completeness auto
termination
  by (relation "measure (\<lambda>(r, pv, s). length r + length s)") auto

declare re_match.simps(4) [simp del]

text \<open>\<open>re.search\<close> from a position: the first start where the pattern matches.\<close>

fun re_search :: "re_pattern \<Rightarrow> char option \<Rightarrow> string \<Rightarrow> (nat \<times> nat \<times> nat list) option" where
  "re_search r pv s =
     (case re_match r pv s of
        Some (n, ms) \<Rightarrow> Some (0, n, ms)
      | None \<Rightarrow> (case s of [] \<Rightarrow> None
          | x # xs \<Rightarrow> map_option (map_prod Suc (map_prod Suc (map Suc))) (re_search r (Some x) xs)))"

declare re_search.simps [simp del]

text \<open>The character before a position.\<close>

definition prev_char :: "string \<Rightarrow> nat \<Rightarrow> char option" where
  "prev_char s i = (if i = 0 then None else Some (s ! (i - 1)))"

text \<open>
  \<open>re.finditer\<close>: leftmost non-overlapping matches, as start, end and group offsets.  The
  patterns of the tools never match the empty string.
\<close>

function re_finditer :: "re_pattern \<Rightarrow> string \<Rightarrow> nat \<Rightarrow> (nat \<times> nat \<times> nat list) list" where
  "re_finditer r s i =
     (if i > length s then []
      else case re_search r (prev_char s i) (drop i s) of
        None \<Rightarrow> []
      | Some (a, b, ms) \<Rightarrow>
          (i + a, i + b, map ((+) i) ms) # re_finditer r s (max (i + b) (Suc (i + a))))"
  by pat_completeness auto
termination
  by (relation "measure (\<lambda>(r, s, i). Suc (length s) - i)") auto

declare re_finditer.simps [simp del]

section \<open>Facts on matches\<close>

lemma shift_match_Some [simp]:
  "shift_match m = Some (n, ms) \<longleftrightarrow> (\<exists>k ks. m = Some (k, ks) \<and> n = Suc k \<and> ms = map Suc ks)"
  by (cases m) (auto simp: shift_match_def)

lemma shift_match_None [simp]: "shift_match m = None \<longleftrightarrow> m = None"
  by (simp add: shift_match_def)

lemma re_match_length: "re_match r pv s = Some (n, ms) \<Longrightarrow> n \<le> length s"
proof (induction r pv s arbitrary: n ms rule: re_match.induct)
  case (2 c r pv s)
  then show ?case by (cases s) (auto split: if_splits)
next
  case (3 p r pv s)
  then show ?case by (cases s) (auto split: if_splits)
next
  case (4 p r pv s)
  have u: "(case (case s of [] \<Rightarrow> None
      | x # xs \<Rightarrow> if p x then shift_match (re_match (StarG p # r) (Some x) xs) else None) of
      Some m \<Rightarrow> Some m | None \<Rightarrow> re_match r pv s) = Some (n, ms)"
    using re_match.simps(4) 4(3) by (rule trans [OF sym])
  show ?case
  proof (cases s)
    case Nil
    with 4(2) u show ?thesis by simp
  next
    case (Cons x xs)
    show ?thesis
    proof (cases "p x \<and> re_match (StarG p # r) (Some x) xs \<noteq> None")
      case True
      then obtain k ks where k: "re_match (StarG p # r) (Some x) xs = Some (k, ks)" by auto
      with u True Cons have "n = Suc k" by (auto simp: shift_match_def)
      with 4(1) [OF Cons _ k] True Cons show ?thesis by simp
    next
      case False
      with u Cons have "re_match r pv s = Some (n, ms)" by (auto simp: shift_match_def split: if_splits option.splits)
      with False Cons show ?thesis
        by (intro 4(2)) (auto simp: shift_match_def, metis not_None_eq surj_pair)
    qed
  qed
qed (auto split: if_splits)

text \<open>A search result is the first position whose suffix matches.\<close>

lemma re_search_Some:
  assumes "re_search r pv s = Some (a, b, ms)"
  shows "a \<le> length s" and "a \<le> b" and "b \<le> length s"
    and "re_match r (if a = 0 then pv else Some (s ! (a - 1))) (drop a s) \<noteq> None"
    and "map_option fst (re_match r (if a = 0 then pv else Some (s ! (a - 1))) (drop a s)) = Some (b - a)"
    and "\<forall>i < a. re_match r (if i = 0 then pv else Some (s ! (i - 1))) (drop i s) = None"
proof -
  have "a \<le> length s \<and> a \<le> b \<and> b \<le> length s \<and>
    map_option fst (re_match r (if a = 0 then pv else Some (s ! (a - 1))) (drop a s)) = Some (b - a) \<and>
    (\<forall>i < a. re_match r (if i = 0 then pv else Some (s ! (i - 1))) (drop i s) = None)"
    using assms
  proof (induction s arbitrary: pv a b ms)
    case Nil
    then show ?case by (auto simp: re_search.simps [of _ _ "[]"] dest: re_match_length split: option.splits)
  next
    case (Cons x xs)
    show ?case
    proof (cases "re_match r pv (x # xs)")
      case (Some m)
      obtain n ks where m: "m = (n, ks)" by (cases m)
      with Some Cons.prems have "a = 0" "b = n" by (auto simp: re_search.simps [of _ _ "x # xs"])
      with Some m show ?thesis using re_match_length [OF Some [unfolded m]] by simp
    next
      case None
      with Cons.prems obtain a' b' ms' where r: "re_search r (Some x) xs = Some (a', b', ms')"
        and ab: "a = Suc a'" "b = Suc b'"
        by (auto simp: re_search.simps [of _ _ "x # xs"])
      have pv': "(if Suc i = 0 then pv else Some ((x # xs) ! (Suc i - 1))) =
          (if i = 0 then Some x else Some (xs ! (i - 1)))" for i by (cases i) simp_all
      note IH = Cons.IH [OF r]
      have "re_match r (if i = 0 then pv else Some ((x # xs) ! (i - 1))) (drop i (x # xs)) = None"
        if "i < a" for i
      proof (cases i)
        case 0
        with None show ?thesis by simp
      next
        case (Suc j)
        with that ab IH show ?thesis by (cases j) auto
      qed
      then show ?thesis using IH ab by (cases a') auto
    qed
  qed
  then show "a \<le> length s" and "a \<le> b" and "b \<le> length s"
    and "map_option fst (re_match r (if a = 0 then pv else Some (s ! (a - 1))) (drop a s)) = Some (b - a)"
    and "\<forall>i < a. re_match r (if i = 0 then pv else Some (s ! (i - 1))) (drop i s) = None"
    by blast+
  then show "re_match r (if a = 0 then pv else Some (s ! (a - 1))) (drop a s) \<noteq> None" by auto
qed

lemma re_search_None:
  assumes "re_search r pv s = None" and "i \<le> length s"
  shows "re_match r (if i = 0 then pv else Some (s ! (i - 1))) (drop i s) = None"
  using assms
proof (induction s arbitrary: pv i)
  case Nil
  then show ?case by (auto simp: re_search.simps [of _ _ "[]"] split: option.splits)
next
  case (Cons x xs)
  then have n: "re_match r pv (x # xs) = None" "re_search r (Some x) xs = None"
    by (auto simp: re_search.simps [of _ _ "x # xs"] split: option.splits)
  show ?case
  proof (cases i)
    case 0
    with n show ?thesis by simp
  next
    case (Suc j)
    with Cons.IH [OF n(2), of j] Cons.prems(2) show ?thesis by (cases j) simp_all
  qed
qed

text \<open>Literal strings and a greedy class followed by something outside the class.\<close>

lemma re_match_lits:
  "re_match (map Lit w @ r) pv s =
     (if prefix w s then
        map_option (map_prod ((+) (length w)) (map ((+) (length w))))
          (re_match r (if w = [] then pv else Some (last w)) (drop (length w) s))
      else None)"
proof (induction w arbitrary: pv s)
  case Nil
  have "map_prod ((+) 0) (map ((+) 0)) = (id :: nat \<times> nat list \<Rightarrow> _)"
    by (rule ext) (auto simp: map_prod_def map_idI split: prod.split)
  then show ?case by (simp add: option.map_id)
next
  case (Cons c w)
  show ?case
  proof (cases s)
    case Nil
    then show ?thesis by simp
  next
    case (Cons x xs)
    then show ?thesis
      by (auto simp: Cons.IH shift_match_def option.map_comp comp_def map_prod_def split_beta)
  qed
qed

end
