(* ===== verification/SourceEdit.thy ===== *)
theory SourceEdit
  imports PolicyData PyRegex
begin

text \<open>
  \<^verbatim>\<open>tools/generate_policy.py\<close>, lines 11 to 173: the type hash and the identifier maps,
  finding a function and its body, the conversion of a one-based line and column into an
  offset, and the extent of a \<open>malloc\<close> call.  Offsets are numbers; a function that raises
  returns the exception on the left.
\<close>

section \<open>Names\<close>

text \<open>\<open>str.encode()\<close>: UTF-8, two bytes for the code points from 128 to 255.\<close>

definition utf8_char :: "char \<Rightarrow> nat list" where
  "utf8_char c = (let n = code_point c in if n < 128 then [n] else [192 + n div 64, 128 + n mod 64])"

definition encode :: "string \<Rightarrow> nat list" where
  "encode s = concat (map utf8_char s)"

definition hash_step :: "nat \<Rightarrow> nat \<Rightarrow> nat" where
  "hash_step value byte = and (129 * value + byte) (push_bit 64 1 - 1)"

definition hash_type :: "string \<Rightarrow> nat" where
  "hash_type name = foldl hash_step 0 (encode name)"

definition macro :: "string \<Rightarrow> string" where
  "macro name = map upper_char (map (\<lambda>c. if is_alnum c then c else CHR ''_'') name)"

definition symbol :: "string \<Rightarrow> string" where
  "symbol name = map (\<lambda>c. if is_ident_char c then c else CHR ''_'') name"

text \<open>\<open>part[:1].upper() + part[1:]\<close>\<close>

definition capitalize_part :: "string \<Rightarrow> string" where
  "capitalize_part part = map upper_char (take 1 part) @ drop 1 part"

definition cpp :: "string \<Rightarrow> string" where
  "cpp name = concat (map capitalize_part
     (filter (\<lambda>part. part \<noteq> []) (split_runs (\<lambda>c. \<not> is_alnum c) name)))"

section \<open>Functions of the source\<close>

text \<open>The pattern \<open>\bNAME\s*\([^)]*\)\s*\{\<close>.\<close>

definition header_pattern :: "string \<Rightarrow> re_pattern" where
  "header_pattern fn = WordB # map Lit fn @
     [StarG py_isspace, Lit (CHR ''(''), StarG (\<lambda>c. c \<noteq> CHR '')''), Lit (CHR '')''),
      StarG py_isspace, Lit (CHR ''{'')]"

text \<open>\<open>match.start()\<close> and \<open>match.end()\<close>\<close>

definition function_match :: "string \<Rightarrow> string \<Rightarrow> policy_error + nat \<times> nat" where
  "function_match source fn =
     (case re_search (header_pattern fn) None source of
        None \<Rightarrow> Inl (Function_not_found fn)
      | Some (a, b, _) \<Rightarrow> Inr (a, b))"

text \<open>The loop of \<open>function_body\<close> on the text from \<open>pos\<close>: the final \<open>pos\<close> and \<open>depth\<close>.\<close>

fun body_scan :: "string \<Rightarrow> nat \<Rightarrow> nat \<Rightarrow> nat \<times> nat" where
  "body_scan [] pos depth = (pos, depth)"
| "body_scan (c # cs) pos depth =
     (if depth = 0 then (pos, depth)
      else body_scan cs (pos + 1)
             (depth + (if c = CHR ''{'' then 1 else 0) - (if c = CHR ''}'' then 1 else 0)))"

definition function_body :: "string \<Rightarrow> string \<Rightarrow> policy_error + nat \<times> nat" where
  "function_body source fn =
     res_bind (function_match source fn) (\<lambda>(_, body).
       let (pos, depth) = body_scan (drop body source) body 1
       in if depth \<noteq> 0 then Inl (Unterminated_function fn) else Inr (body, pos - 1))"

definition noinline_marker :: string where
  "noinline_marker = ''__attribute__((noinline)) ''"

definition mark_precise_function_noinline :: "string \<Rightarrow> string \<Rightarrow> policy_error + string" where
  "mark_precise_function_noinline source fn =
     res_bind (function_match source fn) (\<lambda>(start, _).
       if slice source (start - length noinline_marker) start = noinline_marker then Inr source
       else Inr (take start source @ noinline_marker @ drop start source))"

section \<open>Line and column\<close>

text \<open>A line without its \<open>\n\<close> and then without a \<open>\r\<close>.\<close>

definition strip_end :: "char \<Rightarrow> string \<Rightarrow> string" where
  "strip_end c s = (if s \<noteq> [] \<and> last s = c then butlast s else s)"

definition visible_line :: "string \<Rightarrow> string" where
  "visible_line text = strip_end CR (strip_end LF text)"

definition source_offset :: "string \<Rightarrow> int \<Rightarrow> int \<Rightarrow> bool \<Rightarrow> policy_error + nat" where
  "source_offset source line column is_end =
     (if line < 1 \<or> column < 1 then Inl Not_one_based
      else let lines = splitlines_keep source in
        if line > int (length lines) then Inl (Line_out_of_range line)
        else
          (let text = lines ! (nat line - 1);
               visible = visible_line text;
               max_column = int (length visible) + (if is_end then 1 else 0)
           in if column > max_column then Inl (Column_out_of_range line column)
              else
                (let base = sum_list (map length (take (nat line - 1) lines))
                 in Inr (if is_end then base + nat column else base + nat column - 1))))"

section \<open>The extent of a call\<close>

text \<open>The two quotes and the backslash.\<close>

definition DQ :: char where "DQ = CHR 0x22"
definition SQ :: char where "SQ = CHR 0x27"
definition BSLASH :: char where "BSLASH = CHR 0x5C"

definition malloc_name :: string where
  "malloc_name = ''malloc''"

text \<open>
  The scanning loop on the text from \<open>pos\<close>, with its five variables; the result is the
  position of the parenthesis that closes the call.  The loop is left at a negative depth.
\<close>

function call_scan ::
    "string \<Rightarrow> nat \<Rightarrow> int \<Rightarrow> char option \<Rightarrow> bool \<Rightarrow> bool \<Rightarrow> bool \<Rightarrow> nat option" where
  "call_scan [] pos depth quote escaped line_comment block_comment = None"
| "call_scan (ch # rest) pos depth quote escaped line_comment block_comment =
     (let nxt_is = (\<lambda>c. rest \<noteq> [] \<and> hd rest = c) in
      if line_comment then
        call_scan rest (pos + 1) depth quote escaped (ch \<noteq> LF) block_comment
      else if block_comment then
        (if ch = CHR ''*'' \<and> nxt_is (CHR ''/'')
         then call_scan (tl rest) (pos + 2) depth quote escaped line_comment False
         else call_scan rest (pos + 1) depth quote escaped line_comment block_comment)
      else (case quote of
        Some q \<Rightarrow>
          if escaped then call_scan rest (pos + 1) depth quote False line_comment block_comment
          else if ch = BSLASH then call_scan rest (pos + 1) depth quote True line_comment block_comment
          else if ch = q then call_scan rest (pos + 1) depth None escaped line_comment block_comment
          else call_scan rest (pos + 1) depth quote escaped line_comment block_comment
      | None \<Rightarrow>
          if ch = CHR ''/'' \<and> nxt_is (CHR ''/'')
          then call_scan (tl rest) (pos + 2) depth quote escaped True block_comment
          else if ch = CHR ''/'' \<and> nxt_is (CHR ''*'')
          then call_scan (tl rest) (pos + 2) depth quote escaped line_comment True
          else if ch = DQ \<or> ch = SQ
          then call_scan rest (pos + 1) depth (Some ch) escaped line_comment block_comment
          else if ch = CHR ''('' then call_scan rest (pos + 1) (depth + 1) quote escaped line_comment block_comment
          else if ch = CHR '')'' then
            (if depth - 1 = 0 then Some pos
             else if depth - 1 < 0 then None
             else call_scan rest (pos + 1) (depth - 1) quote escaped line_comment block_comment)
          else call_scan rest (pos + 1) depth quote escaped line_comment block_comment))"
  by pat_completeness auto
termination
  by (relation "measure (\<lambda>(s, _). length s)") auto

declare call_scan.simps(2) [simp del]

text \<open>
  \<open>malloc_call_extent\<close>: the start and end of the call, and its argument.  The two-step test
  after the token (skip blanks, then an opening parenthesis) is on the rest of the source.
\<close>

definition malloc_call_extent ::
    "string \<Rightarrow> nat \<Rightarrow> nat \<Rightarrow> policy_error + nat \<times> nat \<times> string" where
  "malloc_call_extent source anchor_start anchor_end =
     (if anchor_end \<le> anchor_start \<or> \<not> starts_with_at source malloc_name anchor_start
      then Inl (Anchor_not_malloc (slice source anchor_start anchor_end))
      else let name_end = anchor_start + length malloc_name in
        if name_end > anchor_end then Inl Truncates_malloc
        else
          (let open_paren = name_end + length (takeWhile py_isspace (drop name_end source)) in
           if open_paren \<ge> length source \<or> source ! open_paren \<noteq> CHR ''('' then Inl No_argument_list
           else case call_scan (drop open_paren source) open_paren 0 None False False False of
             None \<Rightarrow> Inl Unterminated_arguments
           | Some pos \<Rightarrow>
               (let argument = py_strip (slice source (open_paren + 1) pos) in
                if argument = [] then Inl Empty_size_expression
                else
                  (let call_end = pos + 1 in
                   if anchor_end > call_end \<and> py_strip (slice source call_end anchor_end) \<noteq> []
                   then Inl Span_past_call
                   else Inr (anchor_start, call_end, argument)))))"

section \<open>Labels\<close>

definition site_symbols :: "alloc_entry \<Rightarrow> nat \<Rightarrow> string \<times> string" where
  "site_symbols allocation site_id =
     (let prefix = ''interspec_alloc_site_'' @ symbol (ae_function allocation) @ ''_'' @ nat_str site_id
      in (prefix @ ''_begin'', prefix @ ''_end''))"

text \<open>The two characters \<open>\n\<close> of the emitted C string.\<close>

definition escaped_newline :: string where
  "escaped_newline = [BSLASH, CHR ''n'']"

definition exported_label_asm :: "string \<Rightarrow> string" where
  "exported_label_asm name =
     ''.globl '' @ name @ escaped_newline @ ''.type '' @ name @ '',@function'' @ escaped_newline @ name @ '':''"

end
