(* ===== verification/SiteRewrite.thy ===== *)
theory SiteRewrite
  imports SourceEdit "HOL-Library.Product_Lexorder"
begin

text \<open>
  The two \<open>instrument_site\<close> functions, of \<^verbatim>\<open>tools/generate_policy.py\<close> (labels around the
  allocation, for NaCl) and of \<^verbatim>\<open>tools/generate_wasm_boundary_policy.py\<close> (a dedicated
  import, for wasm2c).  Both locate one \<open>malloc\<close> call and splice a replacement over it; they
  differ in one check and in the replacement.
\<close>

section \<open>Locating the call\<close>

text \<open>
  What the two functions share: the anchor from the analyzed span, the enclosing body, and
  the call.  \<open>reject_empty\<close> is the extra test of the NaCl tool.
\<close>

definition locate_call ::
    "bool \<Rightarrow> string \<Rightarrow> string \<Rightarrow> site_span \<Rightarrow> policy_error + nat \<times> nat \<times> string" where
  "locate_call reject_empty source fn site =
     res_bind (source_offset source (ss_start_line site) (ss_start_column site) False) (\<lambda>anchor_start.
     res_bind (source_offset source (ss_end_line site) (ss_end_column site) True) (\<lambda>anchor_end.
     if reject_empty \<and> anchor_end \<le> anchor_start then Inl (Invalid_site fn)
     else
       res_bind (function_body source fn) (\<lambda>(function_start, function_end).
       if anchor_start < function_start \<or> anchor_end > function_end then Inl (Site_escapes fn)
       else
         res_bind (malloc_call_extent source anchor_start anchor_end) (\<lambda>(call_start, call_end, size_expr).
         if call_end > function_end then Inl (Call_escapes fn)
         else Inr (call_start, call_end, size_expr)))))"

definition splice :: "string \<Rightarrow> nat \<Rightarrow> nat \<Rightarrow> string \<Rightarrow> string" where
  "splice source i j replacement = take i source @ replacement @ drop j source"

section \<open>The NaCl tool\<close>

definition site_replacement :: "string \<Rightarrow> string \<Rightarrow> string \<Rightarrow> string" where
  \<open>site_replacement size_expr begin_symbol end_symbol =
     ''({ '' @
     ''uint32_t __interspec_size = (uint32_t)('' @ size_expr @ ''); '' @
     ''uint32_t __interspec_ptr = 0; '' @
     ''__asm__ __volatile__("'' @ exported_label_asm begin_symbol @ ''" ::: "memory"); '' @
     ''__interspec_ptr = INTERSPEC_SITE_ALLOC(__interspec_size); '' @
     ''__asm__ __volatile__("'' @ exported_label_asm end_symbol @ ''" ::: "memory"); '' @
     ''(void*)(uintptr_t)__interspec_ptr; })''\<close>

text \<open>An allocation without a site raises the \<open>KeyError\<close> of \<open>allocation["site"]\<close>.\<close>

definition instrument_site :: "string \<Rightarrow> alloc_entry \<Rightarrow> nat \<Rightarrow> policy_error + string" where
  "instrument_site source allocation site_id =
     (case ae_site allocation of
        None \<Rightarrow> Inl (Missing_key ''site'')
      | Some site \<Rightarrow>
          res_bind (locate_call True source (ae_function allocation) site) (\<lambda>(call_start, call_end, size_expr).
          let (begin_symbol, end_symbol) = site_symbols allocation site_id
          in Inr (splice source call_start call_end
                    (site_replacement size_expr begin_symbol end_symbol))))"

section \<open>The wasm tool\<close>

definition c_stem :: "string \<Rightarrow> string" where
  "c_stem namespace_name = map lower_char (symbol namespace_name)"

definition site_c_name :: "string \<Rightarrow> nat \<Rightarrow> string" where
  "site_c_name namespace_name local_site_id =
     ''interspec_wasm_alloc_'' @ c_stem namespace_name @ ''_site_'' @ nat_str local_site_id"

definition wasm_replacement :: "string \<Rightarrow> string \<Rightarrow> string" where
  "wasm_replacement alloc size_expr = ''(void*)(uintptr_t)'' @ alloc @ ''((uint32_t)('' @ size_expr @ ''))''"

definition wasm_instrument_site :: "string \<Rightarrow> alloc_entry \<Rightarrow> nat \<Rightarrow> string \<Rightarrow> policy_error + string" where
  "wasm_instrument_site source allocation local_site_id namespace_name =
     (case ae_site allocation of
        None \<Rightarrow> Inl (Missing_key ''site'')
      | Some site \<Rightarrow>
          res_bind (locate_call False source (ae_function allocation) site) (\<lambda>(call_start, call_end, size_expr).
          let alloc = site_c_name namespace_name local_site_id
          in Inr (splice source call_start call_end (wasm_replacement alloc size_expr))))"

end
