(* ===== verification/GenPolicy.thy ===== *)
theory GenPolicy
  imports SiteRewrite
begin

text \<open>
  \<^verbatim>\<open>tools/generate_policy.py\<close>, lines 176 to 446: the rewriting of sites without a span, and
  \<open>generate\<close>, which checks a policy, instruments the source and emits the two headers.
\<close>

section \<open>Sites without a span\<close>

definition is_ident_start :: "char \<Rightarrow> bool" where
  "is_ident_start c = (is_upper c \<or> is_lower c \<or> c = CHR ''_'')"

text \<open>\<open>malloc\s*\(\s*sizeof\s*\(\s*\*\s*(NAME)\s*\)\s*\)\<close> and \<open>malloc\s*\(\s*(NAME)\s*\)\<close>.\<close>

definition sizeof_pattern :: re_pattern where
  "sizeof_pattern = map Lit ''malloc'' @ [StarG py_isspace, Lit (CHR ''(''), StarG py_isspace] @
     map Lit ''sizeof'' @ [StarG py_isspace, Lit (CHR ''(''), StarG py_isspace, Lit (CHR ''*''), StarG py_isspace,
       Mark, Cls is_ident_start, StarG is_ident_char, Mark,
       StarG py_isspace, Lit (CHR '')''), StarG py_isspace, Lit (CHR '')'')]"

definition plain_pattern :: re_pattern where
  "plain_pattern = map Lit ''malloc'' @ [StarG py_isspace, Lit (CHR ''(''), StarG py_isspace,
       Mark, Cls is_ident_start, StarG is_ident_char, Mark, StarG py_isspace, Lit (CHR '')'')]"

text \<open>\<open>match.group(1)\<close>\<close>

definition group1 :: "string \<Rightarrow> nat list \<Rightarrow> string" where
  "group1 s ms = slice s (ms ! 0) (ms ! 1)"

definition instrument_legacy :: "string \<Rightarrow> alloc_entry \<Rightarrow> policy_error + string" where
  "instrument_legacy source allocation =
     res_bind (function_body source (ae_function allocation)) (\<lambda>(start, stop).
     let body = slice source start stop;
         type_name = ae_type allocation;
         type_id = ''INTERSPEC_TYPE_ID_'' @ macro type_name;
         old = ''(struct '' @ type_name @ ''*)malloc(sizeof(struct '' @ type_name @ ''))'';
         put = (\<lambda>body'. Inr (take start source @ body' @ drop stop source))
     in if py_count old body = 1 then
          put (py_replace_first old
            (''(struct '' @ type_name @ ''*)(uintptr_t)typed_alloc(sizeof(struct '' @ type_name @ ''), '' @
             type_id @ '')'') body)
        else
          (case re_finditer sizeof_pattern body 0 of
             [(a, b, ms)] \<Rightarrow>
               put (splice body a b
                 (''(void*)(uintptr_t)typed_alloc(sizeof(*'' @ group1 body ms @ ''), '' @ type_id @ '')''))
           | _ \<Rightarrow>
             (case re_finditer plain_pattern body 0 of
                [(a, b, ms)] \<Rightarrow>
                  put (splice body a b
                    (''(void*)(uintptr_t)typed_alloc((uint32_t)('' @ group1 body ms @ ''), '' @ type_id @ '')''))
              | _ \<Rightarrow> Inl (Expected_one_malloc (ae_function allocation)))))"

section \<open>Checks and site numbering\<close>

text \<open>The loop over \<open>hashes\<close>: a dictionary from hash to the name that has it.\<close>

definition hash_entry :: "string \<Rightarrow> (nat \<times> string) list \<Rightarrow> policy_error + (nat \<times> string) list" where
  "hash_entry name hashes =
     (let value = hash_type name in
      case map_of hashes value of
        Some other \<Rightarrow> Inl (Hash_collision other name)
      | None \<Rightarrow> Inr (dict_set value name hashes))"

definition check_hashes :: "(string \<times> nat) list \<Rightarrow> policy_error + (nat \<times> string) list" where
  "check_hashes ids = res_fold hash_entry (map fst ids) []"

text \<open>The loop that assigns \<open>site_ids\<close>; the state is the dictionary and \<open>next_site_id\<close>.\<close>

definition number_site ::
    "(string \<times> nat) list \<Rightarrow> nat \<times> alloc_entry \<Rightarrow> (nat \<times> nat) list \<times> nat \<Rightarrow>
     policy_error + (nat \<times> nat) list \<times> nat" where
  "number_site ids = (\<lambda>(index, allocation) (site_ids, next_site_id).
     if map_of ids (ae_type allocation) = None then Inl (Unknown_allocation_type (ae_type allocation))
     else if ae_site allocation \<noteq> None then Inr (dict_set index next_site_id site_ids, next_site_id + 1)
     else Inr (site_ids, next_site_id))"

definition number_sites :: "(string \<times> nat) list \<Rightarrow> alloc_entry list \<Rightarrow> policy_error + (nat \<times> nat) list" where
  "number_sites ids allocations =
     res_bind (res_fold (number_site ids) (enumerate 0 allocations) ([], 1)) (\<lambda>(site_ids, _). Inr site_ids)"

text \<open>The sort key of a precise site, and \<open>list.sort(key, reverse=True)\<close>, which is stable.\<close>

definition site_key :: "alloc_entry \<Rightarrow> int \<times> int" where
  "site_key allocation = (case ae_site allocation of
     None \<Rightarrow> (0, 0) | Some site \<Rightarrow> (ss_start_line site, ss_start_column site))"

definition sort_reverse :: "('a \<Rightarrow> 'k::linorder) \<Rightarrow> 'a list \<Rightarrow> 'a list" where
  "sort_reverse key xs = rev (sort_key key (rev xs))"

text \<open>The source after the three instrumentation loops.\<close>

definition instrument_source ::
    "(nat \<times> nat) list \<Rightarrow> alloc_entry list \<Rightarrow> string \<Rightarrow> policy_error + string" where
  "instrument_source site_ids allocations source =
     (let precise = filter (\<lambda>(_, a). ae_site a \<noteq> None) (enumerate 0 allocations);
          legacy = filter (\<lambda>a. ae_site a = None) allocations
      in res_bind (res_fold (\<lambda>(index, a) s. instrument_site s a (the (map_of site_ids index)))
                     (sort_reverse (\<lambda>(_, a). site_key a) precise) source) (\<lambda>source1.
         res_bind (res_fold (\<lambda>fn s. mark_precise_function_noinline s fn)
                     (sort (remdups (map (\<lambda>(_, a). ae_function a) precise))) source1) (\<lambda>source2.
         res_fold (\<lambda>a s. instrument_legacy s a) legacy source2)))"

end
