(* ===== verification/GenHeaders.thy ===== *)
theory GenHeaders
  imports GenPolicy
begin

text \<open>
  The header text that \<open>generate\<close> of \<^verbatim>\<open>tools/generate_policy.py\<close> emits (lines 294 to 446), as
  the lists of lines the code builds, and \<open>generate\<close> itself.
\<close>

definition newline :: string where
  "newline = [LF]"

text \<open>The untrusted header.\<close>

definition type_id_defines :: "(string \<times> nat) list \<Rightarrow> string list" where
  "type_id_defines ids = map (\<lambda>(name, type_id).
     ''#define INTERSPEC_TYPE_ID_'' @ macro name @ '' UINT32_C('' @ nat_str type_id @ '')'') ids"

definition u_header_lines :: "(string \<times> nat) list \<Rightarrow> string list" where
  \<open>u_header_lines ids =
     [''#pragma once'',
      '''',
      ''#include <stdint.h>'',
      ''#include "interspec_site_allocator.h"'',
      ''''] @
     type_id_defines ids @ ['''']\<close>

text \<open>The trusted header: declarations, the type table, its registration.\<close>

definition t_prelude_lines :: "string list" where
  \<open>t_prelude_lines =
     [''#pragma once'',
      '''',
      ''#include "interspec/runtime.h"'',
      ''#include <limits>'',
      '''',
      ''namespace interspec::generated {'',
      '''',
      ''struct AccessPolicy {'',
      ''  uint64_t type_hash;'',
      ''  size_t offset;'',
      ''  size_t bytes;'',
      ''};'',
      '''',
      ''struct CheckedAccess {'',
      ''  CheckResult result;'',
      ''  uintptr_t address;'',
      ''  size_t bytes;'',
      ''};'',
      '''',
      ''struct AllocationSitePolicy {'',
      ''  SiteId site_id;'',
      ''  TypeId type_id;'',
      ''  const char* begin_symbol;'',
      ''  const char* end_symbol;'',
      ''};'',
      '''']\<close>

definition type_constant_lines :: "(string \<times> nat) list \<Rightarrow> string list" where
  "type_constant_lines ids = concat (map (\<lambda>(name, type_id).
     [''constexpr TypeId kTypeId'' @ cpp name @ '' = '' @ nat_str type_id @ '';'',
      ''constexpr uint64_t kTypeHash'' @ cpp name @ '' = UINT64_C('' @ nat_str (hash_type name) @ '');'']) ids)"

definition register_type_lines :: "(string \<times> nat) list \<Rightarrow> string list" where
  "register_type_lines ids = map (\<lambda>(name, _).
     ''  ok = runtime.register_type(kTypeId'' @ cpp name @ '', kTypeHash'' @ cpp name @ '') && ok;'') ids"

definition register_types_lines :: "(string \<times> nat) list \<Rightarrow> string list" where
  "register_types_lines ids =
     ['''', ''inline bool register_types(Runtime& runtime)'', ''{'', ''  bool ok = true;''] @
     register_type_lines ids @
     [''  return ok;'', ''}'', '''']"

text \<open>The allocation sites: id, type identifier and the two labels.\<close>

type_synonym site_row = "nat \<times> string \<times> string \<times> string"

definition site_entries :: "(nat \<times> nat) list \<Rightarrow> alloc_entry list \<Rightarrow> site_row list" where
  "site_entries site_ids allocations = concat (map (\<lambda>(index, allocation).
     case map_of site_ids index of
       None \<Rightarrow> []
     | Some site_id \<Rightarrow>
         [(site_id, cpp (ae_type allocation), site_symbols allocation site_id)])
     (enumerate 0 allocations))"

definition site_row_line :: "site_row \<Rightarrow> string" where
  \<open>site_row_line = (\<lambda>(site_id, type_ident, begin_symbol, end_symbol).
     ''  {'' @ nat_str site_id @ '', kTypeId'' @ type_ident @ '', "'' @ begin_symbol @ ''", "'' @
     end_symbol @ ''"},'')\<close>

definition site_lines :: "site_row list \<Rightarrow> string list" where
  "site_lines entries =
     [''constexpr size_t kAllocationSiteCount = '' @ nat_str (length entries) @ '';''] @
     (if entries \<noteq> [] then
        [''constexpr AllocationSitePolicy kAllocationSites[] = {''] @
        map site_row_line entries @
        [''};'', '''',
         ''template<typename Resolver>'',
         ''inline bool register_allocation_sites(Runtime& runtime, Resolver resolve)'',
         ''{'',
         ''  for (const auto& site : kAllocationSites) {'',
         ''    const uintptr_t begin = resolve(site.begin_symbol);'',
         ''    const uintptr_t end = resolve(site.end_symbol);'',
         ''    if (!begin || !end ||'',
         ''        !runtime.register_allocation_site(site.site_id, begin, end, site.type_id))'',
         ''      return false;'',
         ''  }'',
         ''  return true;'',
         ''}'',
         '''']
      else
        [''template<typename Resolver>'',
         ''inline bool register_allocation_sites(Runtime&, Resolver)'',
         ''{'',
         ''  return true;'',
         ''}'',
         ''''])"

text \<open>The trusted uses.  A use without a \<open>bytes\<close> key raises \<open>KeyError\<close>.\<close>

definition use_lines :: "(string \<times> nat) list \<Rightarrow> use_entry \<Rightarrow> policy_error + string list" where
  "use_lines ids use =
     (if map_of ids (ue_type use) = None then Inl (Unknown_use_type (ue_type use))
      else case ue_bytes use of
        None \<Rightarrow> Inl (Missing_key ''bytes'')
      | Some bytes \<Rightarrow>
          if ue_offset use < 0 \<or> bytes < 0 then Inl (Negative_access (ue_name use))
          else Inr [''constexpr AccessPolicy kUse'' @ cpp (ue_name use) @ ''{'',
                    ''  kTypeHash'' @ cpp (ue_type use) @ '', '' @ int_str (ue_offset use) @ '', '' @
                    int_str bytes @ ''};''])"

definition t_check_lines :: "string list" where
  "t_check_lines =
     ['''',
      ''inline CheckedAccess checked_access(const Runtime& runtime,'',
      ''                                    uintptr_t base,'',
      ''                                    AccessPolicy policy)'',
      ''{'',
      ''  if (policy.offset > std::numeric_limits<size_t>::max() - policy.bytes)'',
      ''    return {CheckResult::out_of_bounds, 0, 0};'',
      ''  const size_t extent = policy.offset + policy.bytes;'',
      ''  const CheckResult result = runtime.check(base, extent, policy.type_hash);'',
      ''  if (result != CheckResult::ok) return {result, 0, 0};'',
      ''  return {result, base + policy.offset, policy.bytes};'',
      ''}'',
      '''',
      ''inline CheckResult check(const Runtime& runtime, uintptr_t base, AccessPolicy policy)'',
      ''{'',
      ''  return checked_access(runtime, base, policy).result;'',
      ''}'',
      '''',
      ''}  // namespace interspec::generated'',
      '''']"

definition t_header_lines ::
    "(string \<times> nat) list \<Rightarrow> site_row list \<Rightarrow> string list \<Rightarrow> string list" where
  "t_header_lines ids entries uses =
     t_prelude_lines @ type_constant_lines ids @ register_types_lines ids @
     site_lines entries @ uses @ t_check_lines"

text \<open>
  \<open>generate\<close>: the checks in the order of the code, the instrumented source and the headers.
\<close>

definition generate :: "policy \<Rightarrow> string \<Rightarrow> policy_error + string \<times> string \<times> string" where
  "generate policy source =
     (let ids = enumerate_ids (p_types policy) in
      if length ids \<noteq> length (p_types policy) then Inl Duplicate_type
      else
        res_bind (check_hashes ids) (\<lambda>_.
        res_bind (number_sites ids (p_allocations policy)) (\<lambda>site_ids.
        res_bind (instrument_source site_ids (p_allocations policy) source) (\<lambda>instrumented.
        res_bind (res_map (use_lines ids) (p_uses policy)) (\<lambda>uses.
        Inr (instrumented,
             py_join newline (u_header_lines ids),
             py_join newline
               (t_header_lines ids (site_entries site_ids (p_allocations policy)) (concat uses))))))))"

end
