(* ===== verification/BoundaryPolicy.thy ===== *)
theory BoundaryPolicy
  imports GenHeaders
begin

text \<open>
  \<^verbatim>\<open>tools/generate_boundary_policy.py\<close>: a policy composed with a boundary description (extra
  types, dynamic uses, helper sites), and the headers extended with the helper sites.
\<close>

section \<open>Labels and macros of helper sites\<close>

definition helper_symbols :: "string \<Rightarrow> string \<Rightarrow> nat \<Rightarrow> string \<times> string" where
  "helper_symbols namespace_name name site_id =
     (let prefix = ''interspec_alloc_site_'' @ symbol namespace_name @ ''_'' @ symbol name @ ''_'' @ nat_str site_id
      in (prefix @ ''_begin'', prefix @ ''_end''))"

definition helper_macro :: "string \<Rightarrow> string \<Rightarrow> string" where
  "helper_macro name tail = ''INTERSPEC_SITE_'' @ macro name @ ''_'' @ tail"

section \<open>Composing the policy\<close>

text \<open>The loop over the extra types; \<open>known_types\<close> is the set of the types so far.\<close>

definition add_extra_type :: "string \<Rightarrow> string list \<Rightarrow> policy_error + string list" where
  "add_extra_type type_name types =
     (if type_name = [] then Inl Empty_type_name
      else if type_name \<notin> set types then Inr (types @ [type_name])
      else Inr types)"

definition add_extra_types :: "string list \<Rightarrow> string list \<Rightarrow> policy_error + string list" where
  "add_extra_types extra types = res_fold add_extra_type extra types"

text \<open>The loop over the uses: a dynamic use must not declare bytes, and gets zero.\<close>

definition compose_use :: "use_entry \<Rightarrow> policy_error + use_entry" where
  "compose_use use =
     (if ue_dynamic use then
        (if ue_bytes use \<noteq> None \<and> the (ue_bytes use) \<noteq> 0 then Inl (Dynamic_with_bytes (ue_name use))
         else Inr (use\<lparr>ue_bytes := Some 0\<rparr>))
      else Inr use)"

definition prepare_policy :: "policy \<Rightarrow> boundary \<Rightarrow> policy_error + policy \<times> string list" where
  "prepare_policy policy boundary =
     res_bind (add_extra_types (bd_types boundary) (p_types policy)) (\<lambda>types.
     res_bind (res_map compose_use (p_uses policy)) (\<lambda>uses.
     Inr (policy\<lparr>p_types := types, p_uses := uses\<rparr>,
          map ue_name (filter ue_dynamic (p_uses policy)))))"

section \<open>Helper sites\<close>

text \<open>
  The loop over the helpers: \<open>known_types\<close> and the number of precise sites are given; the
  state is \<open>seen_names\<close> with the rows and the lines for the untrusted header.
\<close>

definition helper_u_lines :: "string \<Rightarrow> string \<Rightarrow> string \<Rightarrow> string list" where
  \<open>helper_u_lines name begin_symbol end_symbol =
     [''#define '' @ helper_macro name ''BEGIN'' @ ''() '' @ [BSLASH],
      ''  __asm__ __volatile__("'' @ exported_label_asm begin_symbol @ ''" ::: "memory")'',
      ''#define '' @ helper_macro name ''END'' @ ''() '' @ [BSLASH],
      ''  __asm__ __volatile__("'' @ exported_label_asm end_symbol @ ''" ::: "memory")'',
      '''']\<close>

definition add_helper ::
    "string \<Rightarrow> string list \<Rightarrow> nat \<Rightarrow> nat \<times> helper_site \<Rightarrow>
     string list \<times> site_row list \<times> string list \<Rightarrow>
     policy_error + string list \<times> site_row list \<times> string list" where
  "add_helper namespace_name types precise_count = (\<lambda>(index, helper) (seen_names, entries, u_lines).
     let name = hs_name helper; type_name = hs_type helper in
     if name \<in> set seen_names then Inl (Duplicate_helper name)
     else if type_name \<notin> set types then Inl (Unknown_helper_type type_name)
     else
       (let site_id = precise_count + index;
            (begin_symbol, end_symbol) = helper_symbols namespace_name name site_id
        in Inr (seen_names @ [name],
                entries @ [(site_id, cpp type_name, begin_symbol, end_symbol)],
                u_lines @ helper_u_lines name begin_symbol end_symbol)))"

definition add_helpers ::
    "string \<Rightarrow> string list \<Rightarrow> nat \<Rightarrow> helper_site list \<Rightarrow> policy_error + site_row list \<times> string list" where
  "add_helpers namespace_name types precise_count helpers =
     res_bind (res_fold (add_helper namespace_name types precise_count) (enumerate 1 helpers) ([], [], []))
       (\<lambda>(_, entries, u_lines). Inr (entries, u_lines))"

section \<open>The extended headers\<close>

definition inject_before_namespace_close :: "string \<Rightarrow> string \<Rightarrow> string list \<Rightarrow> policy_error + string" where
  "inject_before_namespace_close header namespace_name lines =
     (let marker = ''}  // namespace '' @ namespace_name in
      case py_rfind marker header of
        None \<Rightarrow> Inl (No_namespace_close namespace_name)
      | Some pos \<Rightarrow>
          Inr ((py_rstrip (take pos header) @ newline @ newline) @
               py_rstrip (py_join newline lines) @ newline @ newline @ drop pos header))"

definition default_namespace :: string where
  "default_namespace = ''interspec::generated''"

text \<open>The two replacements that rename the namespace of the generated header.\<close>

definition rename_namespace :: "string \<Rightarrow> string \<Rightarrow> string" where
  "rename_namespace namespace_name t_header =
     (if namespace_name \<noteq> default_namespace then
        py_replace (''}  // namespace '' @ default_namespace) (''}  // namespace '' @ namespace_name)
          (py_replace (''namespace '' @ default_namespace) (''namespace '' @ namespace_name) t_header)
      else t_header)"

definition helper_u_header :: "string \<Rightarrow> string list \<Rightarrow> string" where
  "helper_u_header u_header u_lines =
     (if u_lines \<noteq> [] then
        py_rstrip u_header @ newline @ newline @ py_rstrip (py_join newline u_lines) @ newline
      else u_header)"

definition helper_site_lines :: "site_row list \<Rightarrow> string list" where
  "helper_site_lines entries =
     [''struct HelperAllocationSitePolicy {'',
      ''  SiteId site_id;'',
      ''  TypeId type_id;'',
      ''  const char* begin_symbol;'',
      ''  const char* end_symbol;'',
      ''};'',
      '''',
      ''constexpr size_t kHelperAllocationSiteCount = '' @ nat_str (length entries) @ '';''] @
     (if entries \<noteq> [] then
        [''constexpr HelperAllocationSitePolicy kHelperAllocationSites[] = {''] @
        map site_row_line entries @
        [''};'', '''', ''template<typename Resolver>'',
         ''inline bool register_helper_allocation_sites(Runtime& runtime, Resolver resolve)'',
         ''{'', ''  for (const auto& site : kHelperAllocationSites) {'',
         ''    const uintptr_t begin = resolve(site.begin_symbol);'',
         ''    const uintptr_t end = resolve(site.end_symbol);'',
         ''    if (!begin || !end ||'',
         ''        !runtime.register_allocation_site(site.site_id, begin, end, site.type_id))'',
         ''      return false;'', ''  }'', ''  return true;'', ''}'', '''']
      else
        [''template<typename Resolver>'',
         ''inline bool register_helper_allocation_sites(Runtime&, Resolver)'',
         ''{'', ''  return true;'', ''}'', '''']) @
     [''constexpr size_t kTotalAllocationSiteCount ='',
      ''    kAllocationSiteCount + kHelperAllocationSiteCount;'',
      '''',
      ''template<typename Resolver>'',
      ''inline bool register_allocation_policy(Runtime& runtime, Resolver resolve)'',
      ''{'',
      ''  if (!register_allocation_sites(runtime, resolve)) return false;'',
      ''  return register_helper_allocation_sites(runtime, resolve);'',
      ''}'']"

definition dynamic_check_lines :: "string list \<Rightarrow> string list" where
  "dynamic_check_lines dynamic_uses =
     (if dynamic_uses \<noteq> [] then
        ['''', ''inline CheckedAccess checked_dynamic_access(const Runtime& runtime,'',
         ''                                            uintptr_t base,'',
         ''                                            size_t dynamic_bytes,'',
         ''                                            AccessPolicy policy)'', ''{'',
         ''  if (policy.bytes != 0 ||'',
         ''      policy.offset > std::numeric_limits<size_t>::max() - dynamic_bytes)'',
         ''    return {CheckResult::out_of_bounds, 0, 0};'',
         ''  const size_t extent = policy.offset + dynamic_bytes;'',
         ''  const CheckResult result = runtime.check(base, extent, policy.type_hash);'',
         ''  if (result != CheckResult::ok) return {result, 0, 0};'',
         ''  return {result, base + policy.offset, dynamic_bytes};'', ''}'', '''',
         ''inline CheckResult check_dynamic(const Runtime& runtime,'',
         ''                                 uintptr_t base,'',
         ''                                 size_t dynamic_bytes,'',
         ''                                 AccessPolicy policy)'', ''{'',
         ''  return checked_dynamic_access(runtime, base, dynamic_bytes, policy).result;'',
         ''}'', '''', ''constexpr size_t kDynamicUseCount = '' @ nat_str (length dynamic_uses) @ '';'']
      else [])"

definition generate_boundary ::
    "policy \<Rightarrow> string \<Rightarrow> string \<Rightarrow> boundary \<Rightarrow> policy_error + string \<times> string \<times> string" where
  "generate_boundary policy source namespace_name boundary =
     res_bind (prepare_policy policy boundary) (\<lambda>(policy', dynamic_uses).
     res_bind (generate policy' source) (\<lambda>(instrumented, u_header, t_header).
     let t_header1 = rename_namespace namespace_name t_header;
         precise_count = length (filter (\<lambda>a. ae_site a \<noteq> None) (p_allocations policy'))
     in
     res_bind (add_helpers namespace_name (p_types policy') precise_count (bd_helper_sites boundary))
       (\<lambda>(entries, u_lines).
     res_bind (inject_before_namespace_close t_header1 namespace_name
                 (helper_site_lines entries @ dynamic_check_lines dynamic_uses)) (\<lambda>t_header2.
     Inr (instrumented, helper_u_header u_header u_lines, t_header2)))))"

end
