(* ===== verification/WasmPolicy.thy ===== *)
theory WasmPolicy
  imports GenHeaders
begin

text \<open>
  \<^verbatim>\<open>tools/generate_wasm_boundary_policy.py\<close>: numbering and naming of the allocation imports,
  the instrumented source, the two headers and the host side of the imports.
\<close>

section \<open>Names and numbers\<close>

definition max_site_id :: int where
  "max_site_id = 2 ^ 32 - 1"

definition import_stem :: "string \<Rightarrow> policy_error + string" where
  "import_stem namespace_name =
     (let value = cpp namespace_name in if value = [] then Inl Empty_namespace else Inr value)"

definition site_import_name :: "string \<Rightarrow> nat \<Rightarrow> policy_error + string" where
  "site_import_name namespace_name local_site_id =
     res_bind (import_stem namespace_name) (\<lambda>stem.
     Inr (''interspecWasmAlloc'' @ stem @ ''Site'' @ nat_str local_site_id))"

definition wasm_helper_macro :: "string \<Rightarrow> string" where
  "wasm_helper_macro name = ''INTERSPEC_SITE_'' @ macro name @ ''_ALLOC''"

definition runtime_site_id :: "int \<Rightarrow> nat \<Rightarrow> policy_error + int" where
  "runtime_site_id site_id_base local_site_id =
     (if site_id_base < 0 \<or> site_id_base > max_site_id then Inl Bad_site_base
      else (let site_id = site_id_base + int local_site_id
            in if site_id \<le> 0 \<or> site_id > max_site_id then Inl Site_id_overflow else Inr site_id))"

text \<open>\<open>prepare_policy\<close>: the extra types, as in the NaCl tool; uses are left as they are.\<close>

definition wasm_add_type :: "string \<Rightarrow> string list \<Rightarrow> policy_error + string list" where
  "wasm_add_type type_name types =
     (if type_name = [] then Inl Empty_type_name
      else if type_name \<notin> set types then Inr (types @ [type_name])
      else Inr types)"

definition wasm_prepare_policy :: "policy \<Rightarrow> boundary \<Rightarrow> policy_error + policy" where
  "wasm_prepare_policy policy boundary =
     res_bind (res_fold wasm_add_type (bd_types boundary) (p_types policy)) (\<lambda>types.
     Inr (policy\<lparr>p_types := types\<rparr>))"

section \<open>Site records\<close>

text \<open>A record of \<open>site_records\<close>; \<open>helper_name\<close> is there exactly on helper records.\<close>

record wasm_site =
  ws_site_id :: int
  ws_local_id :: nat
  ws_type :: string
  ws_import_name :: string
  ws_c_name :: string
  ws_helper_name :: "string option"

definition wasm_record :: "string \<Rightarrow> int \<Rightarrow> nat \<Rightarrow> string \<Rightarrow> string option \<Rightarrow> policy_error + wasm_site" where
  "wasm_record namespace_name site_id_base local_site_id type_name helper_name =
     res_bind (runtime_site_id site_id_base local_site_id) (\<lambda>site_id.
     res_bind (site_import_name namespace_name local_site_id) (\<lambda>import_name.
     Inr \<lparr>ws_site_id = site_id, ws_local_id = local_site_id, ws_type = type_name,
          ws_import_name = import_name, ws_c_name = site_c_name namespace_name local_site_id,
          ws_helper_name = helper_name\<rparr>))"

text \<open>The loop over the allocations; the state is the records so far (and so \<open>precise_count\<close>).\<close>

definition precise_record ::
    "string \<Rightarrow> int \<Rightarrow> alloc_entry \<Rightarrow> wasm_site list \<Rightarrow> policy_error + wasm_site list" where
  "precise_record namespace_name site_id_base allocation records =
     (if ae_site allocation = None then Inl Imprecise_site
      else res_bind (wasm_record namespace_name site_id_base (length records + 1) (ae_type allocation) None)
             (\<lambda>r. Inr (records @ [r])))"

definition helper_record ::
    "string \<Rightarrow> int \<Rightarrow> nat \<Rightarrow> nat \<times> helper_site \<Rightarrow> string list \<times> wasm_site list \<Rightarrow>
     policy_error + string list \<times> wasm_site list" where
  "helper_record namespace_name site_id_base precise_count = (\<lambda>(index, helper) (seen, records).
     if hs_name helper \<in> set seen then Inl (Duplicate_helper (hs_name helper))
     else res_bind (wasm_record namespace_name site_id_base (precise_count + index) (hs_type helper)
                      (Some (hs_name helper)))
            (\<lambda>r. Inr (hs_name helper # seen, records @ [r])))"

definition site_records ::
    "policy \<Rightarrow> boundary \<Rightarrow> string \<Rightarrow> int \<Rightarrow> policy_error + wasm_site list \<times> nat" where
  "site_records policy boundary namespace_name site_id_base =
     res_bind (res_fold (precise_record namespace_name site_id_base) (p_allocations policy) []) (\<lambda>precise.
     res_bind (res_fold (helper_record namespace_name site_id_base (length precise))
                 (enumerate 1 (bd_helper_sites boundary)) ([], precise)) (\<lambda>(_, records).
     Inr (records, length precise)))"

section \<open>The untrusted header\<close>

definition wasm_import_lines :: "wasm_site \<Rightarrow> string list" where
  \<open>wasm_import_lines r =
     [''extern uint32_t '' @ ws_c_name r @ ''(uint32_t size)'',
      ''  INTERSPEC_WASM_IMPORT("env", "'' @ ws_import_name r @ ''");''] @
     (case ws_helper_name r of
        None \<Rightarrow> []
      | Some name \<Rightarrow>
          [''#define '' @ wasm_helper_macro name @ ''(_size) '' @ [BSLASH],
           ''  '' @ ws_c_name r @ ''((uint32_t)(_size))'']) @
     ['''']\<close>

definition generate_u_header :: "string list \<Rightarrow> wasm_site list \<Rightarrow> string" where
  \<open>generate_u_header types records =
     py_join newline
      ([''#pragma once'',
        '''',
        ''#include <stdint.h>'',
        '''',
        ''#if defined(__wasm__)'',
        ''#  define INTERSPEC_WASM_IMPORT(_module, _name) '' @ [BSLASH],
        ''    __attribute__((import_module(_module), import_name(_name)))'',
        ''#else'',
        ''#  define INTERSPEC_WASM_IMPORT(_module, _name)'',
        ''#endif'',
        ''''] @
       type_id_defines (enumerate_ids types) @ [''''] @
       concat (map wasm_import_lines records) @
       [''extern uint32_t interspec_wasm_release(uint32_t ptr)'',
        ''  INTERSPEC_WASM_IMPORT("env", "interspecWasmRelease");'',
        ''extern uint32_t interspec_wasm_size(uint32_t ptr)'',
        ''  INTERSPEC_WASM_IMPORT("env", "interspecWasmSize");'',
        ''extern uint32_t interspec_wasm_reallocate(uint32_t ptr, uint32_t size)'',
        ''  INTERSPEC_WASM_IMPORT("env", "interspecWasmReallocate");'',
        ''''])\<close>

section \<open>The trusted header\<close>

definition wasm_use_lines :: "(string \<times> nat) list \<Rightarrow> use_entry \<Rightarrow> policy_error + string list" where
  "wasm_use_lines ids use =
     (if map_of ids (ue_type use) = None then Inl (Unknown_use_type (ue_type use))
      else
        (let bytes = (if ue_dynamic use then 0 else case ue_bytes use of None \<Rightarrow> 0 | Some b \<Rightarrow> b)
         in if ue_offset use < 0 \<or> bytes < 0 then Inl (Negative_access (ue_name use))
            else Inr [''constexpr AccessPolicy kUse'' @ cpp (ue_name use) @ ''{'',
                      ''  kTypeHash'' @ cpp (ue_type use) @ '', '' @ int_str (ue_offset use) @ '', '' @
                      int_str bytes @ ''};'']))"

definition wasm_site_line :: "wasm_site \<Rightarrow> string" where
  \<open>wasm_site_line r =
     ''  {'' @ int_str (ws_site_id r) @ '', kTypeId'' @ cpp (ws_type r) @ '', '' @
     ''"'' @ ws_import_name r @ ''", '' @ (if ws_helper_name r \<noteq> None then ''true'' else ''false'') @ ''},''\<close>

definition wasm_site_lines :: "wasm_site list \<Rightarrow> nat \<Rightarrow> string list" where
  "wasm_site_lines records precise_count =
     [''constexpr size_t kWasmPreciseAllocationSiteCount = '' @ nat_str precise_count @ '';'',
      ''constexpr size_t kWasmHelperAllocationSiteCount = '' @
        int_str (int (length records) - int precise_count) @ '';'',
      ''constexpr size_t kWasmAllocationSiteCount = '' @ nat_str (length records) @ '';''] @
     (if records \<noteq> [] then
        [''constexpr WasmAllocationSitePolicy kWasmAllocationSites[] = {''] @
        map wasm_site_line records @ [''};'', '''']
      else []) @
     [''inline bool register_wasm_allocation_policy(Runtime& runtime)'',
      ''{''] @
     (if records \<noteq> [] then
        [''  for (const auto& site : kWasmAllocationSites) {'',
         ''    if (!runtime.register_allocation_site_id(site.site_id, site.type_id))'',
         ''      return false;'',
         ''  }'']
      else []) @
     [''  return true;'', ''}'', '''']"

definition wasm_t_prelude :: "string \<Rightarrow> string list" where
  \<open>wasm_t_prelude namespace_name =
     [''#pragma once'',
      '''',
      ''#include "interspec/runtime.h"'',
      ''#include <limits>'',
      '''',
      ''namespace '' @ namespace_name @ '' {'',
      '''',
      ''struct AccessPolicy {'',
      ''  uint64_t type_hash;'',
      ''  size_t offset;'',
      ''  size_t bytes;'',
      ''};'',
      '''',
      ''struct WasmAllocationSitePolicy {'',
      ''  SiteId site_id;'',
      ''  TypeId type_id;'',
      ''  const char* import_name;'',
      ''  bool helper;'',
      ''};'',
      '''']\<close>

definition wasm_check_lines :: "string \<Rightarrow> string list" where
  "wasm_check_lines namespace_name =
     ['''',
      ''inline CheckResult check(const Runtime& runtime, uintptr_t base,'',
      ''                         size_t dynamic_bytes, AccessPolicy policy)'',
      ''{'',
      ''  const size_t bytes = policy.bytes ? policy.bytes : dynamic_bytes;'',
      ''  if (policy.offset > std::numeric_limits<size_t>::max() - bytes)'',
      ''    return CheckResult::out_of_bounds;'',
      ''  return runtime.check(base, policy.offset + bytes, policy.type_hash);'',
      ''}'',
      '''',
      ''}  // namespace '' @ namespace_name,
      '''']"

definition generate_t_header ::
    "policy \<Rightarrow> wasm_site list \<Rightarrow> nat \<Rightarrow> string \<Rightarrow> int \<Rightarrow> policy_error + string" where
  "generate_t_header policy records precise_count namespace_name site_id_base =
     (let ids = enumerate_ids (p_types policy) in
      res_bind (check_hashes ids) (\<lambda>_.
      res_bind (res_map (wasm_use_lines ids) (p_uses policy)) (\<lambda>uses.
      Inr (py_join newline
        (wasm_t_prelude namespace_name @
         type_constant_lines ids @
         ['''', ''constexpr SiteId kWasmSiteIdBase = UINT32_C('' @ int_str site_id_base @ '');''] @
         register_types_lines ids @
         wasm_site_lines records precise_count @
         concat uses @
         wasm_check_lines namespace_name)))))"

section \<open>The host side of the imports\<close>

definition host_import_lines :: "wasm_site \<Rightarrow> string list" where
  "host_import_lines r =
     [''uint32_t w2c_env_'' @ ws_import_name r @ ''(struct w2c_env* env, uint32_t size)'',
      ''{'',
      ''  if (!env || !env->interspec_allocate) return 0;'',
      ''  return env->interspec_allocate(env->interspec_context, UINT32_C('' @ int_str (ws_site_id r) @ ''), size);'',
      ''}'',
      '''']"

definition generate_host_imports :: "wasm_site list \<Rightarrow> string" where
  \<open>generate_host_imports records =
     py_join newline
      ([''#include "wasm2c_rt_mem.h"'',
        '''',
        ''#include <stdint.h>'',
        ''''] @
       concat (map host_import_lines records) @
       [''uint32_t w2c_env_interspecWasmRelease(struct w2c_env* env, uint32_t ptr)'',
        ''{'',
        ''  if (!env || !env->interspec_release) return 0;'',
        ''  return env->interspec_release(env->interspec_context, ptr);'',
        ''}'',
        '''',
        ''uint32_t w2c_env_interspecWasmSize(struct w2c_env* env, uint32_t ptr)'',
        ''{'',
        ''  if (!env || !env->interspec_size) return 0;'',
        ''  return env->interspec_size(env->interspec_context, ptr);'',
        ''}'',
        '''',
        ''uint32_t w2c_env_interspecWasmReallocate(struct w2c_env* env, uint32_t ptr, uint32_t size)'',
        ''{'',
        ''  if (!env || !env->interspec_reallocate) return 0;'',
        ''  return env->interspec_reallocate(env->interspec_context, ptr, size);'',
        ''}'',
        ''''])\<close>

section \<open>The generator\<close>

definition check_known :: "string list \<Rightarrow> (string \<Rightarrow> policy_error) \<Rightarrow> string \<Rightarrow> policy_error option" where
  "check_known types err type_name = (if type_name \<notin> set types then Some (err type_name) else None)"

definition wasm_instrument_source :: "string \<Rightarrow> alloc_entry list \<Rightarrow> string \<Rightarrow> policy_error + string" where
  "wasm_instrument_source namespace_name allocations source =
     res_fold (\<lambda>(local_site_id, a) s. wasm_instrument_site s a local_site_id namespace_name)
       (sort_reverse (\<lambda>(_, a). site_key a) (enumerate 1 allocations)) source"

definition generate_wasm_boundary ::
    "policy \<Rightarrow> string \<Rightarrow> string \<Rightarrow> boundary \<Rightarrow> int \<Rightarrow>
     policy_error + string \<times> string \<times> string \<times> string" where
  "generate_wasm_boundary policy source namespace_name boundary site_id_base =
     res_bind (wasm_prepare_policy policy boundary) (\<lambda>policy'.
     res_bind (res_check (\<lambda>a. check_known (p_types policy') Unknown_allocation_type (ae_type a))
                 (p_allocations policy')) (\<lambda>_.
     res_bind (res_check (\<lambda>h. check_known (p_types policy') Unknown_helper_type (hs_type h))
                 (bd_helper_sites boundary)) (\<lambda>_.
     res_bind (site_records policy' boundary namespace_name site_id_base) (\<lambda>(records, precise_count).
     res_bind (wasm_instrument_source namespace_name (p_allocations policy') source) (\<lambda>instrumented.
     res_bind (generate_t_header policy' records precise_count namespace_name site_id_base) (\<lambda>t_header.
     Inr (instrumented, generate_u_header (p_types policy') records, t_header,
          generate_host_imports records)))))))"

end
