(* ===== verification/OrdMap.thy ===== *)
theory OrdMap
  imports Prelude
begin

text \<open>
  The two associative containers of the C++ runtime.  \<open>std::map\<close> is a list of entries
  kept in ascending key order; an iterator is a position in it, \<open>end()\<close> is its length.
  \<open>std::unordered_map\<close> is an association list with one entry per key.  The locale
  \<open>ordered_map\<close> states what the runtime relies on, the locale \<open>interval_index\<close> what it
  builds from \<open>upper_bound\<close> on entries that are disjoint intervals.
\<close>

section \<open>std::map as a sorted association list\<close>

text \<open>\<open>find\<close>: the value at a key.\<close>

definition om_find :: "('k \<times> 'v) list \<Rightarrow> 'k \<Rightarrow> 'v option" where
  "om_find m k = map_of m k"

text \<open>\<open>emplace\<close>: inserts unless the key is present; the flag says whether it did.\<close>

fun om_emplace :: "'k::linorder \<Rightarrow> 'v \<Rightarrow> ('k \<times> 'v) list \<Rightarrow> ('k \<times> 'v) list \<times> bool" where
  "om_emplace k v [] = ([(k, v)], True)"
| "om_emplace k v ((a, b) # m) =
     (if k < a then ((k, v) # (a, b) # m, True)
      else if k = a then ((a, b) # m, False)
      else (let (m', ins) = om_emplace k v m in ((a, b) # m', ins)))"

text \<open>\<open>erase\<close> by key.\<close>

fun om_erase :: "'k::linorder \<Rightarrow> ('k \<times> 'v) list \<Rightarrow> ('k \<times> 'v) list" where
  "om_erase k [] = []"
| "om_erase k ((a, b) # m) = (if k = a then m else (a, b) # om_erase k m)"

text \<open>\<open>lower_bound\<close> (first key not below \<open>k\<close>) and \<open>upper_bound\<close> (first key above).\<close>

definition om_lower_bound :: "'k::linorder \<Rightarrow> ('k \<times> 'v) list \<Rightarrow> nat" where
  "om_lower_bound k m = length (takeWhile (\<lambda>e. fst e < k) m)"

definition om_upper_bound :: "'k::linorder \<Rightarrow> ('k \<times> 'v) list \<Rightarrow> nat" where
  "om_upper_bound k m = length (takeWhile (\<lambda>e. fst e \<le> k) m)"

definition om_sorted :: "('k::linorder \<times> 'v) list \<Rightarrow> bool" where
  "om_sorted m \<longleftrightarrow> sorted_wrt (<) (map fst m)"

lemma om_sorted_simps [simp]:
  "om_sorted []"
  "om_sorted ((a, b) # m) \<longleftrightarrow> (\<forall>e \<in> set m. a < fst e) \<and> om_sorted m"
  by (auto simp: om_sorted_def)

lemma om_sorted_distinct: "om_sorted m \<Longrightarrow> distinct (map fst m)"
  by (simp add: om_sorted_def strict_sorted_iff)

lemma om_find_Nil [simp]: "om_find [] = (\<lambda>_. None)"
  by (simp add: om_find_def fun_eq_iff)

lemma om_find_set: "om_sorted m \<Longrightarrow> om_find m k = Some v \<longleftrightarrow> (k, v) \<in> set m"
  by (simp add: om_find_def om_sorted_distinct)

lemma om_find_None: "om_find m k = None \<longleftrightarrow> k \<notin> fst ` set m"
  by (simp add: om_find_def map_of_eq_None_iff)

lemma om_emplace_fst:
  "fst ` set (fst (om_emplace k v m)) = insert k (fst ` set m)"
proof (induction k v m rule: om_emplace.induct)
  case (2 k v a b m)
  then show ?case
    by (cases "om_emplace k v m") (simp add: insert_commute insert_absorb)
qed simp

lemma om_emplace_sorted: "om_sorted m \<Longrightarrow> om_sorted (fst (om_emplace k v m))"
proof (induction k v m rule: om_emplace.induct)
  case (2 k v a b m)
  have "\<And>e. e \<in> set (fst (om_emplace k v m)) \<Longrightarrow> fst e \<in> insert k (fst ` set m)"
    using om_emplace_fst [of k v m] by blast
  then show ?case using 2 by (auto split: prod.splits) fastforce+
qed simp

lemma om_emplace_new:
  assumes "om_sorted m" and "om_find m k = None"
  shows "snd (om_emplace k v m)" and "om_find (fst (om_emplace k v m)) = (om_find m)(k \<mapsto> v)"
proof -
  have "snd (om_emplace k v m) \<and> map_of (fst (om_emplace k v m)) = (map_of m)(k \<mapsto> v)"
    using assms unfolding om_find_def
  proof (induction k v m rule: om_emplace.induct)
    case (2 k v a b m)
    then show ?case by (auto split: prod.splits if_splits simp: fun_eq_iff)
  qed simp
  then show "snd (om_emplace k v m)"
    and "om_find (fst (om_emplace k v m)) = (om_find m)(k \<mapsto> v)"
    by (simp_all add: om_find_def fun_eq_iff)
qed

lemma om_emplace_length:
  "om_sorted m \<Longrightarrow> om_find m k = None \<Longrightarrow> length (fst (om_emplace k v m)) = Suc (length m)"
  by (induction k v m rule: om_emplace.induct)
     (auto split: prod.splits if_splits simp: om_find_def)

lemma om_erase_subset: "set (om_erase k m) \<subseteq> set m"
  by (induction k m rule: om_erase.induct) auto

lemma om_erase_sorted: "om_sorted m \<Longrightarrow> om_sorted (om_erase k m)"
proof (induction k m rule: om_erase.induct)
  case (2 k a b m)
  then show ?case using om_erase_subset [of k m] by auto
qed simp

lemma om_erase_find:
  assumes "om_sorted m"
  shows "om_find (om_erase k m) = (om_find m)(k := None)"
  using assms
proof (induction k m rule: om_erase.induct)
  case (1 k)
  then show ?case by (simp add: om_find_def fun_eq_iff)
next
  case (2 k a b m)
  then have "k = a \<Longrightarrow> map_of m k = None" by (auto simp: map_of_eq_None_iff)
  with 2 show ?case by (auto simp: om_find_def fun_eq_iff)
qed

section \<open>Neighbours of a key\<close>

text \<open>
  The idiom \<open>it = upper_bound(k); if (it == begin()) none; --it\<close>: the entry with the
  greatest key not above \<open>k\<close>; and \<open>lower_bound(k)\<close> dereferenced when it is not the end.
\<close>

definition om_prev_upper :: "'k::linorder \<Rightarrow> ('k \<times> 'v) list \<Rightarrow> ('k \<times> 'v) option" where
  "om_prev_upper k m =
     (let it = om_upper_bound k m in if it = 0 then None else Some (m ! (it - 1)))"

definition om_prev_lower :: "'k::linorder \<Rightarrow> ('k \<times> 'v) list \<Rightarrow> ('k \<times> 'v) option" where
  "om_prev_lower k m =
     (let it = om_lower_bound k m in if it = 0 then None else Some (m ! (it - 1)))"

definition om_at_lower :: "'k::linorder \<Rightarrow> ('k \<times> 'v) list \<Rightarrow> ('k \<times> 'v) option" where
  "om_at_lower k m =
     (let it = om_lower_bound k m in if it = length m then None else Some (m ! it))"

lemma takeWhile_last_nth:
  "takeWhile P m \<noteq> [] \<Longrightarrow> m ! (length (takeWhile P m) - 1) = last (takeWhile P m)"
  by (simp add: last_conv_nth takeWhile_nth)

lemma om_prev_upper_last:
  "om_prev_upper k m =
     (let p = takeWhile (\<lambda>e. fst e \<le> k) m in if p = [] then None else Some (last p))"
  using takeWhile_last_nth [of "\<lambda>e. fst e \<le> k" m]
  by (simp add: om_prev_upper_def om_upper_bound_def Let_def)

lemma om_prev_upper_Nil [simp]: "om_prev_upper k [] = None"
  by (simp add: om_prev_upper_def om_upper_bound_def)

lemma om_prev_lower_last:
  "om_prev_lower k m =
     (let p = takeWhile (\<lambda>e. fst e < k) m in if p = [] then None else Some (last p))"
  using takeWhile_last_nth [of "\<lambda>e. fst e < k" m]
  by (simp add: om_prev_lower_def om_lower_bound_def Let_def)

lemma om_at_lower_hd:
  "om_at_lower k m =
     (let p = dropWhile (\<lambda>e. fst e < k) m in if p = [] then None else Some (hd p))"
proof -
  have "length (takeWhile (\<lambda>e. fst e < k) m) = length m \<longleftrightarrow> dropWhile (\<lambda>e. fst e < k) m = []"
    by (metis append.right_neutral dropWhile_eq_Nil_conv takeWhile_dropWhile_id
        append_eq_conv_conj length_append length_0_conv add_cancel_left_right)
  then show ?thesis
    by (auto simp: om_at_lower_def om_lower_bound_def Let_def hd_dropWhile
        dropWhile_eq_drop hd_drop_conv_nth length_takeWhile_le le_neq_implies_less)
qed

lemma om_sorted_takeWhile_le:
  "om_sorted m \<Longrightarrow> e \<in> set m \<Longrightarrow> fst e \<le> k \<Longrightarrow> e \<in> set (takeWhile (\<lambda>e. fst e \<le> k) m)"
  by (induction m) (auto, fastforce)

lemma om_sorted_takeWhile_less:
  "om_sorted m \<Longrightarrow> e \<in> set m \<Longrightarrow> fst e < k \<Longrightarrow> e \<in> set (takeWhile (\<lambda>e. fst e < k) m)"
  by (induction m) (auto, fastforce)

lemma om_sorted_last_max:
  "om_sorted m \<Longrightarrow> e \<in> set m \<Longrightarrow> fst e \<le> fst (last m)"
  by (induction m) (auto simp: less_imp_le)

lemma om_sorted_take: "om_sorted m \<Longrightarrow> om_sorted (takeWhile P m)"
  by (simp add: om_sorted_def) (metis sorted_wrt_append map_append takeWhile_dropWhile_id)

lemma om_prev_upper_None:
  "om_sorted m \<Longrightarrow> om_prev_upper k m = None \<longleftrightarrow> (\<forall>e \<in> set m. k < fst e)"
proof -
  assume s: "om_sorted m"
  have "takeWhile (\<lambda>e. fst e \<le> k) m = [] \<longleftrightarrow> (\<forall>e \<in> set m. k < fst e)"
    using om_sorted_takeWhile_le [OF s] set_takeWhileD
    by (metis (no_types, lifting) last_in_set list.set_sel(1) not_less takeWhile_eq_Nil_iff list.set_cases empty_iff list.set(1))
  then show ?thesis by (simp add: om_prev_upper_last Let_def)
qed

lemma om_prev_upper_Some:
  assumes s: "om_sorted m" and p: "om_prev_upper k m = Some (a, v)"
  shows "om_find m a = Some v" and "a \<le> k"
    and "\<forall>e \<in> set m. fst e \<le> k \<longrightarrow> fst e \<le> a"
proof -
  let ?p = "takeWhile (\<lambda>e. fst e \<le> k) m"
  from p have ne: "?p \<noteq> []" and l: "last ?p = (a, v)"
    by (auto simp: om_prev_upper_last Let_def split: if_splits)
  then have "(a, v) \<in> set ?p" using last_in_set by metis
  then show "om_find m a = Some v" and "a \<le> k" using s
    by (auto simp: om_find_set dest: set_takeWhileD)
  show "\<forall>e \<in> set m. fst e \<le> k \<longrightarrow> fst e \<le> a"
    using om_sorted_last_max [OF om_sorted_take [OF s]] om_sorted_takeWhile_le [OF s] l
    by (metis fst_conv)
qed

lemma om_prev_lower_None:
  "om_sorted m \<Longrightarrow> om_prev_lower k m = None \<longleftrightarrow> (\<forall>e \<in> set m. k \<le> fst e)"
proof -
  assume s: "om_sorted m"
  have "takeWhile (\<lambda>e. fst e < k) m = [] \<longleftrightarrow> (\<forall>e \<in> set m. k \<le> fst e)"
    using om_sorted_takeWhile_less [OF s] set_takeWhileD
    by (metis (no_types, lifting) last_in_set list.set_sel(1) not_less takeWhile_eq_Nil_iff list.set_cases empty_iff list.set(1))
  then show ?thesis by (simp add: om_prev_lower_last Let_def)
qed

lemma om_prev_lower_Some:
  assumes s: "om_sorted m" and p: "om_prev_lower k m = Some (a, v)"
  shows "om_find m a = Some v" and "a < k"
    and "\<forall>e \<in> set m. fst e < k \<longrightarrow> fst e \<le> a"
proof -
  let ?p = "takeWhile (\<lambda>e. fst e < k) m"
  from p have ne: "?p \<noteq> []" and l: "last ?p = (a, v)"
    by (auto simp: om_prev_lower_last Let_def split: if_splits)
  then have "(a, v) \<in> set ?p" using last_in_set by metis
  then show "om_find m a = Some v" and "a < k" using s
    by (auto simp: om_find_set dest: set_takeWhileD)
  show "\<forall>e \<in> set m. fst e < k \<longrightarrow> fst e \<le> a"
    using om_sorted_last_max [OF om_sorted_take [OF s]] om_sorted_takeWhile_less [OF s] l
    by (metis fst_conv)
qed

lemma om_sorted_dropWhile_hd:
  "om_sorted m \<Longrightarrow> dropWhile P m \<noteq> [] \<Longrightarrow> e \<in> set (dropWhile P m) \<Longrightarrow>
     fst (hd (dropWhile P m)) \<le> fst e"
  by (induction m) (auto simp: less_imp_le split: if_splits)

lemma om_at_lower_None:
  "om_at_lower k m = None \<longleftrightarrow> (\<forall>e \<in> set m. fst e < k)"
  by (auto simp: om_at_lower_hd Let_def dropWhile_eq_Nil_conv)

lemma om_at_lower_Some:
  assumes s: "om_sorted m" and p: "om_at_lower k m = Some (a, v)"
  shows "om_find m a = Some v" and "k \<le> a"
    and "\<forall>e \<in> set m. k \<le> fst e \<longrightarrow> a \<le> fst e"
proof -
  let ?p = "dropWhile (\<lambda>e. fst e < k) m"
  from p have ne: "?p \<noteq> []" and l: "hd ?p = (a, v)"
    by (auto simp: om_at_lower_hd Let_def split: if_splits)
  then have "(a, v) \<in> set ?p" using list.set_sel(1) by metis
  then show "om_find m a = Some v" using s by (auto simp: om_find_set dest: set_dropWhileD)
  show "k \<le> a" using hd_dropWhile [OF ne] l by (simp add: not_less)
  show "\<forall>e \<in> set m. k \<le> fst e \<longrightarrow> a \<le> fst e"
  proof (intro ballI impI)
    fix e assume e: "e \<in> set m" "k \<le> fst e"
    then have "e \<in> set ?p"
      by (metis (no_types, lifting) Un_iff leD set_append set_takeWhileD takeWhile_dropWhile_id)
    then show "a \<le> fst e" using om_sorted_dropWhile_hd [OF s ne] l by (metis fst_conv)
  qed
qed

section \<open>The interfaces the runtime relies on\<close>

text \<open>
  A map with ordered keys: what \<open>find\<close> returns after \<open>emplace\<close> and \<open>erase\<close>, and
  which neighbour the two bound idioms select.
\<close>

locale ordered_map =
  fixes find :: "'m \<Rightarrow> 'k::linorder \<Rightarrow> 'v option"
    and emplace :: "'k \<Rightarrow> 'v \<Rightarrow> 'm \<Rightarrow> 'm \<times> bool"
    and erase :: "'k \<Rightarrow> 'm \<Rightarrow> 'm"
    and prev_upper :: "'k \<Rightarrow> 'm \<Rightarrow> ('k \<times> 'v) option"
    and prev_lower :: "'k \<Rightarrow> 'm \<Rightarrow> ('k \<times> 'v) option"
    and at_lower :: "'k \<Rightarrow> 'm \<Rightarrow> ('k \<times> 'v) option"
    and invar :: "'m \<Rightarrow> bool"
  assumes emplace_invar: "invar m \<Longrightarrow> invar (fst (emplace k v m))"
    and emplace_new: "invar m \<Longrightarrow> find m k = None \<Longrightarrow> snd (emplace k v m)"
    and emplace_find:
      "invar m \<Longrightarrow> find m k = None \<Longrightarrow> find (fst (emplace k v m)) = (find m)(k \<mapsto> v)"
    and erase_invar: "invar m \<Longrightarrow> invar (erase k m)"
    and erase_find: "invar m \<Longrightarrow> find (erase k m) = (find m)(k := None)"
    and prev_upper_None:
      "invar m \<Longrightarrow> prev_upper k m = None \<Longrightarrow> find m a = Some v \<Longrightarrow> k < a"
    and prev_upper_Some:
      "invar m \<Longrightarrow> prev_upper k m = Some (a, v) \<Longrightarrow> find m a = Some v \<and> a \<le> k"
    and prev_upper_greatest:
      "invar m \<Longrightarrow> prev_upper k m = Some (a, v) \<Longrightarrow> find m b = Some w \<Longrightarrow> b \<le> k \<Longrightarrow> b \<le> a"
    and prev_lower_None:
      "invar m \<Longrightarrow> prev_lower k m = None \<Longrightarrow> find m a = Some v \<Longrightarrow> k \<le> a"
    and prev_lower_Some:
      "invar m \<Longrightarrow> prev_lower k m = Some (a, v) \<Longrightarrow> find m a = Some v \<and> a < k"
    and prev_lower_greatest:
      "invar m \<Longrightarrow> prev_lower k m = Some (a, v) \<Longrightarrow> find m b = Some w \<Longrightarrow> b < k \<Longrightarrow> b \<le> a"
    and at_lower_None:
      "invar m \<Longrightarrow> at_lower k m = None \<Longrightarrow> find m a = Some v \<Longrightarrow> a < k"
    and at_lower_Some:
      "invar m \<Longrightarrow> at_lower k m = Some (a, v) \<Longrightarrow> find m a = Some v \<and> k \<le> a"
    and at_lower_least:
      "invar m \<Longrightarrow> at_lower k m = Some (a, v) \<Longrightarrow> find m b = Some w \<Longrightarrow> k \<le> b \<Longrightarrow> a \<le> b"

text \<open>
  Entries read as half-open intervals from the position of the key to the limit of the
  value, pairwise disjoint.
\<close>

definition intervals_disjoint ::
    "('k::linorder \<Rightarrow> 'v option) \<Rightarrow> ('k \<Rightarrow> nat) \<Rightarrow> ('v \<Rightarrow> nat) \<Rightarrow> bool" where
  "intervals_disjoint f pos lim \<longleftrightarrow>
     (\<forall>a v. f a = Some v \<longrightarrow> pos a < lim v) \<and>
     (\<forall>a b v w. f a = Some v \<longrightarrow> f b = Some w \<longrightarrow> a < b \<longrightarrow> lim v \<le> pos b)"

lemma intervals_disjoint_empty [simp]: "intervals_disjoint (\<lambda>_. None) pos lim"
  by (simp add: intervals_disjoint_def)

lemma intervals_disjointD:
  "intervals_disjoint f pos lim \<Longrightarrow> f a = Some v \<Longrightarrow> f b = Some w \<Longrightarrow> a < b \<Longrightarrow> lim v \<le> pos b"
  unfolding intervals_disjoint_def by blast

lemma intervals_disjoint_erase:
  "intervals_disjoint f pos lim \<Longrightarrow> intervals_disjoint (f(k := None)) pos lim"
  unfolding intervals_disjoint_def by (auto split: if_splits)

lemma intervals_disjoint_insert:
  assumes "intervals_disjoint f pos lim" and "pos b < lim v"
    and "\<And>a w. f a = Some w \<Longrightarrow> a < b \<Longrightarrow> lim w \<le> pos b"
    and "\<And>a w. f a = Some w \<Longrightarrow> b < a \<Longrightarrow> lim v \<le> pos a"
  shows "intervals_disjoint (f(b \<mapsto> v)) pos lim"
  using assms unfolding intervals_disjoint_def by (auto split: if_splits)

text \<open>
  An index of disjoint intervals: stabbing queries through \<open>prev_upper\<close>, and the
  neighbour test that decides whether a new interval may be inserted.
\<close>

locale interval_index =
  ordered_map find emplace erase prev_upper prev_lower at_lower invar
  for find :: "'m \<Rightarrow> 'k::linorder \<Rightarrow> 'v option"
    and emplace :: "'k \<Rightarrow> 'v \<Rightarrow> 'm \<Rightarrow> 'm \<times> bool"
    and erase :: "'k \<Rightarrow> 'm \<Rightarrow> 'm"
    and prev_upper :: "'k \<Rightarrow> 'm \<Rightarrow> ('k \<times> 'v) option"
    and prev_lower :: "'k \<Rightarrow> 'm \<Rightarrow> ('k \<times> 'v) option"
    and at_lower :: "'k \<Rightarrow> 'm \<Rightarrow> ('k \<times> 'v) option"
    and invar :: "'m \<Rightarrow> bool" +
  fixes pos :: "'k \<Rightarrow> nat" and lim :: "'v \<Rightarrow> nat"
  assumes pos_less: "a < b \<longleftrightarrow> pos a < pos b"
begin

lemma pos_le: "a \<le> b \<longleftrightarrow> pos a \<le> pos b"
  using pos_less [of b a] by (simp add: not_less [symmetric])

lemma stab_unique:
  assumes "intervals_disjoint (find m) pos lim"
    and "find m a = Some v" and "pos a \<le> x" and "x < lim v"
    and "find m b = Some w" and "pos b \<le> x" and "x < lim w"
  shows "a = b"
proof (rule ccontr)
  assume "a \<noteq> b"
  then consider "a < b" | "b < a" by fastforce
  then show False
    using assms unfolding intervals_disjoint_def
    by cases (metis leD le_trans le_less_trans)+
qed

lemma stab_prev_upper:
  assumes inv: "invar m" and dis: "intervals_disjoint (find m) pos lim"
  shows "prev_upper p m = Some (a, v) \<and> pos p < lim v \<longleftrightarrow>
         find m a = Some v \<and> a \<le> p \<and> pos p < lim v"
proof
  assume "prev_upper p m = Some (a, v) \<and> pos p < lim v"
  then show "find m a = Some v \<and> a \<le> p \<and> pos p < lim v"
    using prev_upper_Some [OF inv] by auto
next
  assume h: "find m a = Some v \<and> a \<le> p \<and> pos p < lim v"
  then obtain b w where bw: "prev_upper p m = Some (b, w)"
    using prev_upper_None [OF inv, of p a v] by (cases "prev_upper p m") auto
  then have fb: "find m b = Some w" "b \<le> p" and ab: "a \<le> b"
    using prev_upper_Some [OF inv] prev_upper_greatest [OF inv bw] h by auto
  have "a = b"
  proof (rule ccontr)
    assume "a \<noteq> b"
    with ab have "lim v \<le> pos b"
      using dis h fb(1) unfolding intervals_disjoint_def by force
    with fb(2) h show False by (simp add: pos_le)
  qed
  with fb h bw show "prev_upper p m = Some (a, v) \<and> pos p < lim v" by simp
qed

lemma neighbours_clear:
  assumes inv: "invar m" and dis: "intervals_disjoint (find m) pos lim"
    and new: "pos b < lim v"
    and nxt: "\<And>c w. at_lower b m = Some (c, w) \<Longrightarrow> lim v \<le> pos c"
    and prv: "\<And>c w. prev_lower b m = Some (c, w) \<Longrightarrow> lim w \<le> pos b"
  shows "find m b = None" and "intervals_disjoint ((find m)(b \<mapsto> v)) pos lim"
proof -
  have above: "lim v \<le> pos a" if "find m a = Some w" "b \<le> a" for a w
  proof (cases "at_lower b m")
    case None
    then show ?thesis using at_lower_None [OF inv None that(1)] that(2) by simp
  next
    case (Some e)
    then obtain c x where c: "at_lower b m = Some (c, x)" by (cases e) auto
    have "c \<le> a" using at_lower_least [OF inv c that] .
    with nxt [OF c] show ?thesis by (simp add: pos_le)
  qed
  have below: "lim w \<le> pos b" if aw: "find m a = Some w" "a < b" for a w
  proof (cases "prev_lower b m")
    case None
    then show ?thesis using prev_lower_None [OF inv None aw(1)] aw(2) by simp
  next
    case (Some e)
    then obtain c x where c: "prev_lower b m = Some (c, x)" by (cases e) auto
    have "a \<le> c" using prev_lower_greatest [OF inv c aw] .
    have cx: "find m c = Some x" "c < b" using prev_lower_Some [OF inv c] by auto
    show ?thesis
    proof (cases "a = c")
      case True
      with aw cx prv [OF c] show ?thesis by simp
    next
      case False
      with \<open>a \<le> c\<close> have "lim w \<le> pos c"
        using dis aw(1) cx(1) unfolding intervals_disjoint_def by force
      with cx(2) show ?thesis by (simp add: pos_less)
    qed
  qed
  show "find m b = None"
    using above [of b] new by (cases "find m b") fastforce+
  show "intervals_disjoint ((find m)(b \<mapsto> v)) pos lim"
    using intervals_disjoint_insert [OF dis new] above below by (meson less_imp_le)
qed

lemma neighbours_blocked:
  assumes inv: "invar m" and dis: "intervals_disjoint (find m) pos lim"
    and new: "pos b < lim v"
    and blocked: "(\<exists>c w. at_lower b m = Some (c, w) \<and> pos c < lim v) \<or>
                  (\<exists>c w. prev_lower b m = Some (c, w) \<and> pos b < lim w)"
  shows "\<exists>c w. find m c = Some w \<and> pos c < lim v \<and> pos b < lim w"
  using blocked
proof
  assume "\<exists>c w. at_lower b m = Some (c, w) \<and> pos c < lim v"
  then obtain c w where "find m c = Some w" "b \<le> c" "pos c < lim v"
    using at_lower_Some [OF inv] by blast
  moreover have "pos c < lim w"
    using dis calculation(1) unfolding intervals_disjoint_def by blast
  ultimately show ?thesis using pos_le by (meson le_less_trans)
next
  assume "\<exists>c w. prev_lower b m = Some (c, w) \<and> pos b < lim w"
  then obtain c w where "find m c = Some w" "c < b" "pos b < lim w"
    using prev_lower_Some [OF inv] by blast
  with new show ?thesis using pos_less by (meson less_trans)
qed

end

interpretation om: ordered_map om_find om_emplace om_erase om_prev_upper om_prev_lower
  om_at_lower om_sorted
proof unfold_locales
  fix m :: "('a \<times> 'b) list" and k a b v w
  assume s: "om_sorted m"
  show "om_sorted (fst (om_emplace k v m))" by (rule om_emplace_sorted [OF s])
  show "om_sorted (om_erase k m)" by (rule om_erase_sorted [OF s])
  show "om_find (om_erase k m) = (om_find m)(k := None)" by (rule om_erase_find [OF s])
  show "om_prev_upper k m = None \<Longrightarrow> om_find m a = Some v \<Longrightarrow> k < a"
    using s by (auto simp: om_prev_upper_None om_find_set)
  show "om_prev_upper k m = Some (a, v) \<Longrightarrow> om_find m a = Some v \<and> a \<le> k"
    using om_prev_upper_Some [OF s] by blast
  show "om_prev_upper k m = Some (a, v) \<Longrightarrow> om_find m b = Some w \<Longrightarrow> b \<le> k \<Longrightarrow> b \<le> a"
    using om_prev_upper_Some [OF s] s by (fastforce simp: om_find_set)
  show "om_prev_lower k m = None \<Longrightarrow> om_find m a = Some v \<Longrightarrow> k \<le> a"
    using s by (auto simp: om_prev_lower_None om_find_set)
  show "om_prev_lower k m = Some (a, v) \<Longrightarrow> om_find m a = Some v \<and> a < k"
    using om_prev_lower_Some [OF s] by blast
  show "om_prev_lower k m = Some (a, v) \<Longrightarrow> om_find m b = Some w \<Longrightarrow> b < k \<Longrightarrow> b \<le> a"
    using om_prev_lower_Some [OF s] s by (fastforce simp: om_find_set)
  show "om_at_lower k m = None \<Longrightarrow> om_find m a = Some v \<Longrightarrow> a < k"
    using s by (auto simp: om_at_lower_None om_find_set)
  show "om_at_lower k m = Some (a, v) \<Longrightarrow> om_find m a = Some v \<and> k \<le> a"
    using om_at_lower_Some [OF s] by blast
  show "om_at_lower k m = Some (a, v) \<Longrightarrow> om_find m b = Some w \<Longrightarrow> k \<le> b \<Longrightarrow> a \<le> b"
    using om_at_lower_Some [OF s] s by (fastforce simp: om_find_set)
qed (simp_all add: om_emplace_new)

section \<open>std::unordered_map as an association list\<close>

definition um_find :: "('k \<times> 'v) list \<Rightarrow> 'k \<Rightarrow> 'v option" where
  "um_find m k = map_of m k"

definition um_emplace :: "'k \<Rightarrow> 'v \<Rightarrow> ('k \<times> 'v) list \<Rightarrow> ('k \<times> 'v) list" where
  "um_emplace k v m = (if um_find m k = None then (k, v) # m else m)"

definition um_size :: "('k \<times> 'v) list \<Rightarrow> nat" where
  "um_size m = length m"

definition um_distinct :: "('k \<times> 'v) list \<Rightarrow> bool" where
  "um_distinct m \<longleftrightarrow> distinct (map fst m)"

lemma um_find_eq: "um_find m = map_of m"
  by (simp add: um_find_def fun_eq_iff)

lemma um_find_Nil [simp]: "um_find [] = (\<lambda>_. None)"
  by (simp add: um_find_def fun_eq_iff)

lemma um_find_emplace [simp]:
  "um_find m k = None \<Longrightarrow> um_find (um_emplace k v m) = (um_find m)(k \<mapsto> v)"
  by (auto simp: um_emplace_def um_find_def fun_eq_iff)

lemma um_emplace_distinct: "um_distinct m \<Longrightarrow> um_distinct (um_emplace k v m)"
  by (auto simp: um_distinct_def um_emplace_def um_find_def map_of_eq_None_iff)

lemma um_size_card: "um_distinct m \<Longrightarrow> um_size m = card (dom (um_find m))"
  using distinct_card [of "map fst m"]
  by (simp add: um_distinct_def um_size_def um_find_eq dom_map_of_conv_image_fst)

end
