(* ===== verification/Runtime.thy ===== *)
theory Runtime
  imports OrdMap
begin

text \<open>
  The trusted runtime of \<^verbatim>\<open>include/interspec/runtime.h\<close>: class \<open>Runtime\<close>, its
  metadata tables and every operation on them.  \<open>uintptr_t\<close>, \<open>size_t\<close> and
  \<open>uint64_t\<close> are 64-bit words, \<open>TypeId\<close> and \<open>SiteId\<close> 32-bit words.  Every public
  operation holds the class's mutex for its whole body, so an operation is one state
  transition: it takes the state and returns its result and the next state.
\<close>

unbundle bit_operations_syntax

section \<open>State\<close>

record allocation =
  al_base :: u64
  al_size :: u64
  al_type_hash :: u64
  al_site_id :: u32

record allocation_site =
  as_id :: u32
  as_begin :: u64
  as_end :: u64
  as_type_id :: u32
  as_type_hash :: u64

datatype check_result = Check_ok | Untracked | Wrong_type | Out_of_bounds

record runtime =
  rt_base :: u64
  rt_capacity :: u64
  rt_arena_valid :: bool
  rt_used :: u64
  rt_types :: "(u32 \<times> u64) list"
  rt_type_ids :: "(u64 \<times> u32) list"
  rt_sites :: "(u64 \<times> allocation_site) list"
  rt_sites_by_id :: "(u32 \<times> u64) list"
  rt_site_types :: "(u32 \<times> u64) list"
  rt_allocations :: "(u64 \<times> allocation) list"

text \<open>The constructor \<open>Runtime(arena_base, arena_size)\<close>.\<close>

definition new_runtime :: "u64 \<Rightarrow> u64 \<Rightarrow> runtime" where
  "new_runtime arena_base arena_size =
     \<lparr>rt_base = arena_base, rt_capacity = arena_size,
      rt_arena_valid = (arena_size \<le> u64_max - arena_base), rt_used = 0,
      rt_types = [], rt_type_ids = [], rt_sites = [], rt_sites_by_id = [],
      rt_site_types = [], rt_allocations = []\<rparr>"

section \<open>Registration\<close>

definition register_type :: "u32 \<Rightarrow> u64 \<Rightarrow> runtime \<Rightarrow> bool \<times> runtime" where
  "register_type tid type_hash s =
     (if tid = 0 \<or> um_find (rt_types s) tid \<noteq> None \<or> um_find (rt_type_ids s) type_hash \<noteq> None
      then (False, s)
      else (True, s\<lparr>rt_types := um_emplace tid type_hash (rt_types s),
                    rt_type_ids := um_emplace type_hash tid (rt_type_ids s)\<rparr>))"

definition register_allocation_site_id :: "u32 \<Rightarrow> u32 \<Rightarrow> runtime \<Rightarrow> bool \<times> runtime" where
  "register_allocation_site_id sid type_id s =
     (case um_find (rt_types s) type_id of
        None \<Rightarrow> (False, s)
      | Some h \<Rightarrow>
          if sid = 0 \<or> um_find (rt_site_types s) sid \<noteq> None then (False, s)
          else (True, s\<lparr>rt_site_types := um_emplace sid h (rt_site_types s)\<rparr>))"

text \<open>The overlap test against both neighbours of \<open>begin\<close> in \<open>sites_\<close>.\<close>

definition site_neighbours_clear :: "u64 \<Rightarrow> u64 \<Rightarrow> (u64 \<times> allocation_site) list \<Rightarrow> bool" where
  "site_neighbours_clear b e sites =
     ((case om_at_lower b sites of None \<Rightarrow> True | Some (_, nxt) \<Rightarrow> \<not> e > as_begin nxt) \<and>
      (case om_prev_lower b sites of None \<Rightarrow> True | Some (_, prv) \<Rightarrow> \<not> as_end prv > b))"

definition register_allocation_site ::
    "u32 \<Rightarrow> u64 \<Rightarrow> u64 \<Rightarrow> u32 \<Rightarrow> runtime \<Rightarrow> bool \<times> runtime" where
  "register_allocation_site sid b e type_id s =
     (case um_find (rt_types s) type_id of
        None \<Rightarrow> (False, s)
      | Some h \<Rightarrow>
          if sid = 0 \<or> b = 0 \<or> b \<ge> e \<or> um_find (rt_sites_by_id s) sid \<noteq> None
             \<or> um_find (rt_site_types s) sid \<noteq> None then (False, s)
          else if \<not> site_neighbours_clear b e (rt_sites s) then (False, s)
          else
            (let site = \<lparr>as_id = sid, as_begin = b, as_end = e,
                         as_type_id = type_id, as_type_hash = h\<rparr>;
                 (sites', inserted) = om_emplace b site (rt_sites s)
             in if \<not> inserted then (False, s\<lparr>rt_sites := sites'\<rparr>)
                else (True, s\<lparr>rt_sites := sites',
                              rt_sites_by_id := um_emplace sid b (rt_sites_by_id s),
                              rt_site_types := um_emplace sid h (rt_site_types s)\<rparr>)))"

section \<open>Allocation\<close>

definition k_alignment :: u64 where
  "k_alignment = 8"

text \<open>\<open>aligned_size\<close>: \<open>None\<close> where the C++ returns false.\<close>

definition aligned_size :: "u64 \<Rightarrow> u64 option" where
  "aligned_size sz =
     (if sz > u64_max - (k_alignment - 1) then None
      else (let aligned = (sz + (k_alignment - 1)) AND NOT (k_alignment - 1)
            in if aligned \<ge> sz then Some aligned else None))"

definition allocate_with_hash_unlocked ::
    "u64 \<Rightarrow> u64 \<Rightarrow> u32 \<Rightarrow> runtime \<Rightarrow> u64 \<times> runtime" where
  "allocate_with_hash_unlocked sz type_hash site_id s =
     (if \<not> rt_arena_valid s \<or> sz = 0 then (0, s)
      else case aligned_size sz of
        None \<Rightarrow> (0, s)
      | Some aligned \<Rightarrow>
          if rt_used s > rt_capacity s \<or> aligned > rt_capacity s - rt_used s then (0, s)
          else if rt_used s > u64_max - rt_base s then (0, s)
          else
            (let ptr = rt_base s + rt_used s;
                 (allocs', inserted) =
                   om_emplace ptr \<lparr>al_base = ptr, al_size = sz,
                     al_type_hash = type_hash, al_site_id = site_id\<rparr> (rt_allocations s)
             in if \<not> inserted then (0, s\<lparr>rt_allocations := allocs'\<rparr>)
                else (ptr, s\<lparr>rt_allocations := allocs', rt_used := rt_used s + aligned\<rparr>)))"

definition allocate :: "u64 \<Rightarrow> u32 \<Rightarrow> runtime \<Rightarrow> u64 \<times> runtime" where
  "allocate sz type_id s =
     (case um_find (rt_types s) type_id of
        None \<Rightarrow> (0, s)
      | Some h \<Rightarrow> if sz = 0 then (0, s) else allocate_with_hash_unlocked sz h 0 s)"

definition allocate_from_site :: "u64 \<Rightarrow> u32 \<Rightarrow> runtime \<Rightarrow> u64 \<times> runtime" where
  "allocate_from_site sz site_id s =
     (case um_find (rt_site_types s) site_id of
        None \<Rightarrow> (0, s)
      | Some h \<Rightarrow> if sz = 0 then (0, s) else allocate_with_hash_unlocked sz h site_id s)"

definition find_site_unlocked :: "u64 \<Rightarrow> runtime \<Rightarrow> allocation_site option" where
  "find_site_unlocked pc s =
     (if rt_sites s = [] then None
      else case om_prev_upper pc (rt_sites s) of
        None \<Rightarrow> None
      | Some (_, site) \<Rightarrow> if pc \<ge> as_begin site \<and> pc < as_end site then Some site else None)"

definition find_site_by_id_unlocked :: "u32 \<Rightarrow> runtime \<Rightarrow> allocation_site option" where
  "find_site_by_id_unlocked sid s =
     (case um_find (rt_sites_by_id s) sid of
        None \<Rightarrow> None
      | Some b \<Rightarrow> om_find (rt_sites s) b)"

definition allocate_from_pc :: "u64 \<Rightarrow> u64 \<Rightarrow> runtime \<Rightarrow> u64 \<times> runtime" where
  "allocate_from_pc sz caller_pc s =
     (case find_site_unlocked caller_pc s of
        None \<Rightarrow> (0, s)
      | Some site \<Rightarrow>
          if sz = 0 then (0, s)
          else allocate_with_hash_unlocked sz (as_type_hash site) (as_id site) s)"

section \<open>Lifetime\<close>

definition release :: "u64 \<Rightarrow> runtime \<Rightarrow> bool \<times> runtime" where
  "release ptr s =
     (case om_find (rt_allocations s) ptr of
        None \<Rightarrow> (False, s)
      | Some _ \<Rightarrow> (True, s\<lparr>rt_allocations := om_erase ptr (rt_allocations s)\<rparr>))"

definition reallocate :: "u64 \<Rightarrow> u64 \<Rightarrow> runtime \<Rightarrow> u64 \<times> runtime" where
  "reallocate ptr new_size s =
     (case om_find (rt_allocations s) ptr of
        None \<Rightarrow> (0, s)
      | Some old \<Rightarrow>
          if new_size = 0 then (0, s\<lparr>rt_allocations := om_erase ptr (rt_allocations s)\<rparr>)
          else
            (let (replacement, s') =
                   allocate_with_hash_unlocked new_size (al_type_hash old) (al_site_id old) s
             in if replacement = 0 then (0, s')
                else (replacement, s'\<lparr>rt_allocations := om_erase ptr (rt_allocations s')\<rparr>)))"

section \<open>Queries\<close>

definition allocation_count :: "runtime \<Rightarrow> nat" where
  "allocation_count s = length (rt_allocations s)"

definition allocation_site_count :: "runtime \<Rightarrow> nat" where
  "allocation_site_count s = um_size (rt_site_types s)"

text \<open>The queries with a reference parameter return it, unchanged when they fail.\<close>

definition allocation_size :: "u64 \<Rightarrow> u64 \<Rightarrow> runtime \<Rightarrow> bool \<times> u64" where
  "allocation_size ptr out s =
     (case om_find (rt_allocations s) ptr of
        None \<Rightarrow> (False, out) | Some a \<Rightarrow> (True, al_size a))"

definition allocation_site_of :: "u64 \<Rightarrow> u32 \<Rightarrow> runtime \<Rightarrow> bool \<times> u32" where
  "allocation_site_of ptr out s =
     (case om_find (rt_allocations s) ptr of
        None \<Rightarrow> (False, out) | Some a \<Rightarrow> (True, al_site_id a))"

definition find_allocation_unlocked :: "u64 \<Rightarrow> runtime \<Rightarrow> allocation option" where
  "find_allocation_unlocked ptr s =
     (if rt_allocations s = [] then None
      else case om_prev_upper ptr (rt_allocations s) of
        None \<Rightarrow> None
      | Some (_, a) \<Rightarrow>
          if ptr < al_base a then None
          else if ptr - al_base a < al_size a then Some a else None)"

definition remaining_bytes :: "u64 \<Rightarrow> u64 \<Rightarrow> u64 \<Rightarrow> runtime \<Rightarrow> check_result \<times> u64" where
  "remaining_bytes ptr expected_type out s =
     (case find_allocation_unlocked ptr s of
        None \<Rightarrow> (Untracked, out)
      | Some a \<Rightarrow>
          if al_type_hash a \<noteq> expected_type then (Wrong_type, out)
          else (Check_ok, al_size a - (ptr - al_base a)))"

definition check :: "u64 \<Rightarrow> u64 \<Rightarrow> u64 \<Rightarrow> runtime \<Rightarrow> check_result" where
  "check ptr bytes expected_type s =
     (case find_allocation_unlocked ptr s of
        None \<Rightarrow> Untracked
      | Some a \<Rightarrow>
          if al_type_hash a \<noteq> expected_type then Wrong_type
          else
            (let offset = ptr - al_base a; remaining = al_size a - offset
             in if bytes \<le> remaining then Check_ok else Out_of_bounds))"

text \<open>The constexpr \<open>type_hash\<close> of a NUL-terminated byte string; \<open>*\<close> and \<open>+\<close> wrap.\<close>

fun type_hash_from :: "u64 \<Rightarrow> 8 word list \<Rightarrow> u64" where
  "type_hash_from h [] = h"
| "type_hash_from h (c # cs) = (if c = 0 then h else type_hash_from (129 * h + ucast c) cs)"

definition type_hash :: "8 word list \<Rightarrow> u64" where
  "type_hash text = type_hash_from 0 text"

section \<open>Well-formed states\<close>

text \<open>Positions of the two interval indexes.\<close>

definition alloc_top :: "allocation \<Rightarrow> nat" where
  "alloc_top a = unat (al_base a) + unat (al_size a)"

definition site_top :: "allocation_site \<Rightarrow> nat" where
  "site_top d = unat (as_end d)"

definition round8 :: "nat \<Rightarrow> nat" where
  "round8 n = (n + 7) div 8 * 8"

text \<open>
  An allocation lies in the used part of the arena, at an 8-aligned offset, and carries a
  registered type; a non-zero site id is a registered site of that type.
\<close>

definition alloc_ok :: "runtime \<Rightarrow> u64 \<Rightarrow> allocation \<Rightarrow> bool" where
  "alloc_ok s k a \<longleftrightarrow>
     al_base a = k \<and> 0 < unat (al_size a) \<and>
     unat (rt_base s) \<le> unat k \<and>
     unat k + round8 (unat (al_size a)) \<le> unat (rt_base s) + unat (rt_used s) \<and>
     8 dvd unat k - unat (rt_base s) \<and>
     al_type_hash a \<in> ran (um_find (rt_types s)) \<and>
     (al_site_id a \<noteq> 0 \<longrightarrow> um_find (rt_site_types s) (al_site_id a) = Some (al_type_hash a))"

definition site_ok :: "runtime \<Rightarrow> u64 \<Rightarrow> allocation_site \<Rightarrow> bool" where
  "site_ok s k d \<longleftrightarrow>
     as_begin d = k \<and> k \<noteq> 0 \<and> k < as_end d \<and> as_id d \<noteq> 0 \<and>
     um_find (rt_types s) (as_type_id d) = Some (as_type_hash d) \<and>
     um_find (rt_sites_by_id s) (as_id d) = Some k \<and>
     um_find (rt_site_types s) (as_id d) = Some (as_type_hash d)"

definition arena_inv :: "runtime \<Rightarrow> bool" where
  "arena_inv s \<longleftrightarrow>
     rt_arena_valid s = (unat (rt_base s) + unat (rt_capacity s) < 2 ^ 64) \<and>
     rt_used s \<le> rt_capacity s \<and> 8 dvd unat (rt_used s) \<and>
     (\<not> rt_arena_valid s \<longrightarrow> rt_used s = 0)"

definition types_inv :: "runtime \<Rightarrow> bool" where
  "types_inv s \<longleftrightarrow>
     um_distinct (rt_types s) \<and> um_distinct (rt_type_ids s) \<and>
     um_find (rt_types s) 0 = None \<and>
     (\<forall>i h. um_find (rt_types s) i = Some h \<longleftrightarrow> um_find (rt_type_ids s) h = Some i)"

definition sites_inv :: "runtime \<Rightarrow> bool" where
  "sites_inv s \<longleftrightarrow>
     om_sorted (rt_sites s) \<and> um_distinct (rt_site_types s) \<and> um_distinct (rt_sites_by_id s) \<and>
     (\<forall>k d. om_find (rt_sites s) k = Some d \<longrightarrow> site_ok s k d) \<and>
     intervals_disjoint (om_find (rt_sites s)) unat site_top \<and>
     (\<forall>i k. um_find (rt_sites_by_id s) i = Some k \<longrightarrow>
        (\<exists>d. om_find (rt_sites s) k = Some d \<and> as_id d = i)) \<and>
     (\<forall>i h. um_find (rt_site_types s) i = Some h \<longrightarrow> i \<noteq> 0 \<and> h \<in> ran (um_find (rt_types s)))"

definition allocs_inv :: "runtime \<Rightarrow> bool" where
  "allocs_inv s \<longleftrightarrow>
     om_sorted (rt_allocations s) \<and>
     (\<forall>k a. om_find (rt_allocations s) k = Some a \<longrightarrow> alloc_ok s k a) \<and>
     intervals_disjoint (om_find (rt_allocations s)) unat alloc_top"

definition runtime_inv :: "runtime \<Rightarrow> bool" where
  "runtime_inv s \<longleftrightarrow> arena_inv s \<and> types_inv s \<and> sites_inv s \<and> allocs_inv s"

end
