(* ===== verification/RuntimeInv.thy ===== *)
theory RuntimeInv
  imports Runtime
begin

text \<open>
  The invariant of the trusted runtime and its preservation, one lemma per operation; then
  runs of operations, and the invariant of every reachable state.
\<close>

unbundle bit_operations_syntax

section \<open>Sizes\<close>

lemma round8_props [simp]:
  "n \<le> round8 n" "round8 n < n + 8" "8 dvd round8 n" "0 < n \<Longrightarrow> 0 < round8 n"
  unfolding round8_def by presburger+

lemma and_not_seven: "unat ((w :: u64) AND NOT 7) = unat w div 8 * 8"
proof -
  have seven: "(7 :: u64) = mask 3" by (simp add: mask_eq_exp_minus_1)
  have "w AND NOT 7 = push_bit 3 (drop_bit 3 w)"
    unfolding seven by (rule bit_eqI) (auto simp: bit_simps)
  then have eq: "w AND NOT 7 = w div 8 * 8"
    by (simp add: push_bit_eq_mult drop_bit_eq_div)
  have "unat w div 8 * 8 < 2 ^ 64"
    using unat_u64_less [of w] div_times_less_eq_dividend [of "unat w" 8]
    by (simp del: unat_u64_less div_times_less_eq_dividend)
  then show ?thesis unfolding eq by (simp add: unat_word_ariths unat_div)
qed

lemma aligned_size_Some:
  assumes "unat sz + 7 < 2 ^ 64"
  shows "aligned_size sz = Some (word_of_nat (round8 (unat sz)))"
    and "unat (word_of_nat (round8 (unat sz)) :: u64) = round8 (unat sz)"
proof -
  have r: "round8 (unat sz) < 2 ^ 64" using assms by (simp add: round8_def)
  then show u: "unat (word_of_nat (round8 (unat sz)) :: u64) = round8 (unat sz)"
    by (simp add: unat_of_nat)
  have "unat (sz + 7) = unat sz + 7" using assms unat_add_u64 [of sz 7] by simp
  then have "unat ((sz + 7) AND NOT 7) = round8 (unat sz)"
    by (simp add: and_not_seven [simplified] round8_def)
  with u have "(sz + 7) AND NOT 7 = word_of_nat (round8 (unat sz))"
    by (metis word_unat_eq_iff)
  moreover have "\<not> sz > u64_max - 7"
    using assms u64_le_max_minus_iff [of sz 7] by (simp add: not_less)
  moreover have "word_of_nat (round8 (unat sz)) \<ge> sz"
    using u by (simp add: word_le_nat_alt)
  ultimately show "aligned_size sz = Some (word_of_nat (round8 (unat sz)))"
    by (simp add: aligned_size_def k_alignment_def)
qed

lemma aligned_size_None: "aligned_size sz = None \<longleftrightarrow> 2 ^ 64 \<le> unat sz + 7"
proof (cases "unat sz + 7 < 2 ^ 64")
  case True
  then show ?thesis using aligned_size_Some(1) by simp
next
  case False
  then show ?thesis using u64_le_max_minus_iff [of sz 7]
    by (simp add: aligned_size_def k_alignment_def not_less [symmetric])
qed

section \<open>The two interval indexes\<close>

interpretation allocs: interval_index om_find om_emplace om_erase om_prev_upper om_prev_lower
  om_at_lower om_sorted "unat :: u64 \<Rightarrow> nat" alloc_top
  by unfold_locales (simp add: word_less_nat_alt)

interpretation sites: interval_index om_find om_emplace om_erase om_prev_upper om_prev_lower
  om_at_lower om_sorted "unat :: u64 \<Rightarrow> nat" site_top
  by unfold_locales (simp add: word_less_nat_alt)

text \<open>The containment test on words is containment of numbers.\<close>

lemma offset_less_iff:
  fixes p b z :: u64
  assumes "b \<le> p" shows "p - b < z \<longleftrightarrow> unat p < unat b + unat z"
  using assms by (simp add: word_less_nat_alt word_le_nat_alt unat_diff_u64) linarith

lemma find_allocation_iff:
  assumes "allocs_inv s"
  shows "find_allocation_unlocked p s = Some a \<longleftrightarrow>
         om_find (rt_allocations s) (al_base a) = Some a \<and> al_base a \<le> p \<and> unat p < alloc_top a"
proof -
  have base: "al_base b = k" if "om_find (rt_allocations s) k = Some b" for k b
    using assms that by (simp add: allocs_inv_def alloc_ok_def)
  have st: "om_prev_upper p (rt_allocations s) = Some (k, b) \<and> unat p < alloc_top b \<longleftrightarrow>
      om_find (rt_allocations s) k = Some b \<and> k \<le> p \<and> unat p < alloc_top b" for k b
    using assms by (intro allocs.stab_prev_upper) (auto simp: allocs_inv_def)
  have "find_allocation_unlocked p s = Some a \<longleftrightarrow>
      (\<exists>k. om_prev_upper p (rt_allocations s) = Some (k, a) \<and> al_base a \<le> p \<and> unat p < alloc_top a)"
    by (auto simp: find_allocation_unlocked_def offset_less_iff alloc_top_def not_less
        split: option.splits if_splits prod.splits)
  also have "\<dots> \<longleftrightarrow> (\<exists>k. om_find (rt_allocations s) k = Some a \<and> k \<le> p \<and> unat p < alloc_top a)"
    using st base by metis
  also have "\<dots> \<longleftrightarrow> om_find (rt_allocations s) (al_base a) = Some a \<and> al_base a \<le> p \<and>
      unat p < alloc_top a"
    using base by metis
  finally show ?thesis .
qed

lemma find_site_iff:
  assumes "sites_inv s"
  shows "find_site_unlocked pc s = Some d \<longleftrightarrow>
         om_find (rt_sites s) (as_begin d) = Some d \<and> as_begin d \<le> pc \<and> pc < as_end d"
proof -
  have base: "as_begin b = k" if "om_find (rt_sites s) k = Some b" for k b
    using assms that by (simp add: sites_inv_def site_ok_def)
  have st: "om_prev_upper pc (rt_sites s) = Some (k, b) \<and> unat pc < site_top b \<longleftrightarrow>
      om_find (rt_sites s) k = Some b \<and> k \<le> pc \<and> unat pc < site_top b" for k b
    using assms by (intro sites.stab_prev_upper) (auto simp: sites_inv_def)
  have sl: "unat pc < site_top d \<longleftrightarrow> pc < as_end d"
    by (simp add: site_top_def word_less_nat_alt)
  have "find_site_unlocked pc s = Some d \<longleftrightarrow>
      (\<exists>k. om_prev_upper pc (rt_sites s) = Some (k, d) \<and> as_begin d \<le> pc \<and> unat pc < site_top d)"
    by (auto simp: find_site_unlocked_def site_top_def word_less_nat_alt
        split: option.splits if_splits prod.splits)
  also have "\<dots> \<longleftrightarrow> (\<exists>k. om_find (rt_sites s) k = Some d \<and> k \<le> pc \<and> unat pc < site_top d)"
    using st base by metis
  also have "\<dots> \<longleftrightarrow> om_find (rt_sites s) (as_begin d) = Some d \<and> as_begin d \<le> pc \<and> pc < as_end d"
    using base sl by metis
  finally show ?thesis .
qed

section \<open>The initial state and registration\<close>

lemma new_runtime_inv: "runtime_inv (new_runtime b n)"
  by (simp add: runtime_inv_def arena_inv_def types_inv_def sites_inv_def allocs_inv_def
      new_runtime_def um_distinct_def u64_le_max_minus_iff add.commute [of "unat b"])

text \<open>
  \<open>sites_inv\<close> and \<open>allocs_inv\<close> survive whenever the tables they read only grow.
\<close>

definition tables_grow :: "runtime \<Rightarrow> runtime \<Rightarrow> bool" where
  "tables_grow s t \<longleftrightarrow>
     um_find (rt_types s) \<subseteq>\<^sub>m um_find (rt_types t) \<and>
     um_find (rt_site_types s) \<subseteq>\<^sub>m um_find (rt_site_types t) \<and>
     um_find (rt_sites_by_id s) \<subseteq>\<^sub>m um_find (rt_sites_by_id t)"

lemma tables_grow_refl [simp]: "tables_grow s s"
  by (simp add: tables_grow_def)

lemma tables_grow_trans: "tables_grow s t \<Longrightarrow> tables_grow t r \<Longrightarrow> tables_grow s r"
  unfolding tables_grow_def by (meson map_le_trans)

lemma map_le_ran: "f \<subseteq>\<^sub>m g \<Longrightarrow> h \<in> ran f \<Longrightarrow> h \<in> ran g"
  unfolding ran_def by (force simp: map_le_def dom_def)

lemma map_le_Some: "f \<subseteq>\<^sub>m g \<Longrightarrow> f x = Some y \<Longrightarrow> g x = Some y"
  by (force simp: map_le_def dom_def)

lemma map_le_new: "f k = None \<Longrightarrow> f \<subseteq>\<^sub>m f(k \<mapsto> v)"
  by (auto simp: map_le_def)

lemma alloc_ok_grow:
  assumes "alloc_ok s k a" and "tables_grow s t" and "rt_base t = rt_base s"
    and "unat (rt_used s) \<le> unat (rt_used t)"
  shows "alloc_ok t k a"
proof -
  have "al_type_hash a \<in> ran (um_find (rt_types t))"
    using assms(1,2) by (auto simp: alloc_ok_def tables_grow_def intro: map_le_ran)
  moreover have "al_site_id a \<noteq> 0 \<Longrightarrow>
      um_find (rt_site_types t) (al_site_id a) = Some (al_type_hash a)"
    using assms(1,2) by (auto simp: alloc_ok_def tables_grow_def intro: map_le_Some)
  ultimately show ?thesis using assms by (simp add: alloc_ok_def)
qed

lemma site_ok_grow: "site_ok s k d \<Longrightarrow> tables_grow s t \<Longrightarrow> site_ok t k d"
  unfolding site_ok_def tables_grow_def by (auto intro: map_le_Some)

lemma register_type_inv:
  assumes "runtime_inv s" shows "runtime_inv (snd (register_type i h s))"
proof (cases "i = 0 \<or> um_find (rt_types s) i \<noteq> None \<or> um_find (rt_type_ids s) h \<noteq> None")
  case True
  then show ?thesis using assms by (auto simp: register_type_def)
next
  case False
  let ?t = "snd (register_type i h s)"
  have t: "?t = s\<lparr>rt_types := um_emplace i h (rt_types s),
                  rt_type_ids := um_emplace h i (rt_type_ids s)\<rparr>"
    using False by (simp add: register_type_def)
  have grow: "tables_grow s ?t" using False by (simp add: t tables_grow_def map_le_new)
  have "types_inv ?t"
    using False assms
    by (auto simp: t types_inv_def runtime_inv_def um_emplace_distinct)
       (metis option.distinct(1))+
  moreover have "sites_inv ?t"
  proof -
    have "\<And>k d. om_find (rt_sites s) k = Some d \<Longrightarrow> site_ok ?t k d"
      using assms site_ok_grow [OF _ grow] by (simp add: runtime_inv_def sites_inv_def)
    moreover have "\<And>j g. um_find (rt_site_types s) j = Some g \<Longrightarrow>
        j \<noteq> 0 \<and> g \<in> ran (um_find (rt_types ?t))"
      using assms grow by (auto simp: runtime_inv_def sites_inv_def tables_grow_def intro: map_le_ran)
    ultimately show ?thesis using assms by (simp add: runtime_inv_def sites_inv_def t)
  qed
  moreover have "allocs_inv ?t"
    using assms alloc_ok_grow [OF _ grow] by (simp add: runtime_inv_def allocs_inv_def t)
  moreover have "arena_inv ?t" using assms by (simp add: runtime_inv_def arena_inv_def t)
  ultimately show ?thesis by (simp add: runtime_inv_def)
qed

lemma register_allocation_site_id_inv:
  assumes "runtime_inv s" shows "runtime_inv (snd (register_allocation_site_id i tid s))"
proof (cases "\<exists>h. um_find (rt_types s) tid = Some h \<and> i \<noteq> 0 \<and> um_find (rt_site_types s) i = None")
  case False
  then show ?thesis using assms
    by (auto simp: register_allocation_site_id_def split: option.splits)
next
  case True
  then obtain h where h: "um_find (rt_types s) tid = Some h" "i \<noteq> 0"
    "um_find (rt_site_types s) i = None" by blast
  let ?t = "snd (register_allocation_site_id i tid s)"
  have t: "?t = s\<lparr>rt_site_types := um_emplace i h (rt_site_types s)\<rparr>"
    using h by (simp add: register_allocation_site_id_def)
  have grow: "tables_grow s ?t" using h by (simp add: t tables_grow_def map_le_new)
  have "sites_inv ?t"
  proof -
    have "\<And>k d. om_find (rt_sites s) k = Some d \<Longrightarrow> site_ok ?t k d"
      using assms site_ok_grow [OF _ grow] by (simp add: runtime_inv_def sites_inv_def)
    then show ?thesis using assms h
      by (auto simp: runtime_inv_def sites_inv_def t um_emplace_distinct intro: ranI)
  qed
  moreover have "allocs_inv ?t"
    using assms alloc_ok_grow [OF _ grow] by (simp add: runtime_inv_def allocs_inv_def t)
  ultimately show ?thesis using assms
    by (simp add: runtime_inv_def arena_inv_def types_inv_def t)
qed

text \<open>When the site registration succeeds, and what it does then.\<close>

definition site_registrable :: "u32 \<Rightarrow> u64 \<Rightarrow> u64 \<Rightarrow> u32 \<Rightarrow> u64 \<Rightarrow> runtime \<Rightarrow> bool" where
  "site_registrable i b e tid h s \<longleftrightarrow>
     um_find (rt_types s) tid = Some h \<and> i \<noteq> 0 \<and> b \<noteq> 0 \<and> b < e \<and>
     um_find (rt_sites_by_id s) i = None \<and> um_find (rt_site_types s) i = None \<and>
     site_neighbours_clear b e (rt_sites s)"

lemma site_neighbours_clear_fresh:
  assumes "sites_inv s" and "site_neighbours_clear b e (rt_sites s)" and "b < e"
    and "as_end d = e"
  shows "om_find (rt_sites s) b = None"
    and "intervals_disjoint ((om_find (rt_sites s))(b \<mapsto> d)) unat site_top"
proof -
  have s: "om_sorted (rt_sites s)" and dis: "intervals_disjoint (om_find (rt_sites s)) unat site_top"
    using assms by (auto simp: sites_inv_def)
  have new: "unat b < site_top d" using assms by (simp add: site_top_def word_less_nat_alt)
  have "site_top d \<le> unat c" if "om_at_lower b (rt_sites s) = Some (c, w)" for c w
  proof -
    have "as_begin w = c"
      using that assms(1) om.at_lower_Some [OF s that] by (simp add: sites_inv_def site_ok_def)
    with that assms show ?thesis
      by (simp add: site_neighbours_clear_def site_top_def not_less word_le_nat_alt)
  qed
  moreover have "site_top w \<le> unat b" if "om_prev_lower b (rt_sites s) = Some (c, w)" for c w
    using that assms
    by (simp add: site_neighbours_clear_def site_top_def not_less word_le_nat_alt)
  ultimately show "om_find (rt_sites s) b = None"
    and "intervals_disjoint ((om_find (rt_sites s))(b \<mapsto> d)) unat site_top"
    using sites.neighbours_clear [OF s dis new] by blast+
qed

lemma register_allocation_site_eq:
  assumes "sites_inv s"
  shows "register_allocation_site i b e tid s =
    (case um_find (rt_types s) tid of None \<Rightarrow> (False, s) | Some h \<Rightarrow>
       if site_registrable i b e tid h s then
         (True, s\<lparr>rt_sites := fst (om_emplace b \<lparr>as_id = i, as_begin = b, as_end = e,
                                    as_type_id = tid, as_type_hash = h\<rparr> (rt_sites s)),
                  rt_sites_by_id := um_emplace i b (rt_sites_by_id s),
                  rt_site_types := um_emplace i h (rt_site_types s)\<rparr>)
       else (False, s))"
proof (cases "\<exists>h. site_registrable i b e tid h s")
  case False
  then show ?thesis
    by (auto simp: register_allocation_site_def site_registrable_def not_less
        split: option.splits)
next
  case True
  then obtain h where h: "site_registrable i b e tid h s" by blast
  let ?d = "\<lparr>as_id = i, as_begin = b, as_end = e, as_type_id = tid, as_type_hash = h\<rparr>"
  have "om_find (rt_sites s) b = None"
    using site_neighbours_clear_fresh(1) [OF assms, of b e ?d] h
    by (simp add: site_registrable_def)
  then have "snd (om_emplace b ?d (rt_sites s))"
    using assms by (simp add: om_emplace_new sites_inv_def)
  then show ?thesis using h
    by (auto simp: register_allocation_site_def site_registrable_def Let_def split: prod.splits)
qed

lemma register_allocation_site_inv:
  assumes inv: "runtime_inv s" shows "runtime_inv (snd (register_allocation_site i b e tid s))"
proof (cases "\<exists>h. site_registrable i b e tid h s")
  case False
  then show ?thesis using inv
    by (auto simp: register_allocation_site_eq runtime_inv_def split: option.splits)
next
  case True
  then obtain h where h: "site_registrable i b e tid h s" by blast
  let ?d = "\<lparr>as_id = i, as_begin = b, as_end = e, as_type_id = tid, as_type_hash = h\<rparr>"
  let ?t = "snd (register_allocation_site i b e tid s)"
  have si: "sites_inv s" using inv by (simp add: runtime_inv_def)
  have t: "?t = s\<lparr>rt_sites := fst (om_emplace b ?d (rt_sites s)),
                  rt_sites_by_id := um_emplace i b (rt_sites_by_id s),
                  rt_site_types := um_emplace i h (rt_site_types s)\<rparr>"
    using h by (simp add: register_allocation_site_eq [OF si] site_registrable_def)
  have fresh: "om_find (rt_sites s) b = None"
    and dis: "intervals_disjoint ((om_find (rt_sites s))(b \<mapsto> ?d)) unat site_top"
    using site_neighbours_clear_fresh [OF si, of b e ?d] h by (simp_all add: site_registrable_def)
  have find: "om_find (rt_sites ?t) = (om_find (rt_sites s))(b \<mapsto> ?d)"
    using si fresh by (simp add: t om_emplace_new sites_inv_def)
  have grow: "tables_grow s ?t"
    using h by (simp add: t tables_grow_def map_le_new site_registrable_def)
  have new: "site_ok ?t b ?d" using h by (simp add: t site_ok_def site_registrable_def)
  have "sites_inv ?t"
  proof -
    have "\<And>k d. om_find (rt_sites ?t) k = Some d \<Longrightarrow> site_ok ?t k d"
      using si site_ok_grow [OF _ grow] new by (auto simp: find sites_inv_def split: if_splits)
    moreover have "intervals_disjoint (om_find (rt_sites ?t)) unat site_top"
      using dis by (simp add: find)
    moreover have "om_sorted (rt_sites ?t)" using si by (simp add: t sites_inv_def om_emplace_sorted)
    moreover have "\<exists>d. om_find (rt_sites ?t) k = Some d \<and> as_id d = j"
      if "um_find (rt_sites_by_id ?t) j = Some k" for j k
    proof (cases "j = i")
      case True
      with that h have "k = b" by (simp add: t site_registrable_def)
      with True show ?thesis by (simp add: find)
    next
      case False
      with that h have "um_find (rt_sites_by_id s) j = Some k"
        by (simp add: t site_registrable_def)
      with si obtain d where "om_find (rt_sites s) k = Some d" "as_id d = j"
        unfolding sites_inv_def by blast
      with fresh show ?thesis by (auto simp: find)
    qed
    moreover have "j \<noteq> 0 \<and> g \<in> ran (um_find (rt_types ?t))"
      if "um_find (rt_site_types ?t) j = Some g" for j g
      using that h si by (auto simp: t site_registrable_def sites_inv_def split: if_splits intro: ranI)
    ultimately show ?thesis using si unfolding sites_inv_def
      by (auto simp: t um_emplace_distinct)
  qed
  moreover have "allocs_inv ?t"
    using inv alloc_ok_grow [OF _ grow] by (simp add: runtime_inv_def allocs_inv_def t)
  ultimately show ?thesis using inv
    by (simp add: runtime_inv_def arena_inv_def types_inv_def t)
qed

section \<open>Allocation and lifetime\<close>

text \<open>When the bump allocator succeeds, and the state it then reaches.\<close>

definition alloc_fits :: "u64 \<Rightarrow> runtime \<Rightarrow> bool" where
  "alloc_fits z s \<longleftrightarrow>
     rt_arena_valid s \<and> 0 < unat z \<and>
     unat (rt_used s) + round8 (unat z) \<le> unat (rt_capacity s)"

definition new_allocation :: "u64 \<Rightarrow> u64 \<Rightarrow> u32 \<Rightarrow> runtime \<Rightarrow> allocation" where
  "new_allocation z h i s =
     \<lparr>al_base = rt_base s + rt_used s, al_size = z, al_type_hash = h, al_site_id = i\<rparr>"

definition bumped :: "u64 \<Rightarrow> u64 \<Rightarrow> u32 \<Rightarrow> runtime \<Rightarrow> runtime" where
  "bumped z h i s =
     s\<lparr>rt_allocations := fst (om_emplace (rt_base s + rt_used s) (new_allocation z h i s)
                              (rt_allocations s)),
       rt_used := rt_used s + word_of_nat (round8 (unat z))\<rparr>"

lemma arena_sum:
  assumes "arena_inv s" and "rt_arena_valid s" and "unat n \<le> unat (rt_capacity s)"
  shows "unat (rt_base s + n) = unat (rt_base s) + unat n"
  using assms by (intro unat_add_u64) (simp add: arena_inv_def)

lemma bump_pointer:
  assumes "arena_inv s" and "alloc_fits z s"
  shows "unat (rt_base s + rt_used s) = unat (rt_base s) + unat (rt_used s)"
    and "unat (rt_used s + word_of_nat (round8 (unat z))) = unat (rt_used s) + round8 (unat z)"
    and "unat z + 7 < 2 ^ 64"
proof -
  have cap: "unat (rt_used s) + round8 (unat z) \<le> unat (rt_capacity s)"
    and v: "rt_arena_valid s" using assms by (auto simp: alloc_fits_def)
  then have r: "round8 (unat z) < 2 ^ 64"
    using unat_u64_less [of "rt_capacity s"] by (simp del: unat_u64_less)
  show "unat (rt_base s + rt_used s) = unat (rt_base s) + unat (rt_used s)"
    using arena_sum [OF assms(1) v] cap by simp
  have "round8 (unat z) \<le> 2 ^ 64 - 8"
    using r unfolding round8_def by (simp; presburger)
  then show z: "unat z + 7 < 2 ^ 64" unfolding round8_def by simp
  have "unat (rt_used s) + unat (word_of_nat (round8 (unat z)) :: u64) < 2 ^ 64"
    using cap unat_u64_less [of "rt_capacity s"] by (simp add: aligned_size_Some(2) [OF z] del: unat_u64_less)
  then show "unat (rt_used s + word_of_nat (round8 (unat z))) = unat (rt_used s) + round8 (unat z)"
    by (subst unat_add_u64) (simp_all add: aligned_size_Some(2) [OF z])
qed

lemma bump_fresh:
  assumes "runtime_inv s" and "alloc_fits z s"
  shows "om_find (rt_allocations s) (rt_base s + rt_used s) = None"
proof (cases "om_find (rt_allocations s) (rt_base s + rt_used s)")
  case (Some a)
  then have "alloc_ok s (rt_base s + rt_used s) a"
    using assms by (simp add: runtime_inv_def allocs_inv_def)
  then have "unat (rt_base s + rt_used s) + round8 (unat (al_size a)) \<le>
      unat (rt_base s) + unat (rt_used s)" and "0 < round8 (unat (al_size a))"
    by (auto simp: alloc_ok_def)
  then show ?thesis using bump_pointer(1) [of s z] assms by (simp add: runtime_inv_def)
qed

lemma allocate_with_hash_eq:
  assumes inv: "runtime_inv s"
  shows "allocate_with_hash_unlocked z h i s =
    (if alloc_fits z s then (rt_base s + rt_used s, bumped z h i s) else (0, s))"
proof (cases "alloc_fits z s")
  case True
  have ar: "arena_inv s" using inv by (simp add: runtime_inv_def)
  note b = bump_pointer [OF ar True]
  have z0: "z \<noteq> 0" using True by (auto simp: alloc_fits_def)
  have used: "\<not> rt_capacity s < rt_used s" using ar by (simp add: arena_inv_def not_less)
  then have "unat (rt_capacity s - rt_used s) = unat (rt_capacity s) - unat (rt_used s)"
    by (simp add: unat_diff_u64 not_less)
  then have room: "\<not> word_of_nat (round8 (unat z)) > rt_capacity s - rt_used s"
    using True by (simp add: word_less_nat_alt aligned_size_Some(2) [OF b(3)] alloc_fits_def; arith)
  have "unat (rt_used s) + unat (rt_base s) < 2 ^ 64"
    using b(1) unat_u64_less [of "rt_base s + rt_used s"] by (simp del: unat_u64_less)
  then have "\<not> rt_used s > u64_max - rt_base s" by (simp add: u64_le_max_minus_iff not_less)
  moreover have "snd (om_emplace (rt_base s + rt_used s) (new_allocation z h i s) (rt_allocations s))"
    using bump_fresh [OF inv True] inv by (simp add: om_emplace_new runtime_inv_def allocs_inv_def)
  ultimately show ?thesis using True z0 used room
    by (auto simp: allocate_with_hash_unlocked_def aligned_size_Some(1) [OF b(3)] alloc_fits_def
        bumped_def new_allocation_def Let_def split: prod.splits)
next
  case False
  have ar: "arena_inv s" using inv by (simp add: runtime_inv_def)
  show ?thesis
  proof (cases "rt_arena_valid s \<and> z \<noteq> 0 \<and> unat z + 7 < 2 ^ 64")
    case True
    have used: "rt_used s \<le> rt_capacity s" using ar by (simp add: arena_inv_def)
    have "unat (rt_capacity s) < unat (rt_used s) + round8 (unat z)"
      using True False by (auto simp: alloc_fits_def unat_gt_0)
    then have "word_of_nat (round8 (unat z)) > rt_capacity s - rt_used s"
      using used True
      by (simp add: word_less_nat_alt aligned_size_Some(2) unat_diff_u64 less_diff_conv2 word_le_nat_alt)
    with True used False show ?thesis
      by (simp add: allocate_with_hash_unlocked_def aligned_size_Some(1))
  next
    case no: False
    then have "\<not> rt_arena_valid s \<or> z = 0 \<or> aligned_size z = None"
      by (auto simp: aligned_size_None not_less)
    with False show ?thesis by (auto simp: allocate_with_hash_unlocked_def)
  qed
qed

lemma bumped_tables [simp]:
  "rt_base (bumped z h i s) = rt_base s" "rt_capacity (bumped z h i s) = rt_capacity s"
  "rt_arena_valid (bumped z h i s) = rt_arena_valid s" "rt_types (bumped z h i s) = rt_types s"
  "rt_type_ids (bumped z h i s) = rt_type_ids s" "rt_sites (bumped z h i s) = rt_sites s"
  "rt_sites_by_id (bumped z h i s) = rt_sites_by_id s"
  "rt_site_types (bumped z h i s) = rt_site_types s"
  by (simp_all add: bumped_def)

lemma bumped_find:
  assumes "runtime_inv s" and "alloc_fits z s"
  shows "om_find (rt_allocations (bumped z h i s)) =
         (om_find (rt_allocations s))(rt_base s + rt_used s \<mapsto> new_allocation z h i s)"
  using bump_fresh [OF assms] assms
  by (simp add: bumped_def om_emplace_new runtime_inv_def allocs_inv_def)

lemma same_tables_grow:
  "rt_types t = rt_types s \<Longrightarrow> rt_site_types t = rt_site_types s \<Longrightarrow>
   rt_sites_by_id t = rt_sites_by_id s \<Longrightarrow> tables_grow s t"
  by (simp add: tables_grow_def)

lemma bumped_inv:
  assumes inv: "runtime_inv s" and fits: "alloc_fits z s"
    and h: "h \<in> ran (um_find (rt_types s))"
    and i: "i \<noteq> 0 \<Longrightarrow> um_find (rt_site_types s) i = Some h"
  shows "runtime_inv (bumped z h i s)"
proof -
  let ?t = "bumped z h i s" and ?n = "new_allocation z h i s"
  have ar: "arena_inv s" and al: "allocs_inv s" using inv by (auto simp: runtime_inv_def)
  note b = bump_pointer [OF ar fits]
  have used: "unat (rt_used ?t) = unat (rt_used s) + round8 (unat z)"
    using b(2) by (simp add: bumped_def)
  have grow: "tables_grow s ?t" by (rule same_tables_grow) simp_all
  have "arena_inv ?t"
    using ar fits used by (auto simp: arena_inv_def alloc_fits_def word_le_nat_alt)
  moreover have "allocs_inv ?t"
  proof -
    have new: "alloc_ok ?t (rt_base s + rt_used s) ?n"
      using h i ar fits by (simp add: alloc_ok_def new_allocation_def b(1) used arena_inv_def alloc_fits_def)
    have old: "alloc_ok s k a" if "om_find (rt_allocations s) k = Some a" for k a
      using al that by (simp add: allocs_inv_def)
    have ok: "alloc_ok ?t k a" if "om_find (rt_allocations ?t) k = Some a" for k a
      using that new alloc_ok_grow [OF old grow, of k a] used
      by (auto simp: bumped_find [OF inv fits] split: if_splits)
    have "intervals_disjoint (om_find (rt_allocations ?t)) unat alloc_top"
      unfolding bumped_find [OF inv fits]
    proof (rule intervals_disjoint_insert)
      show "intervals_disjoint (om_find (rt_allocations s)) unat alloc_top"
        using al by (simp add: allocs_inv_def)
      show "unat (rt_base s + rt_used s) < alloc_top ?n"
        using fits by (simp add: alloc_top_def new_allocation_def alloc_fits_def)
      fix a w assume aw: "om_find (rt_allocations s) a = Some w"
      have "alloc_top w \<le> unat a + round8 (unat (al_size w))"
        using old [OF aw] by (simp add: alloc_ok_def alloc_top_def)
      then have le: "alloc_top w \<le> unat (rt_base s + rt_used s)"
        using old [OF aw] b(1) by (simp add: alloc_ok_def)
      then show "alloc_top w \<le> unat (rt_base s + rt_used s)" .
      show "alloc_top ?n \<le> unat a" if "rt_base s + rt_used s < a"
        using le that old [OF aw] by (simp add: alloc_ok_def alloc_top_def word_less_nat_alt)
    qed
    moreover have "om_sorted (rt_allocations ?t)"
      using al by (simp add: bumped_def om_emplace_sorted allocs_inv_def)
    ultimately show ?thesis using ok by (simp add: allocs_inv_def)
  qed
  moreover have "sites_inv ?t" "types_inv ?t"
    using inv site_ok_grow [OF _ grow] by (simp_all add: runtime_inv_def sites_inv_def types_inv_def)
  ultimately show ?thesis by (simp add: runtime_inv_def)
qed

lemma site_type_registered:
  "runtime_inv s \<Longrightarrow> um_find (rt_site_types s) i = Some h \<Longrightarrow> i \<noteq> 0 \<and> h \<in> ran (um_find (rt_types s))"
  by (auto simp: runtime_inv_def sites_inv_def)

lemma allocate_inv: "runtime_inv s \<Longrightarrow> runtime_inv (snd (allocate z t s))"
  by (auto simp: allocate_def allocate_with_hash_eq split: option.splits intro!: bumped_inv intro: ranI)

lemma allocate_from_site_inv: "runtime_inv s \<Longrightarrow> runtime_inv (snd (allocate_from_site z i s))"
  by (auto simp: allocate_from_site_def allocate_with_hash_eq split: option.splits
      intro!: bumped_inv dest: site_type_registered)

lemma find_site_type:
  assumes "runtime_inv s" and "find_site_unlocked pc s = Some d"
  shows "um_find (rt_site_types s) (as_id d) = Some (as_type_hash d)"
    and "as_id d \<noteq> 0" and "um_find (rt_types s) (as_type_id d) = Some (as_type_hash d)"
  using assms find_site_iff [of s pc d] by (auto simp: runtime_inv_def sites_inv_def site_ok_def)

lemma allocate_from_pc_inv: "runtime_inv s \<Longrightarrow> runtime_inv (snd (allocate_from_pc z pc s))"
  by (auto simp: allocate_from_pc_def allocate_with_hash_eq split: option.splits
      intro!: bumped_inv dest: find_site_type intro: ranI)

lemma erase_inv:
  assumes "runtime_inv s"
  shows "runtime_inv (s\<lparr>rt_allocations := om_erase p (rt_allocations s)\<rparr>)"
proof -
  let ?t = "s\<lparr>rt_allocations := om_erase p (rt_allocations s)\<rparr>"
  have grow: "tables_grow s ?t" by (rule same_tables_grow) simp_all
  have s: "om_sorted (rt_allocations s)" using assms by (simp add: runtime_inv_def allocs_inv_def)
  have "allocs_inv ?t"
    using assms alloc_ok_grow [OF _ grow] intervals_disjoint_erase
    by (auto simp: runtime_inv_def allocs_inv_def om_erase_sorted om_erase_find [OF s] split: if_splits)
  moreover have "sites_inv ?t"
    using assms site_ok_grow [OF _ grow] by (simp add: runtime_inv_def sites_inv_def)
  ultimately show ?thesis
    using assms by (simp add: runtime_inv_def arena_inv_def types_inv_def)
qed

lemma release_inv: "runtime_inv s \<Longrightarrow> runtime_inv (snd (release p s))"
  by (auto simp: release_def erase_inv split: option.splits)

lemma live_type_registered:
  assumes "runtime_inv s" and "om_find (rt_allocations s) p = Some a"
  shows "al_type_hash a \<in> ran (um_find (rt_types s))"
    and "al_site_id a \<noteq> 0 \<Longrightarrow> um_find (rt_site_types s) (al_site_id a) = Some (al_type_hash a)"
  using assms by (auto simp: runtime_inv_def allocs_inv_def alloc_ok_def)

lemma reallocate_inv: "runtime_inv s \<Longrightarrow> runtime_inv (snd (reallocate p z s))"
  by (auto simp: reallocate_def allocate_with_hash_eq Let_def split: option.splits
      intro!: erase_inv bumped_inv dest: live_type_registered)

end
