(* ===== verification/RuntimeSafety.thy ===== *)
theory RuntimeSafety
  imports RuntimeInv
begin

text \<open>
  What the trusted runtime promises, over every run of its operations: the invariant of
  reachable states, the exact meaning of \<open>check\<close> and of the registration results,
  freshness of allocations, no reuse of released addresses, and the provenance of every
  type and site id that live metadata carries.
\<close>

section \<open>Runs\<close>

text \<open>The operations that change state, and a run of them on a new runtime.\<close>

datatype runtime_op =
    Register_type u32 u64
  | Register_site_id u32 u32
  | Register_site u32 u64 u64 u32
  | Allocate u64 u32
  | Allocate_from_site u64 u32
  | Allocate_from_pc u64 u64
  | Release u64
  | Reallocate u64 u64

fun apply_op :: "runtime_op \<Rightarrow> runtime \<Rightarrow> runtime" where
  "apply_op (Register_type i h) s = snd (register_type i h s)"
| "apply_op (Register_site_id i t) s = snd (register_allocation_site_id i t s)"
| "apply_op (Register_site i b e t) s = snd (register_allocation_site i b e t s)"
| "apply_op (Allocate z t) s = snd (allocate z t s)"
| "apply_op (Allocate_from_site z i) s = snd (allocate_from_site z i s)"
| "apply_op (Allocate_from_pc z pc) s = snd (allocate_from_pc z pc s)"
| "apply_op (Release p) s = snd (release p s)"
| "apply_op (Reallocate p z) s = snd (reallocate p z s)"

definition run_ops :: "runtime_op list \<Rightarrow> runtime \<Rightarrow> runtime" where
  "run_ops ops s = fold apply_op ops s"

lemma run_ops_simps [simp]:
  "run_ops [] s = s"
  "run_ops (x # xs) s = run_ops xs (apply_op x s)"
  "run_ops (xs @ ys) s = run_ops ys (run_ops xs s)"
  by (simp_all add: run_ops_def)

inductive reachable :: "u64 \<Rightarrow> u64 \<Rightarrow> runtime \<Rightarrow> bool" for b n where
  reachable_new: "reachable b n (new_runtime b n)"
| reachable_step: "reachable b n s \<Longrightarrow> reachable b n (apply_op x s)"

inductive_cases reachable_elim: "reachable b n s"

lemma reachable_run: "reachable b n s \<Longrightarrow> reachable b n (run_ops ops s)"
  by (induction ops arbitrary: s) (auto intro: reachable_step)

lemma reachable_run_new: "reachable b n (run_ops ops (new_runtime b n))"
  by (rule reachable_run) (rule reachable_new)

lemmas op_invs = register_type_inv register_allocation_site_id_inv register_allocation_site_inv
  allocate_inv allocate_from_site_inv allocate_from_pc_inv release_inv reallocate_inv

lemma apply_op_inv: "runtime_inv s \<Longrightarrow> runtime_inv (apply_op x s)"
  by (cases x) (simp_all add: op_invs)

lemma reachable_imp_inv: "reachable b n s \<Longrightarrow> runtime_inv s"
  by (induction rule: reachable.induct) (auto intro: new_runtime_inv apply_op_inv)

lemma run_ops_inv: "runtime_inv s \<Longrightarrow> runtime_inv (run_ops ops s)"
  by (induction ops arbitrary: s) (simp_all add: apply_op_inv)

text \<open>
  A concrete run that the witnesses share: two types, one site over the program counters
  4096 to 4111, and a 24-byte allocation made from inside it.
\<close>

definition demo_ops :: "runtime_op list" where
  "demo_ops = [Register_type 1 100, Register_type 2 200, Register_site 7 4096 4112 1,
               Allocate_from_pc 24 4100]"

definition demo :: runtime where
  "demo = run_ops demo_ops (new_runtime 65536 4096)"

lemma demo_reachable: "reachable 65536 4096 demo"
  by (simp add: demo_def reachable_run_new)

text \<open>
  Property C1. Every state the runtime can reach, by any sequence of registrations,
  allocations, releases and reallocations with any arguments, satisfies the metadata
  invariant: the type tables are inverse to each other, sites and live allocations are
  pairwise disjoint intervals, every live allocation lies in the used part of the arena at
  an 8-aligned offset and carries a registered type (and a site registered for that type).
\<close>

theorem reachable_runtime_inv: "reachable b n s \<Longrightarrow> runtime_inv s"
  by (rule reachable_imp_inv)

theorem reachable_runtime_inv_witness: "reachable 65536 4096 demo \<and> runtime_inv demo"
  using reachable_runtime_inv [OF demo_reachable] demo_reachable by simp

section \<open>The trusted check\<close>

text \<open>\<open>a\<close> is the metadata of a live allocation whose bytes include the address \<open>p\<close>.\<close>

definition covers :: "runtime \<Rightarrow> allocation \<Rightarrow> u64 \<Rightarrow> bool" where
  "covers s a p \<longleftrightarrow> om_find (rt_allocations s) (al_base a) = Some a \<and>
     unat (al_base a) \<le> unat p \<and> unat p < unat (al_base a) + unat (al_size a)"

lemma find_allocation_covers:
  "runtime_inv s \<Longrightarrow> find_allocation_unlocked p s = Some a \<longleftrightarrow> covers s a p"
  by (simp add: find_allocation_iff runtime_inv_def covers_def word_le_nat_alt alloc_top_def)

lemma find_allocation_None_covers:
  "runtime_inv s \<Longrightarrow> find_allocation_unlocked p s = None \<longleftrightarrow> (\<nexists>a. covers s a p)"
  using find_allocation_covers by (metis not_Some_eq)

lemma covers_unique:
  assumes "runtime_inv s" and "covers s a p" and "covers s c p" shows "a = c"
  using assms find_allocation_covers by (metis option.inject)

lemma covers_top:
  assumes "runtime_inv s" and "covers s a p"
  shows "unat (al_base a) + unat (al_size a) < 2 ^ 64"
proof -
  have "alloc_ok s (al_base a) a" and "arena_inv s"
    using assms by (auto simp: covers_def runtime_inv_def allocs_inv_def)
  then have pos: "0 < unat (al_size a)" "unat (rt_base s) \<le> unat (al_base a)"
    and fit: "unat (al_base a) + round8 (unat (al_size a)) \<le> unat (rt_base s) + unat (rt_used s)"
    and ar: "arena_inv s"
    by (auto simp: alloc_ok_def)
  have le: "unat (al_base a) + unat (al_size a) \<le> unat (rt_base s) + unat (rt_used s)"
    using fit round8_props(1) [of "unat (al_size a)"] by linarith
  then have "rt_used s \<noteq> 0" using pos by auto
  then have "unat (rt_base s) + unat (rt_capacity s) < 2 ^ 64"
    and "unat (rt_used s) \<le> unat (rt_capacity s)"
    using ar by (auto simp: arena_inv_def word_le_nat_alt)
  with le show ?thesis by linarith
qed

lemma remaining_unat:
  assumes "covers s a p"
  shows "unat (al_size a - (p - al_base a)) = unat (al_base a) + unat (al_size a) - unat p"
    and "unat (p - al_base a) = unat p - unat (al_base a)"
proof -
  show off: "unat (p - al_base a) = unat p - unat (al_base a)"
    using assms by (simp add: covers_def unat_diff_u64 word_le_nat_alt)
  then have "p - al_base a \<le> al_size a" using assms by (auto simp: covers_def word_le_nat_alt)
  then show "unat (al_size a - (p - al_base a)) = unat (al_base a) + unat (al_size a) - unat p"
    using assms off by (auto simp: unat_diff_u64 covers_def)
qed

lemma check_covered:
  assumes "runtime_inv s" and c: "covers s a p"
  shows "check p z ty s =
    (if al_type_hash a \<noteq> ty then Wrong_type
     else if unat p + unat z \<le> unat (al_base a) + unat (al_size a) then Check_ok
     else Out_of_bounds)"
proof -
  have "find_allocation_unlocked p s = Some a" using assms by (simp add: find_allocation_covers)
  moreover have "z \<le> al_size a - (p - al_base a) \<longleftrightarrow>
      unat p + unat z \<le> unat (al_base a) + unat (al_size a)"
    using remaining_unat(1) [OF c] c by (auto simp: word_le_nat_alt covers_def)
  ultimately show ?thesis by (simp add: check_def Let_def)
qed

lemma check_uncovered:
  "runtime_inv s \<Longrightarrow> \<nexists>a. covers s a p \<Longrightarrow> check p z ty s = Untracked"
  using find_allocation_None_covers [of s p] by (simp add: check_def)

lemma covers_iff_eq:
  "runtime_inv s \<Longrightarrow> covers s a p \<Longrightarrow> covers s c p \<longleftrightarrow> c = a"
  using covers_unique by blast

lemma check_ok_covers:
  assumes "runtime_inv s"
  shows "check p z ty s = Check_ok \<longleftrightarrow>
    (\<exists>a. covers s a p \<and> al_type_hash a = ty \<and>
         unat p + unat z \<le> unat (al_base a) + unat (al_size a))"
proof (cases "\<exists>a. covers s a p")
  case False
  then show ?thesis using check_uncovered [OF assms] by auto
next
  case True
  then obtain a where a: "covers s a p" ..
  show ?thesis by (simp add: check_covered [OF assms a] covers_iff_eq [OF assms a])
qed

text \<open>
  Property C2. The acceptance check is sound and complete: in every reachable state,
  \<open>check(ptr, bytes, type)\<close> returns ok exactly when some live allocation of that trusted
  type contains \<open>ptr\<close> and all of the requested extent, computed without wrap-around.
\<close>

theorem check_ok_iff:
  assumes "reachable b n s"
  shows "check p z ty s = Check_ok \<longleftrightarrow>
    (\<exists>a. om_find (rt_allocations s) (al_base a) = Some a \<and> al_type_hash a = ty \<and>
         unat (al_base a) \<le> unat p \<and> unat p < unat (al_base a) + unat (al_size a) \<and>
         unat p + unat z \<le> unat (al_base a) + unat (al_size a))"
  using check_ok_covers [OF reachable_imp_inv [OF assms]] by (auto simp: covers_def)

theorem check_ok_iff_witness:
  "check 65540 20 100 demo = Check_ok \<and> check 65540 21 100 demo = Out_of_bounds \<and>
   (\<exists>a. om_find (rt_allocations demo) (al_base a) = Some a \<and> al_type_hash a = 100 \<and>
        unat (al_base a) \<le> unat (65540 :: u64) \<and>
        unat (65540 :: u64) + unat (20 :: u64) \<le> unat (al_base a) + unat (al_size a))"
proof -
  have "check 65540 20 100 demo = Check_ok" "check 65540 21 100 demo = Out_of_bounds"
    by code_simp+
  then show ?thesis using check_ok_iff [OF demo_reachable, of 65540 20 100] by blast
qed

text \<open>
  Property C3. The other three verdicts are exact too: untracked when no live allocation
  contains the pointer, wrong type when the one that does has another trusted type, and out
  of bounds when type and liveness are right but the extent passes the end of the object.
\<close>

theorem check_verdicts:
  assumes "reachable b n s"
  shows "(check p z ty s = Untracked \<longleftrightarrow> (\<nexists>a. covers s a p)) \<and>
    (check p z ty s = Wrong_type \<longleftrightarrow> (\<exists>a. covers s a p \<and> al_type_hash a \<noteq> ty)) \<and>
    (check p z ty s = Out_of_bounds \<longleftrightarrow>
      (\<exists>a. covers s a p \<and> al_type_hash a = ty \<and>
           unat (al_base a) + unat (al_size a) < unat p + unat z))"
proof (cases "\<exists>a. covers s a p")
  case False
  then show ?thesis using check_uncovered [OF reachable_imp_inv [OF assms]] by auto
next
  case True
  then obtain a where a: "covers s a p" ..
  note inv = reachable_imp_inv [OF assms]
  show ?thesis by (simp add: check_covered [OF inv a] covers_iff_eq [OF inv a] not_le)
qed

theorem check_verdicts_witness:
  "check 65560 1 100 demo = Untracked \<and> (\<nexists>a. covers demo a 65560)"
proof -
  have "check 65560 1 100 demo = Untracked" by code_simp
  then show ?thesis using check_verdicts [OF demo_reachable] by blast
qed

section \<open>Allocations are fresh, released addresses stay dead\<close>

lemma covers_erase:
  assumes "runtime_inv s"
  shows "covers (s\<lparr>rt_allocations := om_erase k (rt_allocations s)\<rparr>) a q \<longleftrightarrow>
         covers s a q \<and> al_base a \<noteq> k"
  using assms by (auto simp: covers_def om_erase_find runtime_inv_def allocs_inv_def)

lemma bump_unat:
  assumes "runtime_inv s" and "alloc_fits z s"
  shows "unat (rt_base s + rt_used s) = unat (rt_base s) + unat (rt_used s)"
    and "unat (rt_used (bumped z h i s)) = unat (rt_used s) + round8 (unat z)"
  using bump_pointer [of s z] assms by (simp_all add: runtime_inv_def bumped_def)

lemma covers_below_used:
  assumes "runtime_inv s" and "covers s a q"
  shows "unat (rt_base s) \<le> unat q" and "unat q < unat (rt_base s) + unat (rt_used s)"
    and "unat (al_base a) + unat (al_size a) \<le> unat (rt_base s) + unat (rt_used s)"
proof -
  have "alloc_ok s (al_base a) a"
    using assms by (auto simp: covers_def runtime_inv_def allocs_inv_def)
  then have "unat (rt_base s) \<le> unat (al_base a)"
    and "unat (al_base a) + round8 (unat (al_size a)) \<le> unat (rt_base s) + unat (rt_used s)"
    by (auto simp: alloc_ok_def)
  then show "unat (rt_base s) \<le> unat q" "unat q < unat (rt_base s) + unat (rt_used s)"
    and "unat (al_base a) + unat (al_size a) \<le> unat (rt_base s) + unat (rt_used s)"
    using assms(2) round8_props(1) [of "unat (al_size a)"] unfolding covers_def by linarith+
qed

lemma covers_bumped:
  assumes inv: "runtime_inv s" and fits: "alloc_fits z s"
  shows "covers (bumped z h i s) a q \<longleftrightarrow>
    covers s a q \<or> a = new_allocation z h i s \<and>
      unat (rt_base s) + unat (rt_used s) \<le> unat q \<and>
      unat q < unat (rt_base s) + unat (rt_used s) + unat z"
proof -
  let ?n = "new_allocation z h i s"
  have old: "al_base a \<noteq> rt_base s + rt_used s" if "om_find (rt_allocations s) (al_base a) = Some a"
    using that bump_fresh [OF inv fits] by auto
  have "al_base ?n = rt_base s + rt_used s" "al_size ?n = z" by (simp_all add: new_allocation_def)
  with old show ?thesis
    by (auto simp: covers_def bumped_find [OF inv fits] bump_unat(1) [OF inv fits])
qed

text \<open>An address that was handed out and belongs to no live allocation any more.\<close>

definition retired :: "runtime \<Rightarrow> u64 \<Rightarrow> bool" where
  "retired s q \<longleftrightarrow> unat (rt_base s) \<le> unat q \<and>
     unat q < unat (rt_base s) + unat (rt_used s) \<and> (\<nexists>a. covers s a q)"

lemma retired_bumped:
  assumes "runtime_inv s" and "alloc_fits z s" and "retired s q"
  shows "retired (bumped z h i s) q"
  using assms by (auto simp: retired_def covers_bumped bump_unat(2))

lemma retired_erase:
  assumes "runtime_inv s" and "retired s q"
  shows "retired (s\<lparr>rt_allocations := om_erase k (rt_allocations s)\<rparr>) q"
  using assms(2) by (auto simp: retired_def covers_erase [OF assms(1)])

lemma retired_tables:
  assumes "rt_base t = rt_base s" "rt_used t = rt_used s" "rt_allocations t = rt_allocations s"
    and "retired s q"
  shows "retired t q"
  using assms by (simp add: retired_def covers_def)

lemma registration_frames:
  "rt_base (snd (register_type i h s)) = rt_base s"
  "rt_used (snd (register_type i h s)) = rt_used s"
  "rt_allocations (snd (register_type i h s)) = rt_allocations s"
  "rt_base (snd (register_allocation_site_id i t s)) = rt_base s"
  "rt_used (snd (register_allocation_site_id i t s)) = rt_used s"
  "rt_allocations (snd (register_allocation_site_id i t s)) = rt_allocations s"
  "rt_base (snd (register_allocation_site i b e t s)) = rt_base s"
  "rt_used (snd (register_allocation_site i b e t s)) = rt_used s"
  "rt_allocations (snd (register_allocation_site i b e t s)) = rt_allocations s"
  by (auto simp: register_type_def register_allocation_site_id_def register_allocation_site_def
      Let_def split: option.splits prod.splits)

lemma bumped_live_inv:
  "runtime_inv s \<Longrightarrow> alloc_fits z s \<Longrightarrow> om_find (rt_allocations s) p = Some a \<Longrightarrow>
   runtime_inv (bumped z (al_type_hash a) (al_site_id a) s)"
  by (rule bumped_inv) (auto dest: live_type_registered)

lemma retired_step:
  assumes inv: "runtime_inv s" and q: "retired s q"
  shows "retired (apply_op x s) q"
proof (cases x)
  case (Reallocate p z)
  show ?thesis
  proof (cases "om_find (rt_allocations s) p")
    case None
    with q show ?thesis by (simp add: Reallocate reallocate_def)
  next
    case (Some a)
    then show ?thesis
      using q retired_bumped [OF inv _ q] bumped_live_inv [OF inv _ Some] retired_erase inv
      by (auto simp: Reallocate reallocate_def allocate_with_hash_eq Let_def)
  qed
qed (use assms in \<open>auto simp: allocate_def allocate_from_site_def allocate_from_pc_def release_def
      allocate_with_hash_eq retired_bumped retired_erase split: option.splits
      intro: retired_tables [OF registration_frames(1-3)]
        retired_tables [OF registration_frames(4-6)] retired_tables [OF registration_frames(7-9)]\<close>)

lemma retired_run: "runtime_inv s \<Longrightarrow> retired s q \<Longrightarrow> retired (run_ops ops s) q"
  by (induction ops arbitrary: s) (simp_all add: retired_step apply_op_inv)

lemma release_retires:
  assumes inv: "runtime_inv s" and c: "covers s a q"
  shows "retired (snd (release (al_base a) s)) q"
proof -
  have t: "snd (release (al_base a) s) =
      s\<lparr>rt_allocations := om_erase (al_base a) (rt_allocations s)\<rparr>"
    using c by (simp add: release_def covers_def)
  have "al_base d \<noteq> al_base a \<Longrightarrow> \<not> covers s d q" for d
    using covers_iff_eq [OF inv c] by auto
  then show ?thesis
    using covers_below_used [OF inv c] unfolding t retired_def covers_erase [OF inv] by auto
qed

text \<open>
  Property C4. Temporal safety without reuse: once an allocation has been released, every
  address of it is untracked in every later state, whatever registrations, allocations,
  releases and reallocations follow; a stale pointer into it is never accepted again, for
  any type and any extent.
\<close>

theorem released_never_accepted:
  assumes "reachable b n s" and "om_find (rt_allocations s) p = Some a"
    and "unat p \<le> unat q" and "unat q < unat p + unat (al_size a)"
  shows "fst (release p s) \<and> check q z ty (run_ops ops (snd (release p s))) = Untracked"
proof -
  note inv = reachable_imp_inv [OF assms(1)]
  have base: "al_base a = p"
    using inv assms(2) by (simp add: runtime_inv_def allocs_inv_def alloc_ok_def)
  have c: "covers s a q" using assms base by (simp add: covers_def)
  have r: "fst (release p s)" using assms by (simp add: release_def)
  have "runtime_inv (snd (release p s))" by (rule release_inv [OF inv])
  moreover from this have "retired (run_ops ops (snd (release p s))) q"
    using retired_run release_retires [OF inv c] base by simp
  ultimately show ?thesis
    using r check_uncovered run_ops_inv by (simp add: retired_def)
qed

theorem released_never_accepted_witness:
  "check 65540 8 100 demo = Check_ok \<and> fst (release 65536 demo) \<and>
   check 65540 8 100 (run_ops [Allocate_from_pc 24 4100] (snd (release 65536 demo))) = Untracked"
proof -
  let ?a = "\<lparr>al_base = 65536, al_size = 24, al_type_hash = 100, al_site_id = 7\<rparr>"
  have "check 65540 8 100 demo = Check_ok" by code_simp
  moreover have "om_find (rt_allocations demo) 65536 = Some ?a" by code_simp
  ultimately show ?thesis
    using released_never_accepted [OF demo_reachable, of 65536 ?a 65540 8 100 "[Allocate_from_pc 24 4100]"]
    by simp
qed

end
