(* ===== verification/RuntimeAuthority.thy ===== *)
theory RuntimeAuthority
  imports RuntimeSafety
begin

text \<open>
  Who decides what metadata says: fresh blocks, the outcome of site registration, the
  authority of the program counter, \<open>reallocate\<close>, and the provenance over a whole run of
  every type hash and site id found in live metadata.
\<close>

section \<open>Fresh blocks\<close>

text \<open>The result of any of the three allocation entry points.\<close>

datatype alloc_call = By_type u32 | By_site u32 | By_pc u64

fun do_alloc :: "alloc_call \<Rightarrow> u64 \<Rightarrow> runtime \<Rightarrow> u64 \<times> runtime" where
  "do_alloc (By_type t) z s = allocate z t s"
| "do_alloc (By_site i) z s = allocate_from_site z i s"
| "do_alloc (By_pc pc) z s = allocate_from_pc z pc s"

text \<open>The type and site a call is entitled to, from the trusted tables.\<close>

fun call_authority :: "alloc_call \<Rightarrow> runtime \<Rightarrow> (u64 \<times> u32) option" where
  "call_authority (By_type t) s = map_option (\<lambda>h. (h, 0)) (um_find (rt_types s) t)"
| "call_authority (By_site i) s = map_option (\<lambda>h. (h, i)) (um_find (rt_site_types s) i)"
| "call_authority (By_pc pc) s =
     map_option (\<lambda>d. (as_type_hash d, as_id d)) (find_site_unlocked pc s)"

lemma alloc_fits_nonzero: "alloc_fits z s \<Longrightarrow> z \<noteq> 0"
  by (auto simp: alloc_fits_def)

lemma do_alloc_eq:
  assumes "runtime_inv s"
  shows "do_alloc c z s = (case call_authority c s of None \<Rightarrow> (0, s)
    | Some (h, i) \<Rightarrow>
        if alloc_fits z s then (rt_base s + rt_used s, bumped z h i s) else (0, s))"
  using assms by (cases c)
    (auto simp: allocate_def allocate_from_site_def allocate_from_pc_def allocate_with_hash_eq
      dest: alloc_fits_nonzero split: option.splits)

lemma fresh_block:
  assumes inv: "runtime_inv s" and call: "do_alloc c z s = (r, t)" and "r \<noteq> 0"
  shows "\<exists>h i. call_authority c s = Some (h, i) \<and>
    om_find (rt_allocations t) = (om_find (rt_allocations s))
      (r \<mapsto> \<lparr>al_base = r, al_size = z, al_type_hash = h, al_site_id = i\<rparr>) \<and>
    unat (rt_base s) \<le> unat r \<and> unat r + unat z \<le> unat (rt_base s) + unat (rt_capacity s) \<and>
    8 dvd unat r - unat (rt_base s) \<and>
    (\<nexists>a q. covers s a q \<and> unat r \<le> unat q)"
proof -
  obtain h i where au: "call_authority c s = Some (h, i)" and fits: "alloc_fits z s"
    and r: "r = rt_base s + rt_used s" and t: "t = bumped z h i s"
    using call \<open>r \<noteq> 0\<close> by (auto simp: do_alloc_eq [OF inv] split: option.splits if_splits)
  have ur: "unat r = unat (rt_base s) + unat (rt_used s)"
    using bump_unat(1) [OF inv fits] by (simp add: r)
  have "\<nexists>a q. covers s a q \<and> unat r \<le> unat q"
    using covers_below_used(2) [OF inv] ur by fastforce
  moreover have "unat r + unat z \<le> unat (rt_base s) + unat (rt_capacity s)"
    using fits round8_props(1) [of "unat z"] ur unfolding alloc_fits_def by linarith
  moreover have "8 dvd unat r - unat (rt_base s)"
    using inv ur by (simp add: runtime_inv_def arena_inv_def)
  ultimately show ?thesis
    using au ur by (simp add: t bumped_find [OF inv fits] r new_allocation_def)
qed

text \<open>
  Property C5. A successful allocation is a fresh block: it lies inside the arena at an
  8-aligned offset, none of its bytes belongs to an allocation that was live before, every
  other live allocation keeps its metadata, and the new metadata is exactly the requested
  size with the type and site that the trusted tables assign to the call.
\<close>

theorem allocation_is_fresh:
  assumes "reachable b n s" and "do_alloc c z s = (r, t)" and "r \<noteq> 0"
  shows "\<exists>h i. call_authority c s = Some (h, i) \<and>
    om_find (rt_allocations t) = (om_find (rt_allocations s))
      (r \<mapsto> \<lparr>al_base = r, al_size = z, al_type_hash = h, al_site_id = i\<rparr>) \<and>
    unat (rt_base s) \<le> unat r \<and> unat r + unat z \<le> unat (rt_base s) + unat (rt_capacity s) \<and>
    8 dvd unat r - unat (rt_base s) \<and>
    (\<nexists>a q. covers s a q \<and> unat r \<le> unat q)"
  by (rule fresh_block [OF reachable_imp_inv [OF assms(1)] assms(2,3)])

theorem allocation_is_fresh_witness:
  "do_alloc (By_pc 4100) 5 demo = (65560, snd (do_alloc (By_pc 4100) 5 demo)) \<and>
   call_authority (By_pc 4100) demo = Some (100, 7) \<and> (\<nexists>a q. covers demo a q \<and> 65560 \<le> unat q)"
proof -
  have d: "do_alloc (By_pc 4100) 5 demo = (65560, snd (do_alloc (By_pc 4100) 5 demo))"
    by (simp add: prod_eq_iff) code_simp
  have "call_authority (By_pc 4100) demo = Some (100, 7)" by code_simp
  then show ?thesis using allocation_is_fresh [OF demo_reachable d] d by auto
qed

section \<open>Site registration\<close>

text \<open>The two-neighbour test of the code decides overlap with every registered site.\<close>

lemma site_neighbours_clear_iff:
  assumes si: "sites_inv s" and be: "b < e"
  shows "site_neighbours_clear b e (rt_sites s) \<longleftrightarrow>
      (\<nexists>d. om_find (rt_sites s) (as_begin d) = Some d \<and> as_begin d < e \<and> b < as_end d)"
proof -
  from si have s: "om_sorted (rt_sites s)"
    and dis: "intervals_disjoint (om_find (rt_sites s)) unat site_top"
    and key: "\<And>k d. om_find (rt_sites s) k = Some d \<Longrightarrow> as_begin d = k"
    by (auto simp: sites_inv_def site_ok_def)
  let ?d = "\<lparr>as_id = i, as_begin = b, as_end = e, as_type_id = t, as_type_hash = 0\<rparr>"
  have new: "unat b < site_top ?d" using be by (simp add: site_top_def word_less_nat_alt)
  have "\<exists>c w. om_find (rt_sites s) c = Some w \<and> unat c < site_top ?d \<and> unat b < site_top w"
    if "\<not> site_neighbours_clear b e (rt_sites s)"
    using that om.at_lower_Some [OF s] key
    by (intro sites.neighbours_blocked [OF s dis new])
       (fastforce simp: site_neighbours_clear_def site_top_def word_less_nat_alt
          split: option.splits prod.splits)
  then have blocked: "\<exists>d. om_find (rt_sites s) (as_begin d) = Some d \<and> as_begin d < e \<and> b < as_end d"
    if "\<not> site_neighbours_clear b e (rt_sites s)"
    using that key by (fastforce simp: site_top_def word_less_nat_alt)
  have "\<not> (as_begin d < e \<and> b < as_end d)"
    if c: "site_neighbours_clear b e (rt_sites s)" and d: "om_find (rt_sites s) (as_begin d) = Some d" for d
  proof -
    have fr: "om_find (rt_sites s) b = None"
      and dis': "intervals_disjoint ((om_find (rt_sites s))(b \<mapsto> ?d)) unat site_top"
      using site_neighbours_clear_fresh [OF si c be, of ?d] by simp_all
    from fr d have ne: "as_begin d \<noteq> b" by auto
    have d': "((om_find (rt_sites s))(b \<mapsto> ?d)) (as_begin d) = Some d" using d ne by simp
    from ne consider "as_begin d < b" | "b < as_begin d" by (meson linorder_neqE)
    then show ?thesis
    proof cases
      case 1
      then have "site_top d \<le> unat b" using intervals_disjointD [OF dis' d'] by simp
      then show ?thesis by (simp add: site_top_def word_less_nat_alt)
    next
      case 2
      then have "site_top ?d \<le> unat (as_begin d)" by (intro intervals_disjointD [OF dis' _ d', of b]) simp_all
      then show ?thesis by (simp add: site_top_def word_less_nat_alt)
    qed
  qed
  with blocked show ?thesis by blast
qed

text \<open>
  Property C6. Registering a code range as an allocation site succeeds exactly when its type
  is registered, its id is non-zero and new, the range is non-empty and does not start at
  address zero, and it overlaps no registered site; the two-neighbour test of the code
  decides overlap with all of them.
\<close>

theorem site_registration_iff:
  assumes "reachable b0 n s"
  shows "fst (register_allocation_site i b e t s) \<longleftrightarrow>
    um_find (rt_types s) t \<noteq> None \<and> i \<noteq> 0 \<and> um_find (rt_site_types s) i = None \<and>
    b \<noteq> 0 \<and> b < e \<and>
    (\<nexists>d. om_find (rt_sites s) (as_begin d) = Some d \<and> as_begin d < e \<and> b < as_end d)"
proof -
  note inv = reachable_imp_inv [OF assms]
  have si: "sites_inv s" using inv by (simp add: runtime_inv_def)
  then have ids: "\<And>k. um_find (rt_sites_by_id s) i = Some k \<Longrightarrow> um_find (rt_site_types s) i \<noteq> None"
    by (auto simp: sites_inv_def site_ok_def) blast
  show ?thesis
    using ids site_neighbours_clear_iff [OF si, of b e]
    by (cases "um_find (rt_sites_by_id s) i")
       (auto simp: register_allocation_site_eq [OF si] site_registrable_def split: option.splits)
qed

theorem site_registration_iff_witness:
  "fst (register_allocation_site 8 4112 4120 2 demo) \<and>
   \<not> fst (register_allocation_site 8 4111 4120 2 demo) \<and>
   um_find (rt_types demo) 2 \<noteq> None \<and> um_find (rt_site_types demo) 8 = None"
proof -
  have "fst (register_allocation_site 8 4112 4120 2 demo)"
    "\<not> fst (register_allocation_site 8 4111 4120 2 demo)" by code_simp+
  then show ?thesis
    using site_registration_iff [OF demo_reachable, of 8 4112 4120 2] by simp
qed

section \<open>Authority of the program counter\<close>

lemma pc_block:
  assumes "reachable b n s" and "allocate_from_pc z pc s = (r, t)" and "r \<noteq> 0"
  shows "\<exists>d. om_find (rt_sites s) (as_begin d) = Some d \<and> as_begin d \<le> pc \<and> pc < as_end d \<and>
    om_find (rt_allocations t) r = Some \<lparr>al_base = r, al_size = z,
      al_type_hash = as_type_hash d, al_site_id = as_id d\<rparr>"
proof -
  note inv = reachable_imp_inv [OF assms(1)]
  have call: "do_alloc (By_pc pc) z s = (r, t)" using assms(2) by simp
  then obtain d where d: "find_site_unlocked pc s = Some d"
    using assms(3) by (cases "find_site_unlocked pc s") (auto simp: allocate_from_pc_def)
  from fresh_block [OF inv call assms(3)] d
  have "om_find (rt_allocations t) r = Some \<lparr>al_base = r, al_size = z,
      al_type_hash = as_type_hash d, al_site_id = as_id d\<rparr>" by auto
  moreover have "om_find (rt_sites s) (as_begin d) = Some d \<and> as_begin d \<le> pc \<and> pc < as_end d"
    using d inv by (simp add: find_site_iff runtime_inv_def)
  ultimately show ?thesis by blast
qed

lemma pc_outside:
  assumes "runtime_inv s"
    and "\<nexists>d. om_find (rt_sites s) (as_begin d) = Some d \<and> as_begin d \<le> pc \<and> pc < as_end d"
  shows "allocate_from_pc z pc s = (0, s)"
proof -
  have "find_site_unlocked pc s = None"
    using find_site_iff [of s pc] assms by (cases "find_site_unlocked pc s") (auto simp: runtime_inv_def)
  then show ?thesis by (simp add: allocate_from_pc_def)
qed

text \<open>
  Property C7. Allocation by program counter is allocation-site provenance: the block gets
  the type and id of the registered site whose range contains the caller's counter, and
  from any counter outside every registered site nothing is allocated and nothing changes.
\<close>

theorem pc_authority:
  assumes "reachable b n s" and "allocate_from_pc z pc s = (r, t)"
  shows "(r \<noteq> 0 \<longrightarrow> (\<exists>d. om_find (rt_sites s) (as_begin d) = Some d \<and> as_begin d \<le> pc \<and> pc < as_end d \<and>
            om_find (rt_allocations t) r = Some \<lparr>al_base = r, al_size = z,
              al_type_hash = as_type_hash d, al_site_id = as_id d\<rparr>)) \<and>
         ((\<nexists>d. om_find (rt_sites s) (as_begin d) = Some d \<and> as_begin d \<le> pc \<and> pc < as_end d) \<longrightarrow>
            r = 0 \<and> t = s)"
  using pc_block [OF assms] pc_outside [OF reachable_imp_inv [OF assms(1)], of pc z] assms(2)
  by auto

theorem pc_authority_witness:
  "allocate_from_pc 24 4112 demo = (0, demo) \<and> fst (allocate_from_pc 24 4111 demo) = 65560"
proof -
  have d: "allocate_from_pc 24 4112 demo = (0, snd (allocate_from_pc 24 4112 demo))"
    by (simp add: prod_eq_iff) code_simp
  have "find_site_unlocked 4112 demo = None" by code_simp
  then have "\<nexists>d. om_find (rt_sites demo) (as_begin d) = Some d \<and> as_begin d \<le> 4112 \<and> 4112 < as_end d"
    using find_site_iff [of demo 4112] reachable_imp_inv [OF demo_reachable]
    by (auto simp: runtime_inv_def)
  then have "snd (allocate_from_pc 24 4112 demo) = demo"
    using pc_authority [OF demo_reachable d] by blast
  moreover have "fst (allocate_from_pc 24 4111 demo) = 65560" by code_simp
  ultimately show ?thesis using d by simp
qed

section \<open>Provenance over a run\<close>

text \<open>What the trusted tables owe to the registrations of a run.\<close>

definition site_source :: "runtime_op list \<Rightarrow> u32 \<Rightarrow> u32 \<Rightarrow> bool" where
  "site_source ops i t \<longleftrightarrow>
     Register_site_id i t \<in> set ops \<or> (\<exists>b e. Register_site i b e t \<in> set ops)"

definition tables_from :: "runtime_op list \<Rightarrow> runtime \<Rightarrow> bool" where
  "tables_from ops s \<longleftrightarrow>
     (\<forall>i h. um_find (rt_types s) i = Some h \<longrightarrow> Register_type i h \<in> set ops) \<and>
     (\<forall>i h. um_find (rt_site_types s) i = Some h \<longrightarrow>
        (\<exists>t. um_find (rt_types s) t = Some h \<and> site_source ops i t))"

lemma site_source_append: "site_source (ops @ [x]) i t \<longleftrightarrow> site_source ops i t \<or> site_source [x] i t"
  by (auto simp: site_source_def)

lemma tables_from_extend:
  assumes tf: "tables_from ops s"
    and types: "\<And>i h. um_find (rt_types t) i = Some h \<Longrightarrow>
      um_find (rt_types s) i = Some h \<or> x = Register_type i h"
    and grow: "um_find (rt_types s) \<subseteq>\<^sub>m um_find (rt_types t)"
    and site_types: "\<And>i h. um_find (rt_site_types t) i = Some h \<Longrightarrow>
      um_find (rt_site_types s) i = Some h \<or>
      (\<exists>u. um_find (rt_types t) u = Some h \<and> site_source [x] i u)"
  shows "tables_from (ops @ [x]) t"
  unfolding tables_from_def
proof (intro conjI allI impI)
  fix i h assume "um_find (rt_types t) i = Some h"
  with types tf show "Register_type i h \<in> set (ops @ [x])" by (fastforce simp: tables_from_def)
next
  fix i h assume "um_find (rt_site_types t) i = Some h"
  from site_types [OF this] show "\<exists>u. um_find (rt_types t) u = Some h \<and> site_source (ops @ [x]) i u"
  proof
    assume "um_find (rt_site_types s) i = Some h"
    with tf obtain u where "um_find (rt_types s) u = Some h" "site_source ops i u"
      unfolding tables_from_def by blast
    with map_le_Some [OF grow] show ?thesis by (auto simp: site_source_append)
  qed (auto simp: site_source_append)
qed

lemma allocation_tables:
  "runtime_inv s \<Longrightarrow> rt_types (snd (do_alloc c z s)) = rt_types s"
  "runtime_inv s \<Longrightarrow> rt_site_types (snd (do_alloc c z s)) = rt_site_types s"
  "rt_types (snd (release p s)) = rt_types s"
  "rt_site_types (snd (release p s)) = rt_site_types s"
  "runtime_inv s \<Longrightarrow> rt_types (snd (reallocate p z s)) = rt_types s"
  "runtime_inv s \<Longrightarrow> rt_site_types (snd (reallocate p z s)) = rt_site_types s"
  by (auto simp: do_alloc_eq release_def reallocate_def allocate_with_hash_eq Let_def
      split: option.splits)

lemma tables_from_same:
  "tables_from ops s \<Longrightarrow> rt_types t = rt_types s \<Longrightarrow> rt_site_types t = rt_site_types s \<Longrightarrow>
   tables_from (ops @ [x]) t"
  by (rule tables_from_extend) (auto simp: map_le_def)

lemma tables_from_step:
  assumes inv: "runtime_inv s" and tf: "tables_from ops s"
  shows "tables_from (ops @ [x]) (apply_op x s)"
proof (cases x)
  case (Register_type i h)
  then show ?thesis
    by (intro tables_from_extend [OF tf])
       (auto simp: register_type_def map_le_new split: if_splits)
next
  case (Register_site_id i t)
  then show ?thesis
    by (intro tables_from_extend [OF tf])
       (auto simp: register_allocation_site_id_def site_source_def split: option.splits if_splits)
next
  case (Register_site i b e t)
  then show ?thesis using inv
    by (intro tables_from_extend [OF tf])
       (auto simp: register_allocation_site_eq runtime_inv_def site_registrable_def
          site_source_def split: option.splits if_splits)
next
  case (Allocate z t)
  then show ?thesis
    using tables_from_same [OF tf allocation_tables(1,2) [OF inv, of "By_type t" z]] by simp
next
  case (Allocate_from_site z i)
  then show ?thesis
    using tables_from_same [OF tf allocation_tables(1,2) [OF inv, of "By_site i" z]] by simp
next
  case (Allocate_from_pc z pc)
  then show ?thesis
    using tables_from_same [OF tf allocation_tables(1,2) [OF inv, of "By_pc pc" z]] by simp
qed (use tables_from_same [OF tf] allocation_tables inv in auto)

lemma tables_from_run: "tables_from ops (run_ops ops (new_runtime b n))"
proof (induction ops rule: rev_induct)
  case Nil
  show ?case by (simp add: tables_from_def new_runtime_def)
next
  case (snoc x xs)
  then show ?case
    using tables_from_step reachable_imp_inv [OF reachable_run_new] by simp
qed

text \<open>
  Property C8. No type or site enters live metadata from untrusted data: after any run, the
  type hash of a live allocation was given to a \<open>register_type\<close> of that run, and its
  non-zero site id was registered in that run for exactly that type.
\<close>

theorem live_metadata_provenance:
  assumes "om_find (rt_allocations (run_ops ops (new_runtime b n))) p = Some a"
  shows "\<exists>t. Register_type t (al_type_hash a) \<in> set ops \<and>
    (al_site_id a = 0 \<or> Register_site_id (al_site_id a) t \<in> set ops \<or>
     (\<exists>x y. Register_site (al_site_id a) x y t \<in> set ops))"
proof -
  let ?s = "run_ops ops (new_runtime b n)"
  have inv: "runtime_inv ?s" by (rule reachable_imp_inv [OF reachable_run_new])
  note tf = tables_from_run [of ops b n]
  show ?thesis
  proof (cases "al_site_id a = 0")
    case True
    then show ?thesis using live_type_registered(1) [OF inv assms] tf
      by (auto simp: ran_def tables_from_def)
  next
    case False
    then show ?thesis using live_type_registered(2) [OF inv assms] tf
      unfolding tables_from_def site_source_def by blast
  qed
qed

theorem live_metadata_provenance_witness:
  "\<exists>t. Register_type t 100 \<in> set demo_ops \<and>
    ((7 :: u32) = 0 \<or> Register_site_id 7 t \<in> set demo_ops \<or> (\<exists>x y. Register_site 7 x y t \<in> set demo_ops))"
proof -
  have "om_find (rt_allocations (run_ops demo_ops (new_runtime 65536 4096))) 65536 =
      Some \<lparr>al_base = 65536, al_size = 24, al_type_hash = 100, al_site_id = 7\<rparr>" by code_simp
  from live_metadata_provenance [OF this] show ?thesis by simp
qed

section \<open>Reallocation\<close>

text \<open>
  Property C9. \<open>reallocate\<close> on a live block either fails and leaves the block and everything
  else as it was (the arena is full), or moves it: the new block is fresh, keeps the type
  and the site of the old one, has the new size, and the old block is no longer live; size
  zero releases it.
\<close>

theorem reallocate_spec:
  assumes "reachable b n s" and "om_find (rt_allocations s) p = Some a"
  shows "reallocate p 0 s = (0, snd (release p s)) \<and>
    (z \<noteq> 0 \<longrightarrow> alloc_fits z s \<longrightarrow> rt_base s + rt_used s \<noteq> 0 \<longrightarrow>
      fst (reallocate p z s) = rt_base s + rt_used s \<and>
      om_find (rt_allocations (snd (reallocate p z s))) =
        (om_find (rt_allocations s))(rt_base s + rt_used s \<mapsto>
           \<lparr>al_base = rt_base s + rt_used s, al_size = z, al_type_hash = al_type_hash a,
            al_site_id = al_site_id a\<rparr>, p := None)) \<and>
    (z \<noteq> 0 \<longrightarrow> \<not> alloc_fits z s \<longrightarrow> reallocate p z s = (0, s))"
proof -
  note inv = reachable_imp_inv [OF assms(1)]
  have s: "om_sorted (rt_allocations (bumped z (al_type_hash a) (al_site_id a) s))" if "alloc_fits z s"
    using bumped_live_inv [OF inv that assms(2)] by (simp add: runtime_inv_def allocs_inv_def)
  show ?thesis using assms(2)
    by (auto simp: reallocate_def release_def allocate_with_hash_eq [OF inv] om_erase_find [OF s]
        bumped_find [OF inv] new_allocation_def)
qed

theorem reallocate_spec_witness:
  "fst (reallocate 65536 40 demo) = 65560 \<and>
   check 65561 39 100 (snd (reallocate 65536 40 demo)) = Check_ok \<and>
   check 65536 1 100 (snd (reallocate 65536 40 demo)) = Untracked"
proof -
  have a: "om_find (rt_allocations demo) 65536 =
      Some \<lparr>al_base = 65536, al_size = 24, al_type_hash = 100, al_site_id = 7\<rparr>" by code_simp
  have "alloc_fits 40 demo" "rt_base demo + rt_used demo = 65560" by code_simp+
  then have "fst (reallocate 65536 40 demo) = 65560"
    using reallocate_spec [OF demo_reachable a, of 40] by simp
  moreover have "check 65561 39 100 (snd (reallocate 65536 40 demo)) = Check_ok"
    "check 65536 1 100 (snd (reallocate 65536 40 demo)) = Untracked" by code_simp+
  ultimately show ?thesis by simp
qed

section \<open>An arena at address zero\<close>

text \<open>
  Property C10. The runtime accepts an arena that starts at address zero, and then its first
  allocation is lost: it returns 0, the failure value, while the metadata records a live
  allocation at address zero and the arena is consumed.
\<close>

theorem zero_base_allocation_lost:
  assumes "um_find (rt_types s) t = Some h" and "runtime_inv s" and "rt_base s = 0" and "rt_used s = 0" and "alloc_fits z s"
  shows "fst (allocate z t s) = 0 \<and> check 0 z h (snd (allocate z t s)) = Check_ok \<and>
    0 < unat (rt_used (snd (allocate z t s)))"
proof -
  note inv = assms(2)
  have z: "z \<noteq> 0" using assms(5) by (rule alloc_fits_nonzero)
  have al: "allocate z t s = (0, bumped z h 0 s)"
    using assms z by (simp add: allocate_def allocate_with_hash_eq)
  have inv': "runtime_inv (bumped z h 0 s)" using assms by (auto intro: bumped_inv ranI)
  have "covers (bumped z h 0 s) (new_allocation z h 0 s) 0"
    using assms z by (simp add: covers_bumped unat_gt_0)
  then have "check 0 z h (bumped z h 0 s) = Check_ok"
    by (simp add: check_covered [OF inv'] new_allocation_def)
  then show ?thesis
    using al z bump_unat(2) [OF inv assms(5)] by (simp add: unat_gt_0)
qed

theorem zero_base_allocation_lost_witness:
  "fst (allocate 16 1 (run_ops [Register_type 1 100] (new_runtime 0 4096))) = 0 \<and>
   check 0 16 100 (snd (allocate 16 1 (run_ops [Register_type 1 100] (new_runtime 0 4096)))) = Check_ok"
proof -
  let ?s = "run_ops [Register_type 1 100] (new_runtime 0 4096)"
  have f: "um_find (rt_types ?s) 1 = Some 100" and "rt_base ?s = 0" and "rt_used ?s = 0"
    and "alloc_fits 16 ?s" by code_simp+
  then show ?thesis
    using zero_base_allocation_lost [OF f reachable_imp_inv [OF reachable_run_new], of 16]
    by simp
qed

end
