(* ===== verification/RuntimeLedger.thy ===== *)
theory RuntimeLedger
  imports RuntimeAuthority
begin

text \<open>
  The abstract specification of the allocator: a ledger over unbounded natural numbers, with
  a bump offset that never moves back and a partial map from block addresses to size, type
  and site.  The refinement theorem says that the runtime, with its 64-bit arithmetic, its
  ordered map and its early returns, computes exactly the ledger's operations.
\<close>

record block =
  bl_size :: nat
  bl_type :: u64
  bl_site :: u32

record ledger =
  lg_next :: nat
  lg_live :: "nat \<rightharpoonup> block"

definition ledger_alloc ::
    "nat \<Rightarrow> nat \<Rightarrow> nat \<Rightarrow> u64 \<Rightarrow> u32 \<Rightarrow> ledger \<Rightarrow> nat option \<times> ledger" where
  "ledger_alloc base cap n h i L =
     (if 0 < n \<and> lg_next L + round8 n \<le> cap
      then (Some (base + lg_next L),
            L\<lparr>lg_next := lg_next L + round8 n,
              lg_live := (lg_live L)(base + lg_next L \<mapsto> \<lparr>bl_size = n, bl_type = h, bl_site = i\<rparr>)\<rparr>)
      else (None, L))"

definition ledger_release :: "nat \<Rightarrow> ledger \<Rightarrow> bool \<times> ledger" where
  "ledger_release p L = (lg_live L p \<noteq> None, L\<lparr>lg_live := (lg_live L)(p := None)\<rparr>)"

definition ledger_realloc :: "nat \<Rightarrow> nat \<Rightarrow> nat \<Rightarrow> nat \<Rightarrow> ledger \<Rightarrow> nat option \<times> ledger" where
  "ledger_realloc base cap p n L =
     (case lg_live L p of
        None \<Rightarrow> (None, L)
      | Some blk \<Rightarrow>
          if n = 0 then (None, snd (ledger_release p L))
          else (case ledger_alloc base cap n (bl_type blk) (bl_site blk) L of
              (None, L') \<Rightarrow> (None, L')
            | (Some q, L') \<Rightarrow> (Some q, snd (ledger_release p L'))))"

text \<open>The ledger of a runtime state, and the address a runtime result stands for.\<close>

definition block_of :: "allocation \<Rightarrow> block" where
  "block_of a = \<lparr>bl_size = unat (al_size a), bl_type = al_type_hash a, bl_site = al_site_id a\<rparr>"

definition ledger_of :: "runtime \<Rightarrow> ledger" where
  "ledger_of s =
     \<lparr>lg_next = unat (rt_used s),
      lg_live = (\<lambda>x. if x < 2 ^ 64
                     then map_option block_of (om_find (rt_allocations s) (word_of_nat x)) else None)\<rparr>"

definition result_of :: "u64 \<Rightarrow> nat option" where
  "result_of r = (if r = 0 then None else Some (unat r))"

lemma word_of_nat_eq_iff: "x < 2 ^ 64 \<Longrightarrow> (word_of_nat x :: u64) = k \<longleftrightarrow> x = unat k"
  by (auto simp: unat_of_nat)

lemma ledger_live_unat [simp]:
  "lg_live (ledger_of s) (unat p) = map_option block_of (om_find (rt_allocations s) p)"
  by (simp add: ledger_of_def)

lemma ledger_next [simp]: "lg_next (ledger_of s) = unat (rt_used s)"
  by (simp add: ledger_of_def)

lemma ledger_of_update:
  assumes "om_find (rt_allocations t) = (om_find (rt_allocations s))(k := x)"
  shows "lg_live (ledger_of t) = (lg_live (ledger_of s))(unat k := map_option block_of x)"
  using assms by (auto simp: ledger_of_def fun_eq_iff word_of_nat_eq_iff)

lemma ledger_eqI:
  "lg_next L = lg_next M \<Longrightarrow> lg_live L = lg_live M \<Longrightarrow> L = (M :: ledger)"
  by (cases L; cases M) simp

lemma ledger_of_bumped:
  assumes inv: "runtime_inv s" and fits: "alloc_fits z s"
  shows "ledger_of (bumped z h i s) = (ledger_of s)\<lparr>lg_next := unat (rt_used s) + round8 (unat z),
    lg_live := (lg_live (ledger_of s))(unat (rt_base s) + unat (rt_used s) \<mapsto>
      \<lparr>bl_size = unat z, bl_type = h, bl_site = i\<rparr>)\<rparr>"
  using ledger_of_update [OF bumped_find [OF inv fits]] bump_unat [OF inv fits]
  by (intro ledger_eqI) (simp_all add: block_of_def new_allocation_def)

lemma ledger_of_erase:
  assumes "runtime_inv s"
  shows "ledger_of (s\<lparr>rt_allocations := om_erase p (rt_allocations s)\<rparr>) =
         snd (ledger_release (unat p) (ledger_of s))"
proof -
  have "om_find (om_erase p (rt_allocations s)) = (om_find (rt_allocations s))(p := None)"
    using assms by (simp add: om_erase_find runtime_inv_def allocs_inv_def)
  then show ?thesis
    using ledger_of_update [of "s\<lparr>rt_allocations := om_erase p (rt_allocations s)\<rparr>" s p None]
    by (intro ledger_eqI) (simp_all add: ledger_release_def)
qed

text \<open>The states in which 0 is no block address: a valid arena away from address zero.\<close>

definition proper_arena :: "runtime \<Rightarrow> bool" where
  "proper_arena s \<longleftrightarrow> rt_arena_valid s \<and> rt_base s \<noteq> 0"

lemma bump_nonzero:
  "runtime_inv s \<Longrightarrow> alloc_fits z s \<Longrightarrow> proper_arena s \<Longrightarrow> rt_base s + rt_used s \<noteq> 0"
  using bump_unat(1) [of s z] by (auto simp: proper_arena_def unat_eq_zero dest: arg_cong [of _ _ unat])

lemma ledger_alloc_refines:
  assumes inv: "runtime_inv s" and ok: "proper_arena s"
  shows "ledger_alloc (unat (rt_base s)) (unat (rt_capacity s)) (unat z) h i (ledger_of s) =
    map_prod result_of ledger_of (allocate_with_hash_unlocked z h i s)"
proof (cases "alloc_fits z s")
  case True
  then show ?thesis
    using bump_nonzero [OF inv True ok] bump_unat(1) [OF inv True]
    by (simp add: allocate_with_hash_eq [OF inv] ledger_alloc_def ledger_of_bumped [OF inv True]
        alloc_fits_def result_of_def)
next
  case False
  then show ?thesis using ok
    by (auto simp: allocate_with_hash_eq [OF inv] ledger_alloc_def alloc_fits_def result_of_def
        proper_arena_def)
qed

lemma ledger_release_refines:
  assumes "runtime_inv s"
  shows "ledger_release (unat p) (ledger_of s) = map_prod id ledger_of (release p s)"
proof (cases "om_find (rt_allocations s) p")
  case None
  then show ?thesis by (simp add: ledger_release_def release_def fun_upd_idem)
next
  case (Some a)
  then show ?thesis using ledger_of_erase [OF assms, of p]
    by (simp add: release_def ledger_release_def)
qed

lemma ledger_realloc_refines:
  assumes inv: "runtime_inv s" and ok: "proper_arena s"
  shows "ledger_realloc (unat (rt_base s)) (unat (rt_capacity s)) (unat p) (unat z) (ledger_of s) =
    map_prod result_of ledger_of (reallocate p z s)"
proof (cases "om_find (rt_allocations s) p")
  case None
  then show ?thesis by (simp add: ledger_realloc_def reallocate_def result_of_def)
next
  case (Some a)
  show ?thesis
  proof (cases "z = 0")
    case True
    with Some show ?thesis
      by (simp add: ledger_realloc_def reallocate_def result_of_def ledger_of_erase [OF inv])
  next
    case z: False
    have la: "ledger_alloc (unat (rt_base s)) (unat (rt_capacity s)) (unat z) (al_type_hash a)
        (al_site_id a) (ledger_of s) =
        (if alloc_fits z s then (Some (unat (rt_base s + rt_used s)),
           ledger_of (bumped z (al_type_hash a) (al_site_id a) s)) else (None, ledger_of s))"
      using bump_nonzero [OF inv _ ok]
      by (simp add: ledger_alloc_refines [OF inv ok] allocate_with_hash_eq [OF inv] result_of_def)
    show ?thesis
      using Some z bump_nonzero [OF inv _ ok] bumped_live_inv [OF inv _ Some]
      by (auto simp: ledger_realloc_def la block_of_def reallocate_def unat_eq_zero
          allocate_with_hash_eq [OF inv] result_of_def ledger_of_erase)
  qed
qed

text \<open>
  Property C11. Refinement: on every reachable state over a valid arena away from address
  zero, allocation with a resolved type and site, \<open>release\<close> and \<open>reallocate\<close> compute
  exactly the abstract ledger's operations on unbounded numbers, results included.
\<close>

theorem runtime_refines_ledger:
  assumes "reachable b n s" and "proper_arena s"
  shows "map_prod result_of ledger_of (allocate_with_hash_unlocked z h i s) =
      ledger_alloc (unat (rt_base s)) (unat (rt_capacity s)) (unat z) h i (ledger_of s) \<and>
    map_prod id ledger_of (release p s) = ledger_release (unat p) (ledger_of s) \<and>
    map_prod result_of ledger_of (reallocate p z s) =
      ledger_realloc (unat (rt_base s)) (unat (rt_capacity s)) (unat p) (unat z) (ledger_of s)"
  using ledger_alloc_refines ledger_release_refines ledger_realloc_refines
    reachable_imp_inv [OF assms(1)] assms(2) by simp

theorem runtime_refines_ledger_witness:
  "fst (ledger_alloc 65536 4096 9 100 7 (ledger_of demo)) = Some 65560"
proof -
  have "proper_arena demo" "rt_base demo = 65536" "rt_capacity demo = 4096"
    "fst (allocate_with_hash_unlocked 9 100 7 demo) = 65560" by code_simp+
  then show ?thesis
    using runtime_refines_ledger [OF demo_reachable, of 9 100 7]
    by (auto simp: result_of_def prod_eq_iff)
qed

end
