(* ===== verification/PolicyRuntime.thy ===== *)
theory PolicyRuntime
  imports RuntimeLedger
begin

text \<open>
  \<^verbatim>\<open>include/interspec/policy_runtime.h\<close>: class \<open>PolicyRuntime\<close>, which binds a
  generated policy and a sandbox backend to the runtime.  The generated registration
  functions are arguments; the backend is a record of the three members the class calls.
\<close>

text \<open>The members of \<open>SandboxImpl\<close> that the class uses, as the values they return.\<close>

record sandbox_impl =
  lookup_symbol_address :: "string \<Rightarrow> u64"
  callback_program_counter :: u64
  callback_new_program_counter :: u64

text \<open>\<open>initialize\<close>: the types first, and the sites only if every type was registered.\<close>

definition initialize ::
    "(runtime \<Rightarrow> bool \<times> runtime) \<Rightarrow> (runtime \<Rightarrow> (string \<Rightarrow> u64) \<Rightarrow> bool \<times> runtime) \<Rightarrow>
     (string \<Rightarrow> u64) \<Rightarrow> runtime \<Rightarrow> bool \<times> runtime" where
  "initialize register_types register_sites resolve s =
     (case register_types s of
        (ok, s') \<Rightarrow> if \<not> ok then (False, s') else register_sites s' resolve)"

definition initialize_from_sandbox ::
    "sandbox_impl \<Rightarrow> (runtime \<Rightarrow> bool \<times> runtime) \<Rightarrow>
     (runtime \<Rightarrow> (string \<Rightarrow> u64) \<Rightarrow> bool \<times> runtime) \<Rightarrow> runtime \<Rightarrow> bool \<times> runtime" where
  "initialize_from_sandbox impl register_types register_sites s =
     initialize register_types register_sites (lookup_symbol_address impl) s"

definition allocate_from_callback :: "sandbox_impl \<Rightarrow> u64 \<Rightarrow> runtime \<Rightarrow> u64 \<times> runtime" where
  "allocate_from_callback impl sz s =
     (let pc = callback_program_counter impl;
          (r, s1) = allocate_from_pc sz pc s
      in if r \<noteq> 0 then (r, s1)
         else (let next_pc = callback_new_program_counter impl
               in if next_pc \<noteq> 0 \<and> next_pc \<noteq> pc then allocate_from_pc sz next_pc s1 else (r, s1)))"

lemma allocate_from_callback_inv:
  "runtime_inv s \<Longrightarrow> runtime_inv (snd (allocate_from_callback impl z s))"
proof -
  assume inv: "runtime_inv s"
  then have "runtime_inv (snd (allocate_from_pc z (callback_program_counter impl) s))"
    by (rule allocate_from_pc_inv)
  with allocate_from_pc_inv show ?thesis
    by (auto simp: allocate_from_callback_def Let_def split: prod.splits)
qed

lemma alloc_from_pc_cases:
  assumes inv: "runtime_inv s" and a: "allocate_from_pc z pc s = (r, t)"
  shows "r = 0 \<and> t = s \<or> (\<exists>d. om_find (rt_sites s) (as_begin d) = Some d \<and> as_begin d \<le> pc \<and> pc < as_end d \<and>
     r = rt_base s + rt_used s \<and> alloc_fits z s \<and> t = bumped z (as_type_hash d) (as_id d) s)"
proof -
  have "do_alloc (By_pc pc) z s = (r, t)" using a by simp
  then show ?thesis
    using inv find_site_iff [of s pc]
    by (auto simp: do_alloc_eq runtime_inv_def simp del: do_alloc.simps split: option.splits if_splits)
qed

text \<open>A block at \<open>p\<close> of the type and id of the registered site that holds the counter.\<close>

definition site_block :: "runtime \<Rightarrow> runtime \<Rightarrow> u64 \<Rightarrow> u64 \<Rightarrow> u64 \<Rightarrow> bool" where
  "site_block s t z pc p \<longleftrightarrow>
     (\<exists>d. om_find (rt_sites s) (as_begin d) = Some d \<and> as_begin d \<le> pc \<and> pc < as_end d \<and>
        om_find (rt_allocations t) p = Some \<lparr>al_base = p, al_size = z,
          al_type_hash = as_type_hash d, al_site_id = as_id d\<rparr>)"

text \<open>One attempt: refused without a change, or a block at the end of the used part.\<close>

lemma alloc_from_pc_attempt:
  assumes inv: "runtime_inv s" and a: "allocate_from_pc z pc s = (r, t)"
  shows "r = 0 \<and> t = s \<or>
    (r = rt_base s + rt_used s \<and> site_block s t z pc r \<and> rt_sites t = rt_sites s \<and> rt_base t = rt_base s \<and>
     unat r = unat (rt_base s) + unat (rt_used s) \<and> rt_used t \<noteq> 0)"
proof (cases "r = 0 \<and> t = s")
  case False
  with alloc_from_pc_cases [OF inv a] obtain d where
    d: "om_find (rt_sites s) (as_begin d) = Some d" "as_begin d \<le> pc" "pc < as_end d"
    and r: "r = rt_base s + rt_used s" and fits: "alloc_fits z s"
    and t: "t = bumped z (as_type_hash d) (as_id d) s" by blast
  have "om_find (rt_allocations t) r = Some \<lparr>al_base = r, al_size = z,
      al_type_hash = as_type_hash d, al_site_id = as_id d\<rparr>"
    by (simp add: t r bumped_find [OF inv fits] new_allocation_def)
  with d have "site_block s t z pc r" by (auto simp: site_block_def)
  moreover have "0 < unat (rt_used t)"
    using bump_unat(2) [OF inv fits] round8_props(1) [of "unat z"] fits by (simp add: t alloc_fits_def)
  moreover have "unat r = unat (rt_base s) + unat (rt_used s)" unfolding r by (rule bump_unat(1) [OF inv fits])
  ultimately show ?thesis using r by (auto simp: t)
qed simp

text \<open>
  Property C12. The callback allocator fails closed: whatever the sandbox asks for, a block
  is handed out only when one of the two trusted program counters lies inside a registered
  site, and then with that site's type and id.  When no block is handed out nothing changes,
  with one exception: in an arena at address 0 of which nothing is used yet, an authorised
  request returns 0 although its block is recorded at address 0, with the site's type and id.
  No condition is put on the arena, its address or its state.
\<close>

theorem callback_authority:
  assumes reach: "reachable b n s" and call: "allocate_from_callback impl z s = (r, t)"
  shows "(r \<noteq> 0 \<longrightarrow> site_block s t z (callback_program_counter impl) r \<or>
            site_block s t z (callback_new_program_counter impl) r) \<and>
         (r = 0 \<longrightarrow> t = s \<or> rt_base s = 0 \<and> rt_used s = 0 \<and>
            (site_block s t z (callback_program_counter impl) 0 \<or>
             site_block s t z (callback_new_program_counter impl) 0))"
proof -
  let ?pc = "callback_program_counter impl" and ?npc = "callback_new_program_counter impl"
  note inv = reachable_imp_inv [OF reach]
  have zero: "rt_base s = 0 \<and> rt_used s = 0" if "unat (0 :: u64) = unat (rt_base s) + unat (rt_used s)"
    using that by (simp add: unat_eq_zero)
  obtain r1 s1 where first: "allocate_from_pc z ?pc s = (r1, s1)" by fastforce
  note one = alloc_from_pc_attempt [OF inv first]
  show ?thesis
  proof (cases "r1 = 0 \<and> ?npc \<noteq> 0 \<and> ?npc \<noteq> ?pc")
    case False
    then have "r = r1" "t = s1" using call first by (auto simp: allocate_from_callback_def Let_def split: if_splits)
    then show ?thesis using one zero by auto
  next
    case True
    then have second: "allocate_from_pc z ?npc s1 = (r, t)" and r1: "r1 = 0"
      using call first by (simp_all add: allocate_from_callback_def Let_def)
    show ?thesis
    proof (cases "s1 = s")
      case True
      then show ?thesis using alloc_from_pc_attempt [OF inv] second zero by (metis (no_types, lifting))
    next
      case False
      then have s1: "rt_base s = 0" "rt_used s = 0" "site_block s s1 z ?pc 0" "rt_sites s1 = rt_sites s"
        "rt_base s1 = rt_base s" "rt_used s1 \<noteq> 0" using one r1 zero by auto
      have "runtime_inv s1" using allocate_from_pc_inv [OF inv, of z ?pc] first by simp
      note two = alloc_from_pc_attempt [OF this second]
      have "rt_base s1 + rt_used s1 \<noteq> 0" using s1 by simp
      with two s1 show ?thesis by (auto simp: site_block_def)
    qed
  qed
qed

theorem callback_authority_witness:
  "fst (allocate_from_callback \<lparr>lookup_symbol_address = (\<lambda>_. 0), callback_program_counter = 4112,
      callback_new_program_counter = 4096\<rparr> 8 demo) = 65560 \<and>
   allocate_from_callback \<lparr>lookup_symbol_address = (\<lambda>_. 0), callback_program_counter = 4112,
      callback_new_program_counter = 0\<rparr> 8 demo = (0, demo)"
proof -
  let ?i = "\<lparr>lookup_symbol_address = (\<lambda>_. 0), callback_program_counter = 4112,
      callback_new_program_counter = 0\<rparr> :: sandbox_impl"
  have c: "allocate_from_callback ?i 8 demo = (0, snd (allocate_from_callback ?i 8 demo))"
    by (simp add: prod_eq_iff) code_simp
  have "rt_base demo \<noteq> 0" by code_simp
  then have "snd (allocate_from_callback ?i 8 demo) = demo"
    using callback_authority [OF demo_reachable c] by simp
  moreover have "fst (allocate_from_callback \<lparr>lookup_symbol_address = (\<lambda>_. 0),
      callback_program_counter = 4112, callback_new_program_counter = 4096\<rparr> 8 demo) = 65560"
    by code_simp
  ultimately show ?thesis using c by simp
qed

end
