(* ===== verification/EmittedPolicy.thy ===== *)
theory EmittedPolicy
  imports BoundaryPolicy WasmPolicy PolicyRuntime
begin

text \<open>
  What the emitted trusted headers do when they run: the C++ text that the three generators
  write (registration of types and sites, and the checks of trusted uses), on the model of
  the runtime.  The tables are the rows the generators compute; a named constant is looked up
  by its identifier, as the C++ compiler does.
\<close>

section \<open>Constants and tables\<close>

text \<open>\<open>kTypeId<ident>\<close> and \<open>kTypeHash<ident>\<close>; a program with two of one name does not compile.\<close>

definition type_constants :: "(string \<times> nat) list \<Rightarrow> (string \<times> u32 \<times> u64) list" where
  "type_constants ids =
     map (\<lambda>(name, type_id). (cpp name, word_of_nat type_id, word_of_nat (hash_type name))) ids"

definition k_type_id :: "(string \<times> nat) list \<Rightarrow> string \<Rightarrow> u32" where
  "k_type_id ids ident = (case map_of (type_constants ids) ident of None \<Rightarrow> 0 | Some (i, _) \<Rightarrow> i)"

definition k_type_hash :: "(string \<times> nat) list \<Rightarrow> string \<Rightarrow> u64" where
  "k_type_hash ids ident = (case map_of (type_constants ids) ident of None \<Rightarrow> 0 | Some (_, h) \<Rightarrow> h)"

text \<open>The calls of \<open>register_types\<close>: \<open>ok = runtime.register_type(...) && ok\<close>, in order.\<close>

definition emitted_register_types :: "(string \<times> nat) list \<Rightarrow> runtime \<Rightarrow> bool \<times> runtime" where
  "emitted_register_types ids s =
     fold (\<lambda>(name, _) (ok, s).
            let (r, s') = register_type (k_type_id ids (cpp name)) (k_type_hash ids (cpp name)) s
            in (r \<and> ok, s')) ids (True, s)"

text \<open>
  The loop of \<open>register_allocation_sites\<close> and of \<open>register_helper_allocation_sites\<close> over a
  table of rows (site id, type id, begin label, end label).
\<close>

type_synonym site_const = "u32 \<times> u32 \<times> string \<times> string"

definition site_constants :: "(string \<times> nat) list \<Rightarrow> site_row list \<Rightarrow> site_const list" where
  "site_constants ids entries =
     map (\<lambda>(site_id, ident, b, e). (word_of_nat site_id, k_type_id ids ident, b, e)) entries"

fun emitted_register_sites :: "site_const list \<Rightarrow> runtime \<Rightarrow> (string \<Rightarrow> u64) \<Rightarrow> bool \<times> runtime" where
  "emitted_register_sites [] s resolve = (True, s)"
| "emitted_register_sites ((site_id, type_id, begin_symbol, end_symbol) # rows) s resolve =
     (let b = resolve begin_symbol; e = resolve end_symbol in
      if b = 0 \<or> e = 0 then (False, s)
      else (case register_allocation_site site_id b e type_id s of
              (ok, s') \<Rightarrow> if \<not> ok then (False, s') else emitted_register_sites rows s' resolve))"

text \<open>\<open>register_allocation_policy\<close>: the source sites, then the helper sites.\<close>

definition emitted_register_policy ::
    "site_const list \<Rightarrow> site_const list \<Rightarrow> runtime \<Rightarrow> (string \<Rightarrow> u64) \<Rightarrow> bool \<times> runtime" where
  "emitted_register_policy sites helpers s resolve =
     (case emitted_register_sites sites s resolve of
        (ok, s') \<Rightarrow> if \<not> ok then (False, s') else emitted_register_sites helpers s' resolve)"

text \<open>The loop of \<open>register_wasm_allocation_policy\<close>.\<close>

fun emitted_register_wasm :: "(u32 \<times> u32) list \<Rightarrow> runtime \<Rightarrow> bool \<times> runtime" where
  "emitted_register_wasm [] s = (True, s)"
| "emitted_register_wasm ((site_id, type_id) # rows) s =
     (case register_allocation_site_id site_id type_id s of
        (ok, s') \<Rightarrow> if \<not> ok then (False, s') else emitted_register_wasm rows s')"

definition wasm_constants :: "(string \<times> nat) list \<Rightarrow> wasm_site list \<Rightarrow> (u32 \<times> u32) list" where
  "wasm_constants ids records =
     map (\<lambda>r. (word_of_int (ws_site_id r), k_type_id ids (cpp (ws_type r)))) records"

section \<open>Checks of trusted uses\<close>

record access_policy =
  ap_type_hash :: u64
  ap_offset :: u64
  ap_bytes :: u64

text \<open>\<open>CheckedAccess\<close>\<close>

record access_result =
  ar_result :: check_result
  ar_address :: u64
  ar_bytes :: u64

definition refused :: "check_result \<Rightarrow> access_result" where
  "refused r = \<lparr>ar_result = r, ar_address = 0, ar_bytes = 0\<rparr>"

definition checked_access :: "runtime \<Rightarrow> u64 \<Rightarrow> access_policy \<Rightarrow> access_result" where
  "checked_access s base pol =
     (if ap_offset pol > u64_max - ap_bytes pol then refused Out_of_bounds
      else
        (let extent = ap_offset pol + ap_bytes pol;
             result = check base extent (ap_type_hash pol) s
         in if result \<noteq> Check_ok then refused result
            else \<lparr>ar_result = result, ar_address = base + ap_offset pol, ar_bytes = ap_bytes pol\<rparr>))"

definition policy_check :: "runtime \<Rightarrow> u64 \<Rightarrow> access_policy \<Rightarrow> check_result" where
  "policy_check s base pol = ar_result (checked_access s base pol)"

definition checked_dynamic_access :: "runtime \<Rightarrow> u64 \<Rightarrow> u64 \<Rightarrow> access_policy \<Rightarrow> access_result" where
  "checked_dynamic_access s base dynamic_bytes pol =
     (if ap_bytes pol \<noteq> 0 \<or> ap_offset pol > u64_max - dynamic_bytes then refused Out_of_bounds
      else
        (let extent = ap_offset pol + dynamic_bytes;
             result = check base extent (ap_type_hash pol) s
         in if result \<noteq> Check_ok then refused result
            else \<lparr>ar_result = result, ar_address = base + ap_offset pol, ar_bytes = dynamic_bytes\<rparr>))"

definition check_dynamic :: "runtime \<Rightarrow> u64 \<Rightarrow> u64 \<Rightarrow> access_policy \<Rightarrow> check_result" where
  "check_dynamic s base dynamic_bytes pol = ar_result (checked_dynamic_access s base dynamic_bytes pol)"

text \<open>The check of the wasm header: a fixed size if the policy has one, the dynamic size otherwise.\<close>

definition wasm_check :: "runtime \<Rightarrow> u64 \<Rightarrow> u64 \<Rightarrow> access_policy \<Rightarrow> check_result" where
  "wasm_check s base dynamic_bytes pol =
     (let bytes = (if ap_bytes pol \<noteq> 0 then ap_bytes pol else dynamic_bytes) in
      if ap_offset pol > u64_max - bytes then Out_of_bounds
      else check base (ap_offset pol + bytes) (ap_type_hash pol) s)"

section \<open>What a successful check means\<close>

text \<open>
  The contract the emitted checks rely on: an extent check over states with an invariant
  accepts exactly the extents inside a typed live object, and no object reaches the end of
  the address space.
\<close>

locale extent_checker =
  fixes inv :: "'s \<Rightarrow> bool"
    and chk :: "u64 \<Rightarrow> u64 \<Rightarrow> u64 \<Rightarrow> 's \<Rightarrow> check_result"
    and obj :: "'s \<Rightarrow> u64 \<Rightarrow> nat \<Rightarrow> nat \<Rightarrow> bool"
  assumes chk_ok: "inv s \<Longrightarrow> chk p z ty s = Check_ok \<longleftrightarrow>
      (\<exists>lo hi. obj s ty lo hi \<and> lo \<le> unat p \<and> unat p < hi \<and> unat p + unat z \<le> hi)"
    and obj_top: "inv s \<Longrightarrow> obj s ty lo hi \<Longrightarrow> hi < 2 ^ 64"
begin

text \<open>A field at an offset, guarded against wrap-around, is inside the object.\<close>

lemma field_inside:
  assumes "inv s" and "unat f + unat n < 2 ^ 64" and "chk p (f + n) ty s = Check_ok"
  shows "\<exists>lo hi. obj s ty lo hi \<and> lo \<le> unat p \<and> unat p < hi \<and>
    unat (p + f) = unat p + unat f \<and> unat (p + f) + unat n \<le> hi"
proof -
  obtain lo hi where o: "obj s ty lo hi" "lo \<le> unat p" "unat p < hi" "unat p + unat (f + n) \<le> hi"
    using chk_ok [OF assms(1)] assms(3) by blast
  then have "unat p + unat f + unat n \<le> hi" using assms(2) by (simp add: unat_add_u64)
  moreover from this have "unat (p + f) = unat p + unat f"
    using obj_top [OF assms(1) o(1)] by (intro unat_add_u64) linarith
  ultimately show ?thesis using o by auto
qed

text \<open>An extent that leaves every object of the type is refused.\<close>

lemma outside_refused:
  assumes "inv s" and "\<And>lo hi. obj s ty lo hi \<Longrightarrow> lo \<le> unat p \<Longrightarrow> unat p < hi \<Longrightarrow> hi < unat p + unat z"
  shows "chk p z ty s \<noteq> Check_ok"
  using chk_ok [OF assms(1), of p z ty] assms(2) by (meson leD)

end

definition live_object :: "runtime \<Rightarrow> u64 \<Rightarrow> nat \<Rightarrow> nat \<Rightarrow> bool" where
  "live_object s ty lo hi \<longleftrightarrow> (\<exists>a. om_find (rt_allocations s) (al_base a) = Some a \<and>
     al_type_hash a = ty \<and> lo = unat (al_base a) \<and> hi = unat (al_base a) + unat (al_size a))"

interpretation rt: extent_checker runtime_inv check live_object
proof
  fix s p z ty
  assume inv: "runtime_inv s"
  show "check p z ty s = Check_ok \<longleftrightarrow>
      (\<exists>lo hi. live_object s ty lo hi \<and> lo \<le> unat p \<and> unat p < hi \<and> unat p + unat z \<le> hi)"
    using check_ok_covers [OF inv] unfolding live_object_def covers_def by blast
next
  fix s ty lo hi
  assume inv: "runtime_inv s" and "live_object s ty lo hi"
  then obtain a where a: "om_find (rt_allocations s) (al_base a) = Some a"
    and hi: "hi = unat (al_base a) + unat (al_size a)" by (auto simp: live_object_def)
  have "0 < unat (al_size a)" using inv a by (auto simp: runtime_inv_def allocs_inv_def alloc_ok_def)
  then have "covers s a (al_base a)" using a by (simp add: covers_def)
  from covers_top [OF inv this] show "hi < 2 ^ 64" by (simp add: hi)
qed

end
