(* ===== verification/GenFacts.thy ===== *)
theory GenFacts
  imports GenHeaders
begin

text \<open>
  The checks of \<open>generate\<close> in closed form: what \<open>check_hashes\<close> and \<open>number_sites\<close> accept and
  return, and so exactly which policies are accepted.
\<close>

section \<open>Type hashes\<close>

lemma hash_fold:
  "res_fold hash_entry names d = Inr d' \<longleftrightarrow>
     distinct (map hash_type names) \<and> (\<forall>n \<in> set names. map_of d (hash_type n) = None) \<and>
     d' = d @ map (\<lambda>n. (hash_type n, n)) names"
proof (induction names arbitrary: d)
  case Nil
  show ?case by auto
next
  case (Cons n names)
  show ?case
  proof (cases "map_of d (hash_type n)")
    case (Some m)
    then show ?thesis by (simp add: hash_entry_def Let_def)
  next
    case None
    then have "dict_set (hash_type n) n d = d @ [(hash_type n, n)]"
      by (intro dict_set_new) (simp add: map_of_eq_None_iff)
    then have step: "res_fold hash_entry (n # names) d = res_fold hash_entry names (d @ [(hash_type n, n)])"
      using None by (simp add: hash_entry_def Let_def)
    have new: "map_of (d @ [(hash_type n, n)]) (hash_type m) = None \<longleftrightarrow>
        hash_type m \<noteq> hash_type n \<and> map_of d (hash_type m) = None" for m
      by (auto simp: map_add_def split: option.splits)
    show ?thesis unfolding step Cons.IH new using None by (auto intro: rev_image_eqI)
  qed
qed

lemma check_hashes_Inr:
  "check_hashes ids = Inr d \<longleftrightarrow>
     distinct (map (hash_type \<circ> fst) ids) \<and> d = map (\<lambda>n. (hash_type n, n)) (map fst ids)"
  by (auto simp: check_hashes_def hash_fold)

section \<open>Site numbers\<close>

text \<open>
  The numbering loop in closed form: the allocations with a span, in the order of the
  policy, get consecutive numbers.
\<close>

fun numbered :: "nat \<Rightarrow> nat \<Rightarrow> alloc_entry list \<Rightarrow> (nat \<times> nat) list" where
  "numbered index k [] = []"
| "numbered index k (a # as) =
     (if ae_site a \<noteq> None then (index, k) # numbered (index + 1) (k + 1) as
      else numbered (index + 1) k as)"

lemma numbered_index: "(j, n) \<in> set (numbered index k as) \<Longrightarrow> index \<le> j \<and> j < index + length as"
  by (induction as arbitrary: index k) (fastforce split: if_splits)+

lemma number_fold:
  assumes "\<forall>j \<in> fst ` set m. j < index"
  shows "res_fold (number_site ids) (enumerate index as) (m, k) = Inr (m', k') \<longleftrightarrow>
    (\<forall>a \<in> set as. map_of ids (ae_type a) \<noteq> None) \<and> m' = m @ numbered index k as \<and>
    k' = k + length (numbered index k as)"
  using assms
proof (induction as arbitrary: index m k)
  case Nil
  show ?case by auto
next
  case (Cons a as)
  have new: "dict_set index k m = m @ [(index, k)]"
    using Cons.prems by (intro dict_set_new) auto
  have "res_fold (number_site ids) (enumerate (Suc index) as) (m2, k2) = Inr (m', k') \<longleftrightarrow>
      (\<forall>a \<in> set as. map_of ids (ae_type a) \<noteq> None) \<and> m' = m2 @ numbered (Suc index) k2 as \<and>
      k' = k2 + length (numbered (Suc index) k2 as)"
    if "m2 = m \<or> m2 = m @ [(index, k)]" for m2 k2
    using that Cons.prems by (intro Cons.IH) fastforce
  then show ?case by (auto simp: number_site_def new)
qed

lemma number_sites_Inr:
  "number_sites ids as = Inr m \<longleftrightarrow>
     (\<forall>a \<in> set as. map_of ids (ae_type a) \<noteq> None) \<and> m = numbered 0 1 as"
  using number_fold [of "[]" 0 ids as 1] by (auto simp: number_sites_def res_simps)

text \<open>The rows of the site table, in closed form.\<close>

fun site_rows :: "nat \<Rightarrow> alloc_entry list \<Rightarrow> site_row list" where
  "site_rows k [] = []"
| "site_rows k (a # as) =
     (if ae_site a \<noteq> None then (k, cpp (ae_type a), site_symbols a k) # site_rows (k + 1) as
      else site_rows k as)"

lemma numbered_distinct: "distinct (map fst (numbered index k as))"
  by (induction as arbitrary: index k) (auto dest: numbered_index)

lemma site_entries_append:
  assumes "\<forall>j \<in> fst ` set m. j < index"
  shows "concat (map (\<lambda>(i, a). case map_of (m @ numbered index k as) i of
        None \<Rightarrow> [] | Some n \<Rightarrow> [(n, cpp (ae_type a), site_symbols a n)]) (enumerate index as)) =
    site_rows k as"
  using assms
proof (induction as arbitrary: index m k)
  case Nil
  show ?case by simp
next
  case (Cons a as)
  have old: "map_of m index = None" using Cons.prems by (auto simp: map_of_eq_None_iff)
  have late: "map_of (numbered (Suc index) k as) index = None"
    by (auto simp: map_of_eq_None_iff dest: numbered_index)
  have lt: "\<forall>j \<in> fst ` set m. j < Suc index" "\<forall>j \<in> fst ` set (m @ [(index, k)]). j < Suc index"
    using Cons.prems by fastforce+
  show ?case
  proof (cases "ae_site a")
    case None
    have "map_of (m @ numbered (Suc index) k as) index = None" using old late by (simp add: map_add_def)
    with None show ?thesis using Cons.IH [OF lt(1), of k] by (simp del: map_of_append)
  next
    case (Some s)
    have "map_of (m @ (index, k) # numbered (Suc index) (Suc k) as) index = Some k"
      using old by (simp add: map_add_def)
    with Some show ?thesis using Cons.IH [OF lt(2), of "Suc k"] by (simp del: map_of_append)
  qed
qed

lemma site_entries_eq: "site_entries (numbered 0 1 as) as = site_rows 1 as"
  using site_entries_append [of "[]" 0 1 as] by (simp add: site_entries_def)

lemma site_rows_ids: "map fst (site_rows k as) = [k ..< k + length (site_rows k as)]"
  by (induction as arbitrary: k) (auto simp: upt_rec [of _ "Suc _"] simp del: upt_Suc)

lemma site_rows_bound: "length (site_rows k as) \<le> length as"
  by (induction as arbitrary: k) (auto simp: le_SucI)

text \<open>The row of the allocation at a position.\<close>

lemma site_rows_member:
  assumes "(n, row) \<in> set (site_rows k as)"
  shows "\<exists>a \<in> set as. ae_site a \<noteq> None \<and> row = (cpp (ae_type a), site_symbols a n)"
  using assms by (induction as arbitrary: k) (auto split: if_splits)

lemma site_rows_complete:
  assumes "(j, n) \<in> set (numbered index k as)"
  shows "(n, cpp (ae_type (as ! (j - index))), site_symbols (as ! (j - index)) n) \<in> set (site_rows k as)"
  using assms
proof (induction as arbitrary: index k)
  case (Cons a as)
  show ?case
  proof (cases "ae_site a \<noteq> None \<and> (j, n) = (index, k)")
    case True
    then show ?thesis by simp
  next
    case False
    with Cons.prems have m: "(j, n) \<in> set (numbered (Suc index) (if ae_site a \<noteq> None then Suc k else k) as)"
      by (auto split: if_splits)
    have "j - index = Suc (j - Suc index)" using conjunct1 [OF numbered_index [OF m]] by arith
    then have "(a # as) ! (j - index) = as ! (j - Suc index)" by simp
    with Cons.IH [OF m] show ?thesis by (simp split: if_splits)
  qed
qed simp

section \<open>Accepted policies\<close>

lemma enumerate_ids_Some_iff: "map_of (enumerate_ids types) n \<noteq> None \<longleftrightarrow> n \<in> set types"
  using enumerate_ids_keys [of types] by (auto simp: map_of_eq_None_iff)

lemma use_lines_accepts:
  "(\<exists>ls. use_lines (enumerate_ids types) use = Inr ls) \<longleftrightarrow>
     ue_type use \<in> set types \<and> 0 \<le> ue_offset use \<and> (\<exists>b. ue_bytes use = Some b \<and> 0 \<le> b)"
  using enumerate_ids_Some_iff [of types "ue_type use"]
  by (auto simp: use_lines_def split: option.splits)

lemma res_map_accepts: "(\<exists>ys. res_map f xs = Inr ys) \<longleftrightarrow> (\<forall>x \<in> set xs. \<exists>y. f x = Inr y)"
  by (induction xs) (auto simp: res_simps)

lemma accepted_iff:
  "(\<exists>u t. generate pol source = Inr (edited, u, t)) \<longleftrightarrow>
     distinct (p_types pol) \<and> inj_on hash_type (set (p_types pol)) \<and>
     ae_type ` set (p_allocations pol) \<subseteq> set (p_types pol) \<and>
     instrument_source (numbered 0 1 (p_allocations pol)) (p_allocations pol) source = Inr edited \<and>
     {use \<in> set (p_uses pol). ue_type use \<notin> set (p_types pol) \<or> ue_offset use < 0 \<or>
        ue_bytes use = None \<or> the (ue_bytes use) < 0} = {}"
proof (cases "distinct (p_types pol)")
  case False
  then show ?thesis by (simp add: generate_def enumerate_ids_length_distinct)
next
  case True
  let ?ids = "enumerate_ids (p_types pol)"
  have fst: "map fst ?ids = p_types pol"
    by (simp add: enumerate_ids_unique [OF True] comp_def split_beta)
  have hashes: "(\<exists>d. check_hashes ?ids = Inr d) \<longleftrightarrow> inj_on hash_type (set (p_types pol))"
    using True by (auto simp: check_hashes_Inr distinct_map fst simp flip: map_map)
  have sites: "number_sites ?ids (p_allocations pol) = Inr m \<longleftrightarrow>
      ae_type ` set (p_allocations pol) \<subseteq> set (p_types pol) \<and> m = numbered 0 1 (p_allocations pol)" for m
    using enumerate_ids_Some_iff [of "p_types pol"] by (auto simp: number_sites_Inr)
  have uses: "(\<exists>ys. res_map (use_lines ?ids) (p_uses pol) = Inr ys) \<longleftrightarrow>
      {use \<in> set (p_uses pol). ue_type use \<notin> set (p_types pol) \<or> ue_offset use < 0 \<or>
        ue_bytes use = None \<or> the (ue_bytes use) < 0} = {}"
    unfolding res_map_accepts use_lines_accepts by (auto simp: not_less)
  have "(\<exists>u t. generate pol source = Inr (edited, u, t)) \<longleftrightarrow>
      (\<exists>d. check_hashes ?ids = Inr d) \<and>
      (\<exists>m. number_sites ?ids (p_allocations pol) = Inr m \<and>
        instrument_source m (p_allocations pol) source = Inr edited) \<and>
      (\<exists>ys. res_map (use_lines ?ids) (p_uses pol) = Inr ys)"
    using True by (simp add: generate_def enumerate_ids_length_distinct res_bind_Inr Let_def) blast
  then show ?thesis unfolding hashes sites uses using True by (simp only:) blast
qed

text \<open>
  Property C17. Exactly which policies \<open>generate\<close> accepts: no type listed twice, no two types
  with one hash, every allocation and every use of a listed type, every use with a size and
  with a non-negative offset and size, and every source edit possible; the edited source is
  what the edits give, with precise sites numbered from one in policy order.
\<close>

theorem generate_accepts:
  "(\<exists>u t. generate pol source = Inr (edited, u, t)) \<longleftrightarrow>
     distinct (p_types pol) \<and> inj_on hash_type (set (p_types pol)) \<and>
     ae_type ` set (p_allocations pol) \<subseteq> set (p_types pol) \<and>
     instrument_source (numbered 0 1 (p_allocations pol)) (p_allocations pol) source = Inr edited \<and>
     {use \<in> set (p_uses pol). ue_type use \<notin> set (p_types pol) \<or> ue_offset use < 0 \<or>
        ue_bytes use = None \<or> the (ue_bytes use) < 0} = {}"
  by (rule accepted_iff)

end
