(* ===== verification/NameFacts.thy ===== *)
theory NameFacts
  imports SourceEdit Runtime
begin

text \<open>
  The names the tools derive: the type hash, which the C++ side computes again, and the
  labels of the sites.
\<close>

section \<open>The type hash\<close>

lemma hash_step_eq [code]: "hash_step v b = (129 * v + b) mod 2 ^ 64"
proof -
  have "push_bit 64 1 - 1 = (mask 64 :: nat)" by (simp only: push_bit_eq_mult mask_eq_exp_minus_1 mult_1)
  then show ?thesis by (simp only: hash_step_def take_bit_eq_mask [symmetric] take_bit_eq_mod)
qed

lemma hash_type_bound: "hash_type name < 2 ^ 64"
proof -
  have "foldl hash_step v bs < 2 ^ 64" if "v < 2 ^ 64" for v bs
    using that by (induction bs arbitrary: v) (simp_all add: hash_step_eq)
  then show ?thesis by (simp add: hash_type_def)
qed

lemma type_hash_from_foldl:
  assumes "0 \<notin> set (map word_of_nat bs :: 8 word list)" and "\<forall>b \<in> set bs. b < 256"
  shows "unat (type_hash_from (word_of_nat v) (map word_of_nat bs @ 0 # junk)) =
    foldl hash_step (v mod 2 ^ 64) bs"
  using assms
proof (induction bs arbitrary: v)
  case Nil
  show ?case by (simp add: unsigned_of_nat take_bit_eq_mod)
next
  case (Cons b bs)
  have "ucast (word_of_nat b :: 8 word) = (word_of_nat b :: u64)"
    using Cons.prems(2) by (intro word_unat_eq_iff [THEN iffD2])
      (simp add: unsigned_ucast_eq unsigned_of_nat take_bit_eq_mod)
  then have "129 * (word_of_nat v :: u64) + ucast (word_of_nat b :: 8 word) = word_of_nat (129 * v + b)"
    by simp
  moreover have "hash_step (v mod 2 ^ 64) b = (129 * v + b) mod 2 ^ 64"
    by (metis hash_step_eq mod_add_left_eq mod_mult_right_eq)
  ultimately show ?case using Cons.IH [of "129 * v + b"] Cons.prems by simp
qed

lemma encode_bytes: "b \<in> set (encode s) \<Longrightarrow> b < 256"
proof -
  assume "b \<in> set (encode s)"
  then obtain c where "b \<in> set (utf8_char c)" by (auto simp: encode_def)
  moreover have "code_point c div 64 < 4" using code_point_bound [of c] by (simp add: less_mult_imp_div_less)
  ultimately show "b < 256" by (auto simp: utf8_char_def Let_def split: if_splits)
qed

lemma encode_no_nul: "CHR 0x00 \<notin> set s \<Longrightarrow> b \<in> set (encode s) \<Longrightarrow> b \<noteq> 0"
proof -
  assume n: "CHR 0x00 \<notin> set s" and "b \<in> set (encode s)"
  then obtain c where c: "c \<in> set s" "b \<in> set (utf8_char c)" by (auto simp: encode_def)
  have "code_point c \<noteq> 0"
  proof
    assume "code_point c = 0"
    then have "c = char_of (0 :: nat)" by (metis char_of_char code_point_def)
    moreover have "char_of (0 :: nat) = CHR 0x00" by (simp add: char_of_def)
    ultimately show False using n c by simp
  qed
  with c show "b \<noteq> 0" by (auto simp: utf8_char_def Let_def split: if_splits)
qed

text \<open>
  Property C18. The hash that the Python tools write into the trusted header is the hash that
  the C++ \<open>type_hash\<close> computes from the same name as a NUL-terminated UTF-8 string, for every
  name without a NUL character, and it fits the 64-bit constant it is written as.
\<close>

theorem hash_type_agrees:
  assumes "CHR 0x00 \<notin> set name"
  shows "unat (type_hash (map word_of_nat (encode name) @ 0 # junk)) = hash_type name \<and>
    hash_type name < 2 ^ 64"
proof -
  have "b \<noteq> 0 \<and> b < 256" if "b \<in> set (encode name)" for b
    using that encode_no_nul [OF assms] encode_bytes by blast
  then have "\<forall>b \<in> set (encode name). b < 256"
    and "0 \<notin> set (map word_of_nat (encode name) :: 8 word list)"
    by (auto simp: word_of_nat_eq_0_iff) (metis nat_dvd_not_less)
  from type_hash_from_foldl [OF this(2,1), of 0 junk] hash_type_bound [of name]
  show ?thesis by (simp add: type_hash_def hash_type_def)
qed

theorem hash_type_agrees_witness:
  "unat (type_hash (map word_of_nat (encode ''Node'') @ [0, 7])) = hash_type ''Node'' \<and>
   hash_type ''Node'' = 169301894"
proof -
  have "hash_type ''Node'' = 169301894"
    by (simp add: hash_type_def encode_def utf8_char_def code_point_def hash_step_eq)
  then show ?thesis using hash_type_agrees [of "''Node''" "[7]"] by simp
qed

section \<open>Collisions\<close>

definition base129 :: "nat list \<Rightarrow> nat" where
  "base129 bs = foldl (\<lambda>v b. 129 * v + b) 0 bs"

lemma base129_snoc: "base129 (bs @ [b]) = 129 * base129 bs + b"
  by (simp add: base129_def)

lemma hash_step_foldl: "foldl hash_step (v mod 2 ^ 64) bs = foldl (\<lambda>v b. 129 * v + b) v bs mod 2 ^ 64"
proof (induction bs arbitrary: v)
  case (Cons b bs)
  have "hash_step (v mod 2 ^ 64) b = (129 * v + b) mod 2 ^ 64"
    by (metis hash_step_eq mod_add_left_eq mod_mult_right_eq)
  then show ?case using Cons [of "129 * v + b"] by simp
qed simp

lemma hash_type_base129: "hash_type name = base129 (encode name) mod 2 ^ 64"
  using hash_step_foldl [of 0 "encode name"] by (simp add: hash_type_def base129_def)

lemma base129_bound: "\<forall>b \<in> set bs. b < 129 \<Longrightarrow> base129 bs < 129 ^ length bs"
proof (induction bs rule: rev_induct)
  case (snoc b bs)
  then have "base129 bs + 1 \<le> 129 ^ length bs" and "b < 129" by auto
  then have "129 * (base129 bs + 1) \<le> 129 * 129 ^ length bs" by (intro mult_le_mono2)
  with \<open>b < 129\<close> show ?case by (simp add: base129_snoc)
qed (simp add: base129_def)

lemma base129_inject:
  assumes "\<forall>b \<in> set bs. 0 < b \<and> b < 129" and "\<forall>b \<in> set cs. 0 < b \<and> b < 129"
    and "base129 bs = base129 cs"
  shows "bs = cs"
  using assms
proof (induction bs arbitrary: cs rule: rev_induct)
  case Nil
  then show ?case by (cases cs rule: rev_cases) (auto simp: base129_snoc, simp add: base129_def)
next
  case (snoc b bs)
  show ?case
  proof (cases cs rule: rev_cases)
    case Nil
    with snoc.prems show ?thesis by (simp add: base129_snoc) (simp add: base129_def)
  next
    case (snoc ds d)
    have eq: "129 * base129 bs + b = 129 * base129 ds + d" and small: "b < 129" "d < 129"
      using snoc.prems snoc by (simp_all add: base129_snoc)
    have "b = d" using arg_cong [OF eq, of "\<lambda>x. x mod 129"] small by simp
    with eq have bd: "b = d" "base129 bs = base129 ds" by simp_all
    have "bs = ds" using snoc.prems snoc bd(2) by (intro snoc.IH) simp_all
    with bd snoc show ?thesis by simp
  qed
qed

lemma encode_ascii: "list_all (\<lambda>c. code_point c < 128) s \<Longrightarrow> encode s = map code_point s"
  by (induction s) (simp_all add: encode_def utf8_char_def)

lemma code_point_inject: "code_point c = code_point d \<Longrightarrow> c = d"
  by (metis char_of_char code_point_def)

text \<open>
  Type hashes cannot collide on short names: two different names of at most
  nine ASCII characters (without NUL) have different hashes, so the collision check of
  \<open>generate\<close> never rejects a policy whose type names are all of that form.
\<close>

lemma short_names_never_collide:
  assumes "list_all (\<lambda>c. 0 < code_point c \<and> code_point c < 128) s" and "length s \<le> 9"
    and "list_all (\<lambda>c. 0 < code_point c \<and> code_point c < 128) t" and "length t \<le> 9"
    and "s \<noteq> t"
  shows "hash_type s \<noteq> hash_type t"
proof
  assume eq: "hash_type s = hash_type t"
  have small: "hash_type u = base129 (map code_point u)"
    if u: "list_all (\<lambda>c. 0 < code_point c \<and> code_point c < 128) u" "length u \<le> 9" for u
  proof -
    have "encode u = map code_point u" using u(1) by (intro encode_ascii) (auto simp: list_all_iff)
    moreover have "base129 (map code_point u) < 129 ^ length u"
      using base129_bound [of "map code_point u"] u(1) by (fastforce simp: list_all_iff)
    moreover have "(129 :: nat) ^ length u \<le> 129 ^ 9" using u(2) by (intro power_increasing) simp_all
    ultimately show ?thesis by (simp add: hash_type_base129)
  qed
  have "map code_point s = map code_point t"
    using assms eq small by (intro base129_inject) (auto simp: list_all_iff)
  then have "s = t" using code_point_inject by (metis (no_types) injI inj_map_eq_map)
  with assms show False by simp
qed

end
