(* ===== verification/Registration.thy ===== *)
theory Registration
  imports EmittedPolicy GenFacts NameFacts
begin

text \<open>
  The registration code of the emitted headers on a fresh runtime: when it succeeds, and what
  the trusted tables then say.
\<close>

section \<open>Types\<close>

lemma register_type_ok:
  "i \<noteq> 0 \<Longrightarrow> um_find (rt_types s) i = None \<Longrightarrow> um_find (rt_type_ids s) h = None \<Longrightarrow>
   register_type i h s = (True, s\<lparr>rt_types := um_emplace i h (rt_types s),
                                 rt_type_ids := um_emplace h i (rt_type_ids s)\<rparr>)"
  by (simp add: register_type_def)

lemma register_type_fold:
  assumes "distinct (map fst rows)" and "distinct (map snd rows)" and "0 \<notin> fst ` set rows"
    and "\<forall>i \<in> fst ` set rows. um_find (rt_types s) i = None"
    and "\<forall>h \<in> snd ` set rows. um_find (rt_type_ids s) h = None"
  shows "\<exists>ty ids. fold (\<lambda>(i, h) (ok, s). let (r, s') = register_type i h s in (r \<and> ok, s')) rows (True, s)
      = (True, s\<lparr>rt_types := ty, rt_type_ids := ids\<rparr>) \<and>
    um_find ty = um_find (rt_types s) ++ map_of rows"
  using assms
proof (induction rows arbitrary: s)
  case Nil
  have "s = s\<lparr>rt_types := rt_types s, rt_type_ids := rt_type_ids s\<rparr>" by simp
  then show ?case by (intro exI [of _ "rt_types s"] exI [of _ "rt_type_ids s"]) simp
next
  case (Cons p rows)
  obtain i h where p: "p = (i, h)" by (cases p)
  let ?s = "s\<lparr>rt_types := um_emplace i h (rt_types s), rt_type_ids := um_emplace h i (rt_type_ids s)\<rparr>"
  have ok: "register_type i h s = (True, ?s)" using Cons.prems p by (intro register_type_ok) auto
  have "\<exists>ty ids. fold (\<lambda>(i, h) (ok, s). let (r, s') = register_type i h s in (r \<and> ok, s')) rows (True, ?s)
      = (True, ?s\<lparr>rt_types := ty, rt_type_ids := ids\<rparr>) \<and> um_find ty = um_find (rt_types ?s) ++ map_of rows"
    using Cons.prems p by (intro Cons.IH) (auto simp: image_iff)
  then obtain ty ids where f: "fold (\<lambda>(i, h) (ok, s). let (r, s') = register_type i h s in (r \<and> ok, s')) rows (True, ?s)
      = (True, ?s\<lparr>rt_types := ty, rt_type_ids := ids\<rparr>)"
    and ty: "um_find ty = um_find (rt_types ?s) ++ map_of rows" by blast
  have "map_of rows i = None" using Cons.prems p by (auto simp: map_of_eq_None_iff)
  then have "um_find ty = um_find (rt_types s) ++ map_of (p # rows)"
    using Cons.prems(4) p by (auto simp: ty map_add_def fun_eq_iff split: option.splits)
  moreover have "fold (\<lambda>(i, h) (ok, s). let (r, s') = register_type i h s in (r \<and> ok, s')) (p # rows) (True, s)
      = (True, s\<lparr>rt_types := ty, rt_type_ids := ids\<rparr>)"
    using f ok p by simp
  ultimately show ?case by blast
qed

text \<open>The rows of \<open>register_types\<close>, when the identifiers of the types are different.\<close>

lemma type_constants_lookup:
  assumes "distinct (map (cpp \<circ> fst) ids)" and "(n, i) \<in> set ids"
  shows "k_type_id ids (cpp n) = word_of_nat i" and "k_type_hash ids (cpp n) = word_of_nat (hash_type n)"
proof -
  have "map_of (type_constants ids) (cpp n) = Some (word_of_nat i, word_of_nat (hash_type n))"
    using assms by (intro map_of_is_SomeI) (auto simp: type_constants_def comp_def split_beta image_iff, force)
  then show "k_type_id ids (cpp n) = word_of_nat i" and "k_type_hash ids (cpp n) = word_of_nat (hash_type n)"
    by (simp_all add: k_type_id_def k_type_hash_def)
qed

lemma emitted_register_types_inv:
  assumes "runtime_inv s" shows "runtime_inv (snd (emitted_register_types ids s))"
  unfolding emitted_register_types_def
proof (rule fold_invariant [where Q = "\<lambda>_. True" and P = "\<lambda>x. runtime_inv (snd x)"])
  fix p :: "string \<times> nat" and x :: "bool \<times> runtime"
  assume "runtime_inv (snd x)"
  then show "runtime_inv (snd ((case p of (n, _) \<Rightarrow> \<lambda>(ok, s).
      let (r, s') = register_type (k_type_id ids (cpp n)) (k_type_hash ids (cpp n)) s in (r \<and> ok, s')) x))"
    using register_type_inv by (cases p, cases x) (simp add: split_beta)
qed (use assms in simp_all)

lemma word_of_nat_inj: "m < 2 ^ LENGTH('a) \<Longrightarrow> n < 2 ^ LENGTH('a) \<Longrightarrow>
    (word_of_nat m :: 'a::len word) = word_of_nat n \<longleftrightarrow> m = n"
proof -
  assume "m < 2 ^ LENGTH('a)" and "n < 2 ^ LENGTH('a)"
  then have "unat (word_of_nat m :: 'a word) = m" and "unat (word_of_nat n :: 'a word) = n"
    by (simp_all add: unsigned_of_nat take_bit_nat_eq_self)
  then show ?thesis by metis
qed

lemma u32_inj: "m < 2 ^ 32 \<Longrightarrow> n < 2 ^ 32 \<Longrightarrow> (word_of_nat m :: u32) = word_of_nat n \<longleftrightarrow> m = n"
  using word_of_nat_inj [of m n, where 'a = 32] by simp

lemma u64_inj: "m < 2 ^ 64 \<Longrightarrow> n < 2 ^ 64 \<Longrightarrow> (word_of_nat m :: u64) = word_of_nat n \<longleftrightarrow> m = n"
  using word_of_nat_inj [of m n, where 'a = 64] by simp

definition type_rows :: "(string \<times> nat) list \<Rightarrow> (u32 \<times> u64) list" where
  "type_rows ids = map (\<lambda>(n, i). (word_of_nat i, word_of_nat (hash_type n))) ids"

lemma emitted_register_types_rows:
  assumes "distinct (map (cpp \<circ> fst) ids)"
  shows "emitted_register_types ids s =
    fold (\<lambda>(i, h) (ok, s). let (r, s') = register_type i h s in (r \<and> ok, s')) (type_rows ids) (True, s)"
proof -
  have "fold (\<lambda>(n, _) (ok, s). let (r, s') = register_type (k_type_id ids (cpp n)) (k_type_hash ids (cpp n)) s
          in (r \<and> ok, s')) xs a =
        fold (\<lambda>(i, h) (ok, s). let (r, s') = register_type i h s in (r \<and> ok, s')) (type_rows xs) a"
    if "set xs \<subseteq> set ids" for xs a
    using that
  proof (induction xs arbitrary: a)
    case (Cons p xs)
    obtain n i where p: "p = (n, i)" by (cases p)
    with Cons.prems have "(n, i) \<in> set ids" by simp
    from type_constants_lookup [OF assms this] Cons p show ?case by (simp add: type_rows_def)
  qed (simp add: type_rows_def)
  from this [of ids] show ?thesis by (simp add: emitted_register_types_def)
qed

text \<open>
  The types of an accepted policy: distinct, with distinct hashes, fewer than \<open>2^32\<close>, and with
  distinct C++ identifiers (otherwise the header does not compile).
\<close>

definition types_registrable :: "string list \<Rightarrow> bool" where
  "types_registrable types \<longleftrightarrow> distinct types \<and> inj_on hash_type (set types) \<and>
     distinct (map cpp types) \<and> length types < 2 ^ 32 - 1"

lemma enumerate_ids_member:
  "distinct types \<Longrightarrow> (n, i) \<in> set (enumerate_ids types) \<Longrightarrow> 0 < i \<and> i \<le> length types \<and> n \<in> set types"
  by (auto simp: enumerate_ids_unique in_set_enumerate_eq)

lemma enumerate_ids_fst: "distinct types \<Longrightarrow> map fst (enumerate_ids types) = types"
  by (simp add: enumerate_ids_unique comp_def split_beta)

lemma enumerate_ids_snd: "distinct types \<Longrightarrow> map snd (enumerate_ids types) = map Suc [0 ..< length types]"
proof -
  assume "distinct types"
  then have "map snd (enumerate_ids types) = map (\<lambda>p. Suc (fst p)) (enumerate 0 types)"
    by (simp add: enumerate_ids_unique comp_def split_beta)
  also have "\<dots> = map Suc (map fst (enumerate 0 types))" by (simp only: map_map comp_def)
  also have "\<dots> = map Suc [0 ..< length types]" by (simp only: map_fst_enumerate add_0)
  finally show ?thesis .
qed

lemma type_registration:
  assumes "types_registrable types"
  shows "\<exists>ty ids. emitted_register_types (enumerate_ids types) (new_runtime b n) =
      (True, (new_runtime b n)\<lparr>rt_types := ty, rt_type_ids := ids\<rparr>) \<and>
    (\<forall>(t, i) \<in> set (enumerate_ids types). um_find ty (word_of_nat i) = Some (word_of_nat (hash_type t)))"
proof -
  let ?ids = "enumerate_ids types"
  have d: "distinct types" and inj: "inj_on hash_type (set types)"
    and len: "length types < 2 ^ 32" and c: "distinct (map (cpp \<circ> fst) ?ids)"
    using assms by (auto simp: types_registrable_def enumerate_ids_fst simp flip: map_map)
  have fsts: "distinct (map fst (type_rows ?ids))"
  proof -
    have "map fst (type_rows ?ids) = map word_of_nat (map snd ?ids)" by (simp add: type_rows_def comp_def split_beta)
    moreover have "inj_on (\<lambda>i. word_of_nat (Suc i) :: u32) {0 ..< length types}"
    proof (rule inj_onI)
      fix i j
      assume "i \<in> {0 ..< length types}" "j \<in> {0 ..< length types}"
        and "(word_of_nat (Suc i) :: u32) = word_of_nat (Suc j)"
      then show "i = j" using u32_inj [of "Suc i" "Suc j"] len by simp
    qed
    ultimately show ?thesis by (simp add: enumerate_ids_snd [OF d] distinct_map comp_def del: of_nat_Suc)
  qed
  have snds: "distinct (map snd (type_rows ?ids))"
  proof -
    have "map snd (type_rows ?ids) = map (\<lambda>t. word_of_nat (hash_type t)) (map fst ?ids)"
      by (simp add: type_rows_def comp_def split_beta)
    moreover have "inj_on (\<lambda>t. word_of_nat (hash_type t) :: u64) (set types)"
      using inj hash_type_bound by (auto simp: inj_on_def u64_inj)
    ultimately show ?thesis using d by (simp add: enumerate_ids_fst distinct_map)
  qed
  have "(word_of_nat i :: u32) \<noteq> 0" if "(t, i) \<in> set ?ids" for t i
    using enumerate_ids_member [OF d that] len u32_inj [of i 0] by simp
  then have z: "0 \<notin> fst ` set (type_rows ?ids)" by (fastforce simp: type_rows_def)
  obtain ty tids where f: "emitted_register_types ?ids (new_runtime b n) =
      (True, (new_runtime b n)\<lparr>rt_types := ty, rt_type_ids := tids\<rparr>)"
    and ty: "um_find ty = map_of (type_rows ?ids)"
    using register_type_fold [OF fsts snds z, of "new_runtime b n"]
    by (auto simp: emitted_register_types_rows [OF c] new_runtime_def)
  have "um_find ty (word_of_nat i) = Some (word_of_nat (hash_type t))" if "(t, i) \<in> set ?ids" for t i
  proof -
    have "(word_of_nat i, word_of_nat (hash_type t)) \<in> set (type_rows ?ids)"
      using that by (force simp: type_rows_def)
    with fsts show ?thesis unfolding ty by (rule map_of_is_SomeI)
  qed
  with f show ?thesis by blast
qed

section \<open>Sites\<close>

lemma register_site_ok:
  assumes inv: "runtime_inv s" and ty: "um_find (rt_types s) t = Some h"
    and i: "i \<noteq> 0" "um_find (rt_site_types s) i = None" and b: "b \<noteq> 0" "b < e"
    and clear: "\<And>d. om_find (rt_sites s) (as_begin d) = Some d \<Longrightarrow> e \<le> as_begin d \<or> as_end d \<le> b"
  shows "\<exists>s'. register_allocation_site i b e t s = (True, s') \<and> runtime_inv s' \<and>
    rt_types s' = rt_types s \<and> rt_allocations s' = rt_allocations s \<and> rt_used s' = rt_used s \<and>
    rt_base s' = rt_base s \<and> rt_capacity s' = rt_capacity s \<and>
    um_find (rt_site_types s') = (um_find (rt_site_types s))(i \<mapsto> h) \<and>
    om_find (rt_sites s') = (om_find (rt_sites s))
      (b \<mapsto> \<lparr>as_id = i, as_begin = b, as_end = e, as_type_id = t, as_type_hash = h\<rparr>)"
proof -
  have si: "sites_inv s" using inv by (simp add: runtime_inv_def)
  have neighbours: "site_neighbours_clear b e (rt_sites s)"
    unfolding site_neighbours_clear_iff [OF si b(2)] using clear by (meson leD)
  have "um_find (rt_sites_by_id s) i = None"
  proof (rule ccontr)
    assume "um_find (rt_sites_by_id s) i \<noteq> None"
    then obtain k d where "om_find (rt_sites s) k = Some d" "as_id d = i"
      using si unfolding sites_inv_def by blast
    then show False using si i(2) by (auto simp: sites_inv_def site_ok_def)
  qed
  then have reg: "site_registrable i b e t h s"
    using ty i b neighbours by (simp add: site_registrable_def)
  let ?d = "\<lparr>as_id = i, as_begin = b, as_end = e, as_type_id = t, as_type_hash = h\<rparr>"
  let ?s = "snd (register_allocation_site i b e t s)"
  have eq: "register_allocation_site i b e t s = (True, ?s)"
    and s: "?s = s\<lparr>rt_sites := fst (om_emplace b ?d (rt_sites s)),
      rt_sites_by_id := um_emplace i b (rt_sites_by_id s), rt_site_types := um_emplace i h (rt_site_types s)\<rparr>"
    using ty reg by (simp_all add: register_allocation_site_eq [OF si])
  have "om_find (rt_sites s) b = None"
    using site_neighbours_clear_fresh(1) [OF si neighbours b(2), of ?d] by simp
  then have "om_find (rt_sites ?s) = (om_find (rt_sites s))(b \<mapsto> ?d)"
    using si by (simp add: s om_emplace_new sites_inv_def)
  moreover have "runtime_inv ?s" by (rule register_allocation_site_inv [OF inv])
  ultimately show ?thesis using eq i(2) by (intro exI [of _ ?s]) (simp add: s)
qed

text \<open>
  What the resolver must provide for a table of rows: non-empty label intervals away from
  address zero, none overlapping another.
\<close>

definition row_interval :: "(string \<Rightarrow> u64) \<Rightarrow> site_const \<Rightarrow> u64 \<times> u64" where
  "row_interval resolve = (\<lambda>(_, _, b, e). (resolve b, resolve e))"

definition apart :: "u64 \<times> u64 \<Rightarrow> u64 \<times> u64 \<Rightarrow> bool" where
  "apart x y \<longleftrightarrow> snd x \<le> fst y \<or> snd y \<le> fst x"

definition resolver_ok :: "(string \<Rightarrow> u64) \<Rightarrow> site_const list \<Rightarrow> bool" where
  "resolver_ok resolve rows \<longleftrightarrow>
     list_all (\<lambda>x. fst x \<noteq> 0 \<and> fst x < snd x) (map (row_interval resolve) rows) \<and>
     sorted_wrt apart (map (row_interval resolve) rows)"

lemma apart_sym: "apart x y \<longleftrightarrow> apart y x"
  by (auto simp: apart_def)

lemma apart_fresh:
  assumes "runtime_inv s" and "b < e"
    and "\<forall>d. om_find (rt_sites s) (as_begin d) = Some d \<longrightarrow> apart (b, e) (as_begin d, as_end d)"
  shows "om_find (rt_sites s) b = None"
proof (rule ccontr)
  assume "om_find (rt_sites s) b \<noteq> None"
  then obtain d where "om_find (rt_sites s) b = Some d" by blast
  moreover from this have "site_ok s b d" using assms(1) by (simp add: runtime_inv_def sites_inv_def)
  ultimately show False using assms(2,3) by (auto simp: site_ok_def apart_def)
qed

text \<open>What the trusted tables say of a row after registration.\<close>

definition row_registered :: "(string \<Rightarrow> u64) \<Rightarrow> runtime \<Rightarrow> site_const \<Rightarrow> bool" where
  "row_registered resolve s = (\<lambda>(i, t, b, e).
     \<exists>h. um_find (rt_types s) t = Some h \<and> um_find (rt_site_types s) i = Some h \<and>
         om_find (rt_sites s) (resolve b) =
           Some \<lparr>as_id = i, as_begin = resolve b, as_end = resolve e, as_type_id = t, as_type_hash = h\<rparr>)"

lemma sites_registration:
  assumes "runtime_inv s" and "resolver_ok resolve rows" and "distinct (map fst rows)"
    and "0 \<notin> fst ` set rows" and "\<forall>i \<in> fst ` set rows. um_find (rt_site_types s) i = None"
    and "\<forall>(_, t, _) \<in> set rows. um_find (rt_types s) t \<noteq> None"
    and "\<forall>d. om_find (rt_sites s) (as_begin d) = Some d \<longrightarrow>
      (\<forall>x \<in> set rows. apart (row_interval resolve x) (as_begin d, as_end d))"
  shows "\<exists>s'. emitted_register_sites rows s resolve = (True, s') \<and> runtime_inv s' \<and>
    rt_types s' = rt_types s \<and> rt_allocations s' = rt_allocations s \<and> rt_used s' = rt_used s \<and>
    rt_base s' = rt_base s \<and> rt_capacity s' = rt_capacity s \<and>
    om_find (rt_sites s) \<subseteq>\<^sub>m om_find (rt_sites s') \<and>
    um_find (rt_site_types s) \<subseteq>\<^sub>m um_find (rt_site_types s') \<and>
    dom (om_find (rt_sites s')) = dom (om_find (rt_sites s)) \<union> (fst \<circ> row_interval resolve) ` set rows \<and>
    (\<forall>x \<in> set rows. row_registered resolve s' x)"
  using assms
proof (induction rows arbitrary: s)
  case Nil
  then show ?case by auto
next
  case (Cons p rows)
  obtain i t b e where p: "p = (i, t, b, e)" by (cases p)
  obtain h where h: "um_find (rt_types s) t = Some h" using Cons.prems(6) p by auto
  have be: "resolve b \<noteq> 0" "resolve b < resolve e" and ok: "resolver_ok resolve rows"
    and later: "\<forall>x \<in> set rows. apart (resolve b, resolve e) (row_interval resolve x)"
    using Cons.prems(2) p by (auto simp: resolver_ok_def row_interval_def)
  have "\<exists>s1. register_allocation_site i (resolve b) (resolve e) t s = (True, s1) \<and> runtime_inv s1 \<and>
    rt_types s1 = rt_types s \<and> rt_allocations s1 = rt_allocations s \<and> rt_used s1 = rt_used s \<and>
    rt_base s1 = rt_base s \<and> rt_capacity s1 = rt_capacity s \<and>
    um_find (rt_site_types s1) = (um_find (rt_site_types s))(i \<mapsto> h) \<and>
    om_find (rt_sites s1) = (om_find (rt_sites s))
      (resolve b \<mapsto> \<lparr>as_id = i, as_begin = resolve b, as_end = resolve e, as_type_id = t, as_type_hash = h\<rparr>)"
    using Cons.prems p be h
    by (intro register_site_ok) (auto simp: apart_def row_interval_def)
  then obtain s1 where s1: "register_allocation_site i (resolve b) (resolve e) t s = (True, s1)"
    and inv1: "runtime_inv s1" and frame: "rt_types s1 = rt_types s" "rt_allocations s1 = rt_allocations s"
      "rt_used s1 = rt_used s" "rt_base s1 = rt_base s" "rt_capacity s1 = rt_capacity s"
    and st1: "um_find (rt_site_types s1) = (um_find (rt_site_types s))(i \<mapsto> h)"
    and si1: "om_find (rt_sites s1) = (om_find (rt_sites s))
      (resolve b \<mapsto> \<lparr>as_id = i, as_begin = resolve b, as_end = resolve e, as_type_id = t, as_type_hash = h\<rparr>)"
    by blast
  let ?d = "\<lparr>as_id = i, as_begin = resolve b, as_end = resolve e, as_type_id = t, as_type_hash = h\<rparr>"
  have "om_find (rt_sites s) (resolve b) = None"
    using Cons.prems(1,7) be(2) p by (intro apart_fresh) (auto simp: row_interval_def)
  then have grow: "om_find (rt_sites s) \<subseteq>\<^sub>m om_find (rt_sites s1)"
      "um_find (rt_site_types s) \<subseteq>\<^sub>m um_find (rt_site_types s1)"
    using Cons.prems(5) p by (simp_all add: si1 st1 map_le_new)
  have prem7: "\<forall>d. om_find (rt_sites s1) (as_begin d) = Some d \<longrightarrow>
      (\<forall>x \<in> set rows. apart (row_interval resolve x) (as_begin d, as_end d))"
    using Cons.prems(7) later by (auto simp: si1 apart_sym [of "row_interval resolve _"])
  have "\<exists>s'. emitted_register_sites rows s1 resolve = (True, s') \<and> runtime_inv s' \<and>
    rt_types s' = rt_types s1 \<and> rt_allocations s' = rt_allocations s1 \<and> rt_used s' = rt_used s1 \<and>
    rt_base s' = rt_base s1 \<and> rt_capacity s' = rt_capacity s1 \<and>
    om_find (rt_sites s1) \<subseteq>\<^sub>m om_find (rt_sites s') \<and>
    um_find (rt_site_types s1) \<subseteq>\<^sub>m um_find (rt_site_types s') \<and>
    dom (om_find (rt_sites s')) = dom (om_find (rt_sites s1)) \<union> (fst \<circ> row_interval resolve) ` set rows \<and>
    (\<forall>x \<in> set rows. row_registered resolve s' x)"
    using Cons.prems(3-6) p by (intro Cons.IH inv1 ok prem7) (auto simp: frame st1 image_iff)
  then obtain s' where s': "emitted_register_sites rows s1 resolve = (True, s')" "runtime_inv s'"
      "rt_types s' = rt_types s1" "rt_allocations s' = rt_allocations s1" "rt_used s' = rt_used s1"
      "rt_base s' = rt_base s1" "rt_capacity s' = rt_capacity s1"
    and grow': "om_find (rt_sites s1) \<subseteq>\<^sub>m om_find (rt_sites s')"
      "um_find (rt_site_types s1) \<subseteq>\<^sub>m um_find (rt_site_types s')"
    and dom: "dom (om_find (rt_sites s')) = dom (om_find (rt_sites s1)) \<union> (fst \<circ> row_interval resolve) ` set rows"
    and rows: "\<forall>x \<in> set rows. row_registered resolve s' x" by blast
  have "row_registered resolve s' p"
    using map_le_Some [OF grow'(1), of "resolve b" ?d] map_le_Some [OF grow'(2), of i h] h
    by (simp add: row_registered_def p si1 st1 s'(3) frame)
  moreover have "emitted_register_sites (p # rows) s resolve = (True, s')"
  proof -
    have "resolve e \<noteq> 0" using be(2) by (metis leD word_zero_le)
    then show ?thesis using p be s1 s'(1) by (simp add: Let_def)
  qed
  moreover have "dom (om_find (rt_sites s')) = dom (om_find (rt_sites s)) \<union>
      (fst \<circ> row_interval resolve) ` set (p # rows)"
    by (auto simp: dom si1 p row_interval_def)
  ultimately show ?case
    using rows s' frame map_le_trans [OF grow(1) grow'(1)] map_le_trans [OF grow(2) grow'(2)]
    by (intro exI [of _ s']) simp
qed

end
