(* ===== verification/EmittedSafety.thy ===== *)
theory EmittedSafety
  imports EmittedPolicy
begin

text \<open>
  The checks that the emitted headers offer to trusted code: what an accepted access may
  touch, and that nothing else is accepted.
\<close>

lemma live_object_covers:
  "(\<exists>lo hi. live_object s ty lo hi \<and> lo \<le> unat p \<and> unat p < hi \<and> Q hi) \<longleftrightarrow>
   (\<exists>a. covers s a p \<and> al_type_hash a = ty \<and> Q (unat (al_base a) + unat (al_size a)))"
  by (auto simp: live_object_def covers_def)

text \<open>The guarded check of a field, on the metadata.\<close>

lemma guarded_check:
  assumes inv: "runtime_inv s" and g: "\<not> f > u64_max - n"
  shows "check p (f + n) ty s = Check_ok \<longleftrightarrow>
    (\<exists>a. covers s a p \<and> al_type_hash a = ty \<and>
         unat p + unat f + unat n \<le> unat (al_base a) + unat (al_size a))"
proof -
  have "unat (f + n) = unat f + unat n"
    using g by (simp add: not_less u64_le_max_minus_iff unat_add_u64)
  then show ?thesis by (simp add: check_ok_covers [OF inv] add.assoc)
qed

lemma guard_unnecessary:
  assumes inv: "runtime_inv s" and "covers s a p"
    and "unat p + unat f + unat n \<le> unat (al_base a) + unat (al_size a)"
  shows "\<not> f > u64_max - n"
  using covers_top [OF inv assms(2)] assms(3) by (simp add: not_less u64_le_max_minus_iff)

lemma field_address:
  assumes inv: "runtime_inv s" and g: "\<not> f > u64_max - n" and ok: "check p (f + n) ty s = Check_ok"
  shows "unat (p + f) = unat p + unat f"
  using rt.field_inside [OF inv _ ok] g by (auto simp: not_less u64_le_max_minus_iff)

text \<open>
  Property C14. A checked access succeeds exactly when the base pointer is inside a live
  allocation of the policy's type and the field, computed without wrap-around, ends inside
  it; the range it then returns is exactly that field, and a refused access returns the null
  range.
\<close>

theorem checked_access_safe:
  assumes "reachable b n s"
  shows "(ar_result (checked_access s p pol) = Check_ok \<longleftrightarrow>
      (\<exists>a. covers s a p \<and> al_type_hash a = ap_type_hash pol \<and>
        unat p + unat (ap_offset pol) + unat (ap_bytes pol) \<le> unat (al_base a) + unat (al_size a))) \<and>
    (ar_result (checked_access s p pol) = Check_ok \<longrightarrow>
      unat (ar_address (checked_access s p pol)) = unat p + unat (ap_offset pol) \<and>
      ar_bytes (checked_access s p pol) = ap_bytes pol) \<and>
    (ar_result (checked_access s p pol) \<noteq> Check_ok \<longrightarrow>
      ar_address (checked_access s p pol) = 0 \<and> ar_bytes (checked_access s p pol) = 0)"
proof (cases "ap_offset pol > u64_max - ap_bytes pol")
  case True
  then show ?thesis using guard_unnecessary [OF reachable_imp_inv [OF assms]]
    by (auto simp: checked_access_def refused_def)
next
  case False
  note inv = reachable_imp_inv [OF assms]
  show ?thesis using False guarded_check [OF inv False, of p "ap_type_hash pol"] field_address [OF inv False]
    by (auto simp: checked_access_def refused_def Let_def)
qed

theorem checked_access_safe_witness:
  "ar_result (checked_access demo 65536 \<lparr>ap_type_hash = 100, ap_offset = 8, ap_bytes = 16\<rparr>) = Check_ok \<and>
   unat (ar_address (checked_access demo 65536 \<lparr>ap_type_hash = 100, ap_offset = 8, ap_bytes = 16\<rparr>)) = 65544 \<and>
   ar_result (checked_access demo 65536 \<lparr>ap_type_hash = 100, ap_offset = 8, ap_bytes = 17\<rparr>) \<noteq> Check_ok"
proof -
  have "ar_result (checked_access demo 65536 \<lparr>ap_type_hash = 100, ap_offset = 8, ap_bytes = 16\<rparr>) = Check_ok"
    "ar_result (checked_access demo 65536 \<lparr>ap_type_hash = 100, ap_offset = 8, ap_bytes = 17\<rparr>) \<noteq> Check_ok"
    by code_simp+
  then show ?thesis
    using checked_access_safe [OF demo_reachable, of 65536 "\<lparr>ap_type_hash = 100, ap_offset = 8, ap_bytes = 16\<rparr>"]
    by simp
qed

text \<open>
  Property C15. A dynamic access, whose size comes from untrusted code, is as safe: it succeeds
  exactly when the policy is a dynamic one and the requested range after the policy's offset
  lies inside a live allocation of the policy's type, whatever size is asked for.
\<close>

theorem checked_dynamic_access_safe:
  assumes "reachable b n s"
  shows "(ar_result (checked_dynamic_access s p z pol) = Check_ok \<longleftrightarrow>
      ap_bytes pol = 0 \<and>
      (\<exists>a. covers s a p \<and> al_type_hash a = ap_type_hash pol \<and>
        unat p + unat (ap_offset pol) + unat z \<le> unat (al_base a) + unat (al_size a))) \<and>
    (ar_result (checked_dynamic_access s p z pol) = Check_ok \<longrightarrow>
      unat (ar_address (checked_dynamic_access s p z pol)) = unat p + unat (ap_offset pol) \<and>
      ar_bytes (checked_dynamic_access s p z pol) = z) \<and>
    check_dynamic s p z pol = ar_result (checked_dynamic_access s p z pol)"
proof (cases "ap_offset pol > u64_max - z")
  case True
  then show ?thesis using guard_unnecessary [OF reachable_imp_inv [OF assms]]
    by (auto simp: checked_dynamic_access_def check_dynamic_def refused_def)
next
  case False
  note inv = reachable_imp_inv [OF assms]
  show ?thesis using False guarded_check [OF inv False, of p "ap_type_hash pol"] field_address [OF inv False]
    by (auto simp: checked_dynamic_access_def check_dynamic_def refused_def Let_def)
qed

theorem checked_dynamic_access_safe_witness:
  "ar_result (checked_dynamic_access demo 65536 16 \<lparr>ap_type_hash = 100, ap_offset = 8, ap_bytes = 0\<rparr>) = Check_ok \<and>
   unat (ar_address (checked_dynamic_access demo 65536 16 \<lparr>ap_type_hash = 100, ap_offset = 8, ap_bytes = 0\<rparr>)) = 65544 \<and>
   check_dynamic demo 65536 18446744073709551615 \<lparr>ap_type_hash = 100, ap_offset = 8, ap_bytes = 0\<rparr> \<noteq> Check_ok"
proof -
  have "ar_result (checked_dynamic_access demo 65536 16 \<lparr>ap_type_hash = 100, ap_offset = 8, ap_bytes = 0\<rparr>) = Check_ok"
    "check_dynamic demo 65536 18446744073709551615 \<lparr>ap_type_hash = 100, ap_offset = 8, ap_bytes = 0\<rparr> \<noteq> Check_ok"
    by code_simp+
  then show ?thesis
    using checked_dynamic_access_safe [OF demo_reachable, of 65536 16 "\<lparr>ap_type_hash = 100, ap_offset = 8, ap_bytes = 0\<rparr>"]
    by simp
qed

text \<open>
  Property C16. The check of the wasm header accepts exactly the extents inside a live
  allocation of the policy's type; a fixed size of the policy cannot be overridden by the
  dynamic size, and the dynamic size is what counts when the policy has none.
\<close>

theorem wasm_check_safe:
  assumes "reachable b n s"
  shows "wasm_check s p z pol = Check_ok \<longleftrightarrow>
    (\<exists>a. covers s a p \<and> al_type_hash a = ap_type_hash pol \<and>
      unat p + unat (ap_offset pol) + unat (if ap_bytes pol = 0 then z else ap_bytes pol)
        \<le> unat (al_base a) + unat (al_size a))"
proof -
  note inv = reachable_imp_inv [OF assms]
  let ?n = "if ap_bytes pol = 0 then z else ap_bytes pol"
  have eq: "wasm_check s p z pol =
      (if ap_offset pol > u64_max - ?n then Out_of_bounds
       else check p (ap_offset pol + ?n) (ap_type_hash pol) s)"
    by (simp add: wasm_check_def Let_def)
  show ?thesis
  proof (cases "ap_offset pol > u64_max - ?n")
    case True
    then show ?thesis using guard_unnecessary [OF inv, of _ p "ap_offset pol" ?n]
      unfolding eq by (metis check_result.distinct(5))
  next
    case False
    then show ?thesis unfolding eq by (simp only: if_False guarded_check [OF inv False])
  qed
qed

theorem wasm_check_safe_witness:
  "wasm_check demo 65536 1000 \<lparr>ap_type_hash = 100, ap_offset = 8, ap_bytes = 16\<rparr> = Check_ok \<and>
   wasm_check demo 65536 17 \<lparr>ap_type_hash = 100, ap_offset = 8, ap_bytes = 0\<rparr> \<noteq> Check_ok \<and>
   (\<exists>a. covers demo a 65536 \<and> al_type_hash a = 100)"
proof -
  have "wasm_check demo 65536 1000 \<lparr>ap_type_hash = 100, ap_offset = 8, ap_bytes = 16\<rparr> = Check_ok"
    "wasm_check demo 65536 17 \<lparr>ap_type_hash = 100, ap_offset = 8, ap_bytes = 0\<rparr> \<noteq> Check_ok"
    by code_simp+
  then show ?thesis
    using wasm_check_safe [OF demo_reachable, of 65536 1000 "\<lparr>ap_type_hash = 100, ap_offset = 8, ap_bytes = 16\<rparr>"]
    by auto
qed

end
