(* ===== verification/LabelFacts.thy ===== *)
theory LabelFacts
  imports BoundaryPolicy WasmPolicy
begin

text \<open>
  Uniqueness of the generated names: the labels of precise and helper sites, and the names of
  the wasm imports.  All of them end in a decimal number after a fixed character, so the
  number can be read back.
\<close>

lemma number_suffix:
  assumes eq: "x @ c # nat_str i = y @ c # nat_str j" and c: "\<not> is_digit c"
  shows "x = y \<and> i = j"
proof -
  have digits: "takeWhile is_digit (rev (nat_str n) @ c # z) = rev (nat_str n)" for n z
    using nat_str_digits [of n] c by (subst takeWhile_append2) (auto simp: list_all_iff)
  have "rev (nat_str i) @ c # rev x = rev (nat_str j) @ c # rev y"
    using arg_cong [OF eq, of rev] by simp
  then have "rev (nat_str i) = rev (nat_str j)" by (metis digits)
  then have "nat_str i = nat_str j" by simp
  with eq show ?thesis by simp
qed

lemma underscore_not_digit [simp]: "\<not> is_digit (CHR ''_'')"
  by (simp add: is_digit_def code_point_def)

lemma labels_inject:
  "x @ ''_'' @ nat_str i = y @ ''_'' @ nat_str j \<longleftrightarrow> x = y \<and> i = j"
  using number_suffix [of x "CHR ''_''" i y j] by auto

text \<open>A label is a stem with a number and one of the two endings.\<close>

definition label_pair :: "string \<Rightarrow> nat \<Rightarrow> string \<times> string" where
  "label_pair stem n = (let p = stem @ ''_'' @ nat_str n in (p @ ''_begin'', p @ ''_end''))"

lemma site_symbols_pair:
  "site_symbols a n = label_pair (''interspec_alloc_site_'' @ symbol (ae_function a)) n"
  by (simp add: site_symbols_def label_pair_def)

lemma helper_symbols_pair:
  "helper_symbols ns h n = label_pair (''interspec_alloc_site_'' @ symbol ns @ ''_'' @ symbol h) n"
  by (simp add: helper_symbols_def label_pair_def)

lemma begin_not_end: "x @ ''_begin'' \<noteq> y @ ''_end''"
proof
  assume "x @ ''_begin'' = y @ ''_end''"
  then have "last (x @ ''_begin'') = last (y @ ''_end'')" by (rule arg_cong)
  then show False by simp
qed

lemma label_pair_disjoint:
  assumes "m \<noteq> n"
  shows "{fst (label_pair x m), snd (label_pair x m)} \<inter> {fst (label_pair y n), snd (label_pair y n)} = {}"
  using labels_inject [of x m y n] assms begin_not_end begin_not_end [THEN not_sym]
  by (auto simp: label_pair_def Let_def simp flip: append_assoc)

lemma label_pair_distinct: "fst (label_pair x n) \<noteq> snd (label_pair x n)"
  by (simp add: label_pair_def Let_def begin_not_end del: append_assoc append_eq_append_conv)

lemma label_pair_inject: "label_pair x m = label_pair y n \<longleftrightarrow> x = y \<and> m = n"
  using labels_inject [of x m y n] by (auto simp: label_pair_def Let_def simp flip: append_assoc)

text \<open>
  Property C19. Inside one generated module every label is unique: two sites with different
  ids, precise or helper, in any function and namespace, share no label, and the two labels
  of one site differ.
\<close>

theorem site_labels_distinct:
  assumes "m \<noteq> n"
    and "L \<in> {site_symbols a m, helper_symbols ns h m}"
    and "M \<in> {site_symbols b n, helper_symbols ns' h' n}"
  shows "fst L \<noteq> snd L \<and> {fst L, snd L} \<inter> {fst M, snd M} = {}"
proof -
  obtain x where L: "L = label_pair x m" using assms(2) site_symbols_pair helper_symbols_pair by blast
  obtain y where M: "M = label_pair y n" using assms(3) site_symbols_pair helper_symbols_pair by blast
  show ?thesis unfolding L M by (intro conjI label_pair_distinct label_pair_disjoint assms(1))
qed

theorem site_labels_distinct_witness:
  "fst (site_symbols \<lparr>ae_function = ''f'', ae_type = ''T'', ae_site = None\<rparr> 1) \<noteq>
     snd (site_symbols \<lparr>ae_function = ''f'', ae_type = ''T'', ae_site = None\<rparr> 1) \<and>
   fst (site_symbols \<lparr>ae_function = ''f'', ae_type = ''T'', ae_site = None\<rparr> 1) \<noteq>
     fst (helper_symbols ''f'' ''1'' 11)"
proof -
  let ?a = "\<lparr>ae_function = ''f'', ae_type = ''T'', ae_site = None\<rparr>"
  have "(1 :: nat) \<noteq> 11" by simp
  from site_labels_distinct [OF this, of "site_symbols ?a 1" ?a "''f''" "''1''" "helper_symbols ''f'' ''1'' 11"
      ?a "''f''" "''1''"]
  show ?thesis by blast
qed

text \<open>
  Across modules the labels are not unique.  Helper labels of different
  boundaries coincide exactly when the site numbers and the joined stems coincide, and the
  join of namespace and name is ambiguous: the pairs (a, b_c) and (a_b, c) give one label.
  The labels of precise sites do not depend on the namespace at all.
\<close>

theorem helper_labels_not_global:
  "(helper_symbols ns h m = helper_symbols ns' h' n \<longleftrightarrow>
      m = n \<and> symbol ns @ ''_'' @ symbol h = symbol ns' @ ''_'' @ symbol h') \<and>
   helper_symbols ''a'' ''b_c'' m = helper_symbols ''a_b'' ''c'' m \<and>
   helper_symbols ''a::b'' ''c'' m = helper_symbols ''a__b'' ''c'' m"
proof -
  have "symbol ''a'' @ ''_'' @ symbol ''b_c'' = symbol ''a_b'' @ ''_'' @ symbol ''c''"
    and "symbol ''a::b'' = symbol ''a__b''" by code_simp+
  then show ?thesis by (auto simp: helper_symbols_pair label_pair_inject)
qed

text \<open>
  Property C20. The import that serves a wasm site identifies the site: two import names are
  equal only for the same local number and the same identifier of the namespace, and two C
  names only for the same number and the same stem.
\<close>

theorem wasm_names_identify:
  assumes "site_import_name ns m = Inr x" and "site_import_name ns' n = Inr y"
  shows "(x = y \<longleftrightarrow> m = n \<and> cpp ns = cpp ns') \<and>
    (site_c_name ns m = site_c_name ns' n \<longleftrightarrow> m = n \<and> c_stem ns = c_stem ns')"
proof -
  have e: "\<not> is_digit (CHR ''e'')" by (simp add: is_digit_def code_point_def)
  have x: "x = (''interspecWasmAlloc'' @ cpp ns @ ''Sit'') @ CHR ''e'' # nat_str m"
    and y: "y = (''interspecWasmAlloc'' @ cpp ns' @ ''Sit'') @ CHR ''e'' # nat_str n"
    using assms by (auto simp: site_import_name_def import_stem_def Let_def res_bind_def split: if_splits)
  have "x = y \<longleftrightarrow> m = n \<and> cpp ns = cpp ns'"
    using number_suffix [OF _ e, of "''interspecWasmAlloc'' @ cpp ns @ ''Sit''" m
        "''interspecWasmAlloc'' @ cpp ns' @ ''Sit''" n]
    unfolding x y by auto
  moreover have "site_c_name ns m = site_c_name ns' n \<longleftrightarrow> m = n \<and> c_stem ns = c_stem ns'"
    using labels_inject [of "''interspec_wasm_alloc_'' @ c_stem ns @ ''_site''" m
        "''interspec_wasm_alloc_'' @ c_stem ns' @ ''_site''" n]
    by (auto simp: site_c_name_def)
  ultimately show ?thesis by blast
qed

theorem wasm_names_identify_witness:
  "site_import_name ''a::b'' 1 = Inr ''interspecWasmAllocABSite1'' \<and>
   site_c_name ''a::b'' 1 \<noteq> site_c_name ''a::b'' 11"
proof -
  have "site_import_name ''a::b'' 1 = Inr ''interspecWasmAllocABSite1''"
    "site_import_name ''a::b'' 11 = Inr ''interspecWasmAllocABSite11''"
    by code_simp+
  from this wasm_names_identify [OF this] show ?thesis by simp
qed

end
