(* ===== verification/PolicyProvenance.thy ===== *)
theory PolicyProvenance
  imports Registration EmittedSafety LabelFacts
begin

text \<open>
  From the policy to the trusted tables: the headers emitted for an accepted policy register
  completely on a fresh runtime, and allocation by program counter then gives every block the
  type that the policy lists for the site.
\<close>

text \<open>A block got from a registered row, on the checks the trusted side uses.\<close>

lemma find_registered_row:
  assumes inv: "runtime_inv s" and row: "row_registered resolve s (i, t, b, e)"
    and pc: "resolve b \<le> pc" "pc < resolve e"
  shows "\<exists>d. find_site_unlocked pc s = Some d \<and> as_id d = i \<and>
    um_find (rt_types s) t = Some (as_type_hash d)"
proof -
  obtain h where h: "um_find (rt_types s) t = Some h" "om_find (rt_sites s) (resolve b) =
      Some \<lparr>as_id = i, as_begin = resolve b, as_end = resolve e, as_type_id = t, as_type_hash = h\<rparr>"
    using row by (auto simp: row_registered_def)
  then have "find_site_unlocked pc s =
      Some \<lparr>as_id = i, as_begin = resolve b, as_end = resolve e, as_type_id = t, as_type_hash = h\<rparr>"
    using pc inv by (simp add: find_site_iff runtime_inv_def)
  with h(1) show ?thesis by simp
qed

lemma live_alloc_ok: "runtime_inv s \<Longrightarrow> om_find (rt_allocations s) k = Some a \<Longrightarrow> alloc_ok s k a"
  by (simp add: runtime_inv_def allocs_inv_def)

lemma unfold_pc_allocation:
  assumes inv: "runtime_inv s" and d: "find_site_unlocked pc s = Some d"
    and call: "allocate_from_pc z pc s = (r, t)" and r: "r \<noteq> 0"
  shows "check r z (as_type_hash d) t = Check_ok \<and> allocation_site_of r x t = (True, as_id d)"
proof -
  have do: "do_alloc (By_pc pc) z s = (r, t)" using call by simp
  from fresh_block [OF inv do r] d
  have a: "om_find (rt_allocations t) r =
      Some \<lparr>al_base = r, al_size = z, al_type_hash = as_type_hash d, al_site_id = as_id d\<rparr>" by auto
  have inv': "runtime_inv t" using allocate_from_pc_inv [OF inv, of z pc] call by simp
  have "0 < unat z" using live_alloc_ok [OF inv' a] by (simp add: alloc_ok_def)
  then have "covers t \<lparr>al_base = r, al_size = z, al_type_hash = as_type_hash d, al_site_id = as_id d\<rparr> r"
    using a by (simp add: covers_def)
  from check_covered [OF inv' this, of z "as_type_hash d"] a show ?thesis
    by (simp add: allocation_site_of_def)
qed

text \<open>The rows of an accepted policy meet the conditions of registration.\<close>

lemma policy_rows:
  assumes "types_registrable types" and "ae_type ` set as \<subseteq> set types" and "length as < 2 ^ 32 - 1"
  shows "distinct (map fst (site_constants (enumerate_ids types) (site_rows 1 as)))"
    and "0 \<notin> fst ` set (site_constants (enumerate_ids types) (site_rows 1 as))"
proof -
  let ?rows = "site_constants (enumerate_ids types) (site_rows 1 as)"
  have "map fst ?rows = map word_of_nat (map fst (site_rows 1 as))"
    by (simp add: site_constants_def comp_def split_beta)
  then have m: "map fst ?rows = map word_of_nat [1 ..< 1 + length (site_rows 1 as)]"
    by (simp only: site_rows_ids)
  have len: "1 + length (site_rows 1 as) < 2 ^ 32"
    using assms(3) site_rows_bound [of 1 as] by simp
  have "inj_on (word_of_nat :: nat \<Rightarrow> u32) (set [1 ..< 1 + length (site_rows 1 as)])"
    using len by (auto simp: inj_on_def u32_inj)
  then show "distinct (map fst ?rows)"
    unfolding m by (simp only: distinct_map distinct_upt simp_thms)
  have "(word_of_nat i :: u32) \<noteq> 0" if "i \<in> set [1 ..< 1 + length (site_rows 1 as)]" for i
    using that len u32_inj [of i 0] by auto
  then have "0 \<notin> set (map fst ?rows)" unfolding m by auto
  then show "0 \<notin> fst ` set ?rows" by simp
qed

lemma policy_row_type:
  assumes reg: "types_registrable types" and ty: "\<forall>(t, i) \<in> set (enumerate_ids types).
      um_find tab (word_of_nat i) = Some (word_of_nat (hash_type t))"
    and a: "ae_type a \<in> set types"
  shows "um_find tab (k_type_id (enumerate_ids types) (cpp (ae_type a))) = Some (word_of_nat (hash_type (ae_type a)))"
proof -
  have d: "distinct types" using reg by (simp add: types_registrable_def)
  have "ae_type a \<in> set (map fst (enumerate_ids types))" using a enumerate_ids_fst [OF d] by simp
  then obtain i where i: "(ae_type a, i) \<in> set (enumerate_ids types)" by auto
  have "distinct (map (cpp \<circ> fst) (enumerate_ids types))"
    using reg enumerate_ids_fst [OF d] by (simp add: types_registrable_def flip: map_map)
  from type_constants_lookup(1) [OF this i] ty i show ?thesis by auto
qed

lemma policy_registration:
  assumes reg: "types_registrable types" and as: "ae_type ` set as \<subseteq> set types"
    and len: "length as < 2 ^ 32 - 1"
    and res: "resolver_ok resolve (site_constants (enumerate_ids types) (site_rows 1 as))"
  shows "\<exists>s. initialize (emitted_register_types (enumerate_ids types))
      (emitted_register_sites (site_constants (enumerate_ids types) (site_rows 1 as))) resolve (new_runtime b n) =
      (True, s) \<and> runtime_inv s \<and>
    (\<forall>t \<in> set types.
      um_find (rt_types s) (k_type_id (enumerate_ids types) (cpp t)) = Some (word_of_nat (hash_type t))) \<and>
    dom (om_find (rt_sites s)) =
      (fst \<circ> row_interval resolve) ` set (site_constants (enumerate_ids types) (site_rows 1 as)) \<and>
    (\<forall>x \<in> set (site_constants (enumerate_ids types) (site_rows 1 as)). row_registered resolve s x)"
proof -
  let ?ids = "enumerate_ids types" and ?rows = "site_constants (enumerate_ids types) (site_rows 1 as)"
  obtain ty tids where f: "emitted_register_types ?ids (new_runtime b n) =
      (True, (new_runtime b n)\<lparr>rt_types := ty, rt_type_ids := tids\<rparr>)"
    and ty: "\<forall>(t, i) \<in> set ?ids. um_find ty (word_of_nat i) = Some (word_of_nat (hash_type t))"
    using type_registration [OF reg] by blast
  let ?s = "(new_runtime b n)\<lparr>rt_types := ty, rt_type_ids := tids\<rparr>"
  have inv: "runtime_inv ?s"
    using emitted_register_types_inv [OF new_runtime_inv, of ?ids b n] f by simp
  have types: "um_find ty (k_type_id ?ids (cpp t)) = Some (word_of_nat (hash_type t))" if "t \<in> set types" for t
    using policy_row_type [OF reg ty, of "\<lparr>ae_function = [], ae_type = t, ae_site = None\<rparr>"] that by simp
  have known: "\<forall>(_, t, _) \<in> set ?rows. um_find (rt_types ?s) t \<noteq> None"
    using types as by (fastforce simp: site_constants_def dest: site_rows_member)
  obtain s where s: "emitted_register_sites ?rows ?s resolve = (True, s)" "runtime_inv s" "rt_types s = rt_types ?s"
    "dom (om_find (rt_sites s)) = dom (om_find (rt_sites ?s)) \<union> (fst \<circ> row_interval resolve) ` set ?rows"
    "\<forall>x \<in> set ?rows. row_registered resolve s x"
    using sites_registration [OF inv res policy_rows [OF reg as len] _ known] by (auto simp: new_runtime_def)
  then show ?thesis using f types
    by (intro exI [of _ s]) (simp add: initialize_def new_runtime_def)
qed

definition pc_in_site :: "(string \<Rightarrow> u64) \<Rightarrow> alloc_entry \<Rightarrow> nat \<Rightarrow> u64 \<Rightarrow> bool" where
  "pc_in_site resolve a k pc \<longleftrightarrow>
     resolve (fst (site_symbols a k)) \<le> pc \<and> pc < resolve (snd (site_symbols a k))"

lemma numbered_site: "(j, k) \<in> set (numbered 0 1 as) \<Longrightarrow> as ! j \<in> set as"
  using numbered_index [of j k 0 1 as] by simp

lemma site_rows_numbered:
  "(k, row) \<in> set (site_rows k0 as) \<Longrightarrow>
   \<exists>j. (j, k) \<in> set (numbered index k0 as) \<and> row = (cpp (ae_type (as ! (j - index))), site_symbols (as ! (j - index)) k)"
proof (induction as arbitrary: index k0)
  case (Cons a as)
  show ?case
  proof (cases "ae_site a \<noteq> None \<and> (k, row) = (k0, cpp (ae_type a), site_symbols a k0)")
    case True
    then show ?thesis by (intro exI [of _ index]) simp
  next
    case False
    let ?k = "if ae_site a \<noteq> None then Suc k0 else k0"
    from False Cons.prems have "(k, row) \<in> set (site_rows ?k as)" by (auto split: if_splits)
    from Cons.IH [OF this, of "Suc index"] obtain j where
      j: "(j, k) \<in> set (numbered (Suc index) ?k as)"
      and row: "row = (cpp (ae_type (as ! (j - Suc index))), site_symbols (as ! (j - Suc index)) k)" by blast
    have "j - index = Suc (j - Suc index)" using conjunct1 [OF numbered_index [OF j]] by arith
    with j row show ?thesis by (intro exI [of _ j]) (simp split: if_splits)
  qed
qed simp

text \<open>The sites of the registered state are those of the policy, with their types.\<close>

lemma policy_site_found:
  assumes inv: "runtime_inv s"
    and ty: "\<forall>t \<in> set types. um_find (rt_types s) (k_type_id ids (cpp t)) = Some (word_of_nat (hash_type t))"
    and rows: "\<forall>x \<in> set (site_constants ids (site_rows 1 as)). row_registered resolve s x"
    and as: "ae_type ` set as \<subseteq> set types" and j: "(j, k) \<in> set (numbered 0 1 as)"
    and pc: "pc_in_site resolve (as ! j) k pc"
  shows "\<exists>d. find_site_unlocked pc s = Some d \<and> as_id d = word_of_nat k \<and>
    as_type_hash d = word_of_nat (hash_type (ae_type (as ! j)))"
proof -
  obtain b e where be: "site_symbols (as ! j) k = (b, e)" by (cases "site_symbols (as ! j) k")
  have "(k, cpp (ae_type (as ! j)), b, e) \<in> set (site_rows 1 as)"
    using site_rows_complete [OF j] be by simp
  then have "(word_of_nat k, k_type_id ids (cpp (ae_type (as ! j))), b, e) \<in> set (site_constants ids (site_rows 1 as))"
    by (force simp: site_constants_def)
  with rows have "row_registered resolve s (word_of_nat k, k_type_id ids (cpp (ae_type (as ! j))), b, e)" by blast
  from find_registered_row [OF inv this, of pc] pc be obtain d where
    d: "find_site_unlocked pc s = Some d" "as_id d = word_of_nat k"
    and h: "um_find (rt_types s) (k_type_id ids (cpp (ae_type (as ! j)))) = Some (as_type_hash d)"
    by (auto simp: pc_in_site_def)
  have "ae_type (as ! j) \<in> set types" using as numbered_site [OF j] by auto
  with ty h have "as_type_hash d = word_of_nat (hash_type (ae_type (as ! j)))" by auto
  with d show ?thesis by blast
qed

lemma policy_site_only:
  assumes inv: "runtime_inv s"
    and dom: "dom (om_find (rt_sites s)) =
      (fst \<circ> row_interval resolve) ` set (site_constants ids (site_rows 1 as))"
    and rows: "\<forall>x \<in> set (site_constants ids (site_rows 1 as)). row_registered resolve s x"
    and d: "find_site_unlocked pc s = Some d"
  shows "\<exists>j k. (j, k) \<in> set (numbered 0 1 as) \<and> pc_in_site resolve (as ! j) k pc"
proof -
  have site: "om_find (rt_sites s) (as_begin d) = Some d" "as_begin d \<le> pc" "pc < as_end d"
    using d inv by (simp_all add: find_site_iff runtime_inv_def)
  then have "as_begin d \<in> (fst \<circ> row_interval resolve) ` set (site_constants ids (site_rows 1 as))"
    using dom by blast
  then obtain k ident b e where row: "(k, ident, b, e) \<in> set (site_rows 1 as)"
    and b: "as_begin d = resolve b"
    by (auto simp: site_constants_def row_interval_def)
  then have c: "(word_of_nat k, k_type_id ids ident, b, e) \<in> set (site_constants ids (site_rows 1 as))"
    by (force simp: site_constants_def)
  have "as_end d = resolve e" using bspec [OF rows c] site(1) b by (auto simp: row_registered_def)
  moreover obtain j where "(j, k) \<in> set (numbered 0 1 as)" "(b, e) = site_symbols (as ! j) k"
    using site_rows_numbered [OF row, of 0] by auto
  ultimately show ?thesis using site b by (metis fst_conv pc_in_site_def snd_conv)
qed

text \<open>A policy with one site, and a linker, for the witness.\<close>

definition small_policy :: policy where
  "small_policy = \<lparr>p_types = [''T''],
     p_allocations = [\<lparr>ae_function = ''f'', ae_type = ''T'', ae_site = Some
       \<lparr>ss_start_line = 1, ss_start_column = 12, ss_end_line = 1, ss_end_column = 20\<rparr>\<rparr>],
     p_uses = []\<rparr>"

definition small_source :: string where
  "small_source = ''f(){return malloc(4);}''"

definition small_resolver :: "string \<Rightarrow> u64" where
  "small_resolver name = (if name \<noteq> [] \<and> last name = CHR ''n'' then 4096 else 4112)"

lemma small_policy_numbers:
  "number_sites (enumerate_ids (p_types small_policy)) (p_allocations small_policy) = Inr [(0, 1)]"
  by code_simp

lemma small_policy_rows:
  "resolver_ok small_resolver (site_constants (enumerate_ids (p_types small_policy))
     (site_entries [(0, 1)] (p_allocations small_policy)))"
  by (simp add: resolver_ok_def row_interval_def site_constants_def site_entries_def small_policy_def
      site_symbols_def small_resolver_def)

lemma small_source_edited:
  "\<exists>edited. instrument_source (numbered 0 1 (p_allocations small_policy)) (p_allocations small_policy)
     small_source = Inr edited"
proof -
  have "\<not> isl (instrument_source [(0, 1)] (p_allocations small_policy) small_source)" by code_simp
  moreover have "numbered 0 1 (p_allocations small_policy) = [(0, 1)]" by (simp add: small_policy_def)
  ultimately show ?thesis by (metis sum.collapse(2))
qed

lemma small_policy_accepted: "\<exists>edited u t. generate small_policy small_source = Inr (edited, u, t)"
proof -
  obtain edited where
    "instrument_source (numbered 0 1 (p_allocations small_policy)) (p_allocations small_policy) small_source = Inr edited"
    using small_source_edited by blast
  then have "\<exists>u t. generate small_policy small_source = Inr (edited, u, t)"
    unfolding accepted_iff by (simp add: small_policy_def)
  then show ?thesis by blast
qed

theorem generate_accepts_witness:
  "(\<exists>edited u t. generate small_policy small_source = Inr (edited, u, t)) \<and>
   \<not> (\<exists>edited u t. generate (small_policy\<lparr>p_types := [''T'', ''T'']\<rparr>) small_source = Inr (edited, u, t))"
proof -
  obtain edited where
    "instrument_source (numbered 0 1 (p_allocations small_policy)) (p_allocations small_policy) small_source = Inr edited"
    using small_source_edited by blast
  then have "\<exists>u t. generate small_policy small_source = Inr (edited, u, t)"
    unfolding generate_accepts by (simp add: small_policy_def)
  then show ?thesis
    using generate_accepts [of "small_policy\<lparr>p_types := [''T'', ''T'']\<rparr>" small_source] by auto
qed

text \<open>
  Property C13. From the policy to the metadata.  Take a policy that \<open>generate\<close> accepts, whose
  type identifiers stay distinct in C++, and a linker that puts the two labels of every site
  around non-empty, pairwise disjoint code ranges.  Then the emitted initialisation succeeds
  on a fresh runtime; every block allocated with a program counter inside the range of a site
  passes the check for the type the policy lists for that site, and carries its number; and a
  program counter outside all ranges of the policy gets nothing.
\<close>

theorem generated_policy_provenance:
  assumes gen: "generate pol source = Inr (edited, u, t)"
    and idents: "distinct (map cpp (p_types pol))"
    and size: "length (p_types pol) < 2 ^ 32 - 1" "length (p_allocations pol) < 2 ^ 32 - 1"
    and m: "number_sites (enumerate_ids (p_types pol)) (p_allocations pol) = Inr m"
    and res: "resolver_ok resolve
      (site_constants (enumerate_ids (p_types pol)) (site_entries m (p_allocations pol)))"
  shows "\<exists>s. initialize (emitted_register_types (enumerate_ids (p_types pol)))
      (emitted_register_sites (site_constants (enumerate_ids (p_types pol)) (site_entries m (p_allocations pol))))
      resolve (new_runtime b n) = (True, s) \<and>
    (\<forall>j k pc z r s' x. (j, k) \<in> set m \<longrightarrow> pc_in_site resolve (p_allocations pol ! j) k pc \<longrightarrow>
      allocate_from_pc z pc s = (r, s') \<longrightarrow> r \<noteq> 0 \<longrightarrow>
      check r z (word_of_nat (hash_type (ae_type (p_allocations pol ! j)))) s' = Check_ok \<and>
      allocation_site_of r x s' = (True, word_of_nat k)) \<and>
    (\<forall>pc z. (\<nexists>j k. (j, k) \<in> set m \<and> pc_in_site resolve (p_allocations pol ! j) k pc) \<longrightarrow>
      allocate_from_pc z pc s = (0, s))"
proof -
  let ?ids = "enumerate_ids (p_types pol)" and ?as = "p_allocations pol"
  let ?rows = "site_constants ?ids (site_rows 1 ?as)"
  have acc: "distinct (p_types pol)" "inj_on hash_type (set (p_types pol))" "ae_type ` set ?as \<subseteq> set (p_types pol)"
    using gen accepted_iff [of pol source edited] by blast+
  have m': "m = numbered 0 1 ?as" using m by (simp add: number_sites_Inr)
  then have entries: "site_entries m ?as = site_rows 1 ?as" using site_entries_eq by simp
  have reg: "types_registrable (p_types pol)" using acc idents size by (simp add: types_registrable_def)
  obtain s where init: "initialize (emitted_register_types ?ids) (emitted_register_sites ?rows) resolve
      (new_runtime b n) = (True, s)"
    and s: "runtime_inv s"
      "\<forall>t \<in> set (p_types pol). um_find (rt_types s) (k_type_id ?ids (cpp t)) = Some (word_of_nat (hash_type t))"
      "dom (om_find (rt_sites s)) = (fst \<circ> row_interval resolve) ` set ?rows"
      "\<forall>x \<in> set ?rows. row_registered resolve s x"
    using policy_registration [OF reg acc(3) size(2) res [unfolded entries]] by blast
  have "check r z (word_of_nat (hash_type (ae_type (?as ! j)))) s' = Check_ok \<and>
      allocation_site_of r x s' = (True, word_of_nat k)"
    if "(j, k) \<in> set m" "pc_in_site resolve (?as ! j) k pc" "allocate_from_pc z pc s = (r, s')" "r \<noteq> 0"
    for j k pc z r s' x
    using policy_site_found [OF s(1,2,4) acc(3) that(1) [unfolded m'] that(2)]
      unfold_pc_allocation [OF s(1) _ that(3,4)] by metis
  moreover have "allocate_from_pc z pc s = (0, s)"
    if "\<nexists>j k. (j, k) \<in> set m \<and> pc_in_site resolve (?as ! j) k pc" for pc z
  proof -
    have "find_site_unlocked pc s = None"
      using policy_site_only [OF s(1,3,4)] that m' by (cases "find_site_unlocked pc s") blast+
    then show ?thesis by (simp add: allocate_from_pc_def)
  qed
  ultimately show ?thesis using init entries by metis
qed

theorem generated_policy_provenance_witness:
  "\<exists>s. initialize (emitted_register_types (enumerate_ids (p_types small_policy)))
      (emitted_register_sites (site_constants (enumerate_ids (p_types small_policy))
        (site_entries [(0, 1)] (p_allocations small_policy))))
      small_resolver (new_runtime 65536 4096) = (True, s) \<and> allocate_from_pc 8 4112 s = (0, s)"
proof -
  obtain edited u t where gen: "generate small_policy small_source = Inr (edited, u, t)"
    using small_policy_accepted by blast
  have "\<not> pc_in_site small_resolver (p_allocations small_policy ! 0) 1 4112" by code_simp
  then have out: "\<nexists>j k. (j, k) \<in> set [(0, 1)] \<and> pc_in_site small_resolver (p_allocations small_policy ! j) k 4112"
    by simp
  show ?thesis
    using generated_policy_provenance [OF gen _ _ _ small_policy_numbers small_policy_rows, of 65536 4096] out
    by (simp add: small_policy_def) blast
qed

end
