(* ===== verification/WasmProvenance.thy ===== *)
theory WasmProvenance
  imports PolicyProvenance
begin

text \<open>
  The wasm tool from the policy to the trusted tables: the numbers and names of the site
  records in closed form, the registration of the emitted header on a fresh runtime, and what
  an allocation through a site's import then gives.
\<close>

section \<open>Site records\<close>

definition site_record :: "string \<Rightarrow> int \<Rightarrow> nat \<Rightarrow> string \<Rightarrow> string option \<Rightarrow> wasm_site" where
  "site_record ns base l ty h =
     \<lparr>ws_site_id = base + int l, ws_local_id = l, ws_type = ty,
      ws_import_name = ''interspecWasmAlloc'' @ cpp ns @ ''Site'' @ nat_str l,
      ws_c_name = site_c_name ns l, ws_helper_name = h\<rparr>"

lemma wasm_record_Inr:
  "wasm_record ns base l ty h = Inr r \<longleftrightarrow>
     0 \<le> base \<and> base \<le> max_site_id \<and> 0 < base + int l \<and> base + int l \<le> max_site_id \<and> cpp ns \<noteq> [] \<and>
     r = site_record ns base l ty h"
  by (auto simp: wasm_record_def runtime_site_id_def site_import_name_def import_stem_def res_bind_Inr
      if_Inl_Inr Let_def site_record_def)

lemma precise_record_Inr:
  "precise_record ns base a rs = Inr rs' \<longleftrightarrow>
     ae_site a \<noteq> None \<and> (\<exists>r. wasm_record ns base (length rs + 1) (ae_type a) None = Inr r \<and> rs' = rs @ [r])"
  by (auto simp: precise_record_def res_bind_Inr)

lemma precise_records:
  "res_fold (precise_record ns base) as rs = Inr rs' \<Longrightarrow>
   rs' = rs @ map (\<lambda>(l, a). site_record ns base l (ae_type a) None) (enumerate (length rs + 1) as) \<and>
   (as \<noteq> [] \<longrightarrow> 0 \<le> base \<and> base + int (length rs') \<le> max_site_id) \<and> (\<forall>a \<in> set as. ae_site a \<noteq> None)"
proof (induction as arbitrary: rs)
  case (Cons a as)
  from Cons.prems obtain r where r: "wasm_record ns base (length rs + 1) (ae_type a) None = Inr r"
    "ae_site a \<noteq> None" "res_fold (precise_record ns base) as (rs @ [r]) = Inr rs'"
    by (auto simp: res_bind_Inr precise_record_Inr)
  with Cons.IH [OF r(3)] show ?case by (cases as) (auto simp: wasm_record_Inr)
qed simp

lemma helper_records:
  "res_fold (helper_record ns base n) (enumerate k hs) (seen, rs) = Inr (seen', rs') \<Longrightarrow>
   rs' = rs @ map (\<lambda>(l, h). site_record ns base l (hs_type h) (Some (hs_name h))) (enumerate (n + k) hs) \<and>
   (hs \<noteq> [] \<longrightarrow> 0 \<le> base \<and> base + int (n + k + length hs - 1) \<le> max_site_id) \<and>
   distinct (map hs_name hs) \<and> hs_name ` set hs \<inter> set seen = {}"
proof (induction hs arbitrary: k seen rs)
  case (Cons h hs)
  from Cons.prems obtain r where r: "wasm_record ns base (n + k) (hs_type h) (Some (hs_name h)) = Inr r"
    "hs_name h \<notin> set seen"
    "res_fold (helper_record ns base n) (enumerate (Suc k) hs) (hs_name h # seen, rs @ [r]) = Inr (seen', rs')"
    by (auto simp: res_bind_Inr helper_record_def split: if_splits)
  with Cons.IH [OF r(3)] show ?case by (cases hs) (auto simp: wasm_record_Inr)
qed simp

lemma map_enumerate: "map F (enumerate i (map e zs)) = map (\<lambda>p. F (fst p, e (snd p))) (enumerate i zs)"
  by (rule nth_equalityI) (simp_all add: nth_enumerate_eq)

lemma enumerate_append_map:
  "map (\<lambda>(l, a). f l (g a)) (enumerate k xs) @ map (\<lambda>(l, b). f l (h b)) (enumerate (k + length xs) ys) =
   map (\<lambda>(l, z). f l z) (enumerate k (map g xs @ map h ys))"
  by (simp add: enumerate_append_eq case_prod_unfold map_enumerate)

text \<open>The sites of a policy and a boundary: types and helper names, in the order of the numbers.\<close>

definition wasm_site_list :: "policy \<Rightarrow> boundary \<Rightarrow> (string \<times> string option) list" where
  "wasm_site_list pol bd = map (\<lambda>a. (ae_type a, None)) (p_allocations pol) @
     map (\<lambda>h. (hs_type h, Some (hs_name h))) (bd_helper_sites bd)"

lemma site_records_closed:
  assumes "site_records pol bd ns base = Inr (records, n)"
  shows "records = map (\<lambda>(l, t, h). site_record ns base l t h) (enumerate 1 (wasm_site_list pol bd)) \<and>
    n = length (p_allocations pol) \<and> (records \<noteq> [] \<longrightarrow> 0 \<le> base \<and> base + int (length records) \<le> max_site_id)"
proof -
  obtain precise seen where p: "res_fold (precise_record ns base) (p_allocations pol) [] = Inr precise"
    and h: "res_fold (helper_record ns base (length precise)) (enumerate 1 (bd_helper_sites bd)) ([], precise) =
      Inr (seen, records)" and n: "n = length precise"
    using assms by (auto simp: site_records_def res_bind_Inr)
  note P = precise_records [OF p] and H = helper_records [OF h]
  have len: "length precise = length (p_allocations pol)" using P by simp
  have rec: "records = map (\<lambda>(l, a). site_record ns base l (ae_type a) None) (enumerate 1 (p_allocations pol)) @
      map (\<lambda>(l, h). site_record ns base l (hs_type h) (Some (hs_name h)))
        (enumerate (1 + length (p_allocations pol)) (bd_helper_sites bd))"
    using P H len by simp
  have "records = map (\<lambda>(l, t, h). site_record ns base l t h) (enumerate 1 (wasm_site_list pol bd))"
    unfolding rec wasm_site_list_def
    using enumerate_append_map [of "\<lambda>l (t, h). site_record ns base l t h" "\<lambda>a. (ae_type a, None)" 1 "p_allocations pol"
        "\<lambda>h. (hs_type h, Some (hs_name h))" "bd_helper_sites bd"]
    by (simp add: case_prod_unfold)
  moreover have "0 \<le> base \<and> base + int (length records) \<le> max_site_id" if "records \<noteq> []"
    using that P H len rec by (cases "bd_helper_sites bd = []") auto
  ultimately show ?thesis using n len by blast
qed

lemma site_records_columns:
  assumes "site_records pol bd ns base = Inr (records, n)"
  shows "map ws_type records = map fst (wasm_site_list pol bd)"
    and "map ws_site_id records = map (\<lambda>i. base + 1 + int i) [0 ..< length records]"
    and "map ws_import_name records =
      map (\<lambda>i. ''interspecWasmAlloc'' @ cpp ns @ ''Site'' @ nat_str (1 + i)) [0 ..< length records]"
proof -
  have rec: "records = map (\<lambda>(l, t, h). site_record ns base l t h) (enumerate 1 (wasm_site_list pol bd))"
    using site_records_closed [OF assms] by blast
  show "map ws_type records = map fst (wasm_site_list pol bd)"
    "map ws_site_id records = map (\<lambda>i. base + 1 + int i) [0 ..< length records]"
    "map ws_import_name records =
      map (\<lambda>i. ''interspecWasmAlloc'' @ cpp ns @ ''Site'' @ nat_str (1 + i)) [0 ..< length records]"
    unfolding rec
    by (rule nth_equalityI; simp add: nth_enumerate_eq case_prod_unfold site_record_def)+
qed

lemma site_records_range:
  assumes "site_records pol bd ns base = Inr (records, n)" and "r \<in> set records"
  shows "ws_site_id r \<in> {1 .. max_site_id}"
proof -
  have "ws_site_id r \<in> set (map ws_site_id records)" using assms(2) by simp
  then show ?thesis
    using site_records_closed [OF assms(1)] assms(2) unfolding site_records_columns(2) [OF assms(1)] by auto
qed

text \<open>
  Property C29. The numbers of the wasm sites: the allocations of the policy and then the
  helpers of the boundary get consecutive numbers starting right after the base, in their
  order and with their types; all numbers are positive and fit 32 bits; and no two sites have
  the same number or the same import.
\<close>

theorem wasm_site_numbers:
  assumes "site_records pol bd ns base = Inr (records, n)"
  shows "map ws_type records = map ae_type (p_allocations pol) @ map hs_type (bd_helper_sites bd) \<and>
    n = length (p_allocations pol) \<and>
    map ws_site_id records = map (\<lambda>i. base + 1 + int i) [0 ..< length records] \<and>
    ws_site_id ` set records \<subseteq> {1 .. max_site_id} \<and>
    distinct (map ws_site_id records) \<and> distinct (map ws_import_name records)"
proof -
  note columns = site_records_columns [OF assms]
  have "ws_site_id ` set records \<subseteq> {1 .. max_site_id}" using site_records_range [OF assms] by blast
  moreover have "distinct (map ws_site_id records)" unfolding columns(2) by (simp add: distinct_map inj_on_def)
  moreover have "distinct (map ws_import_name records)" unfolding columns(3) by (simp add: distinct_map inj_on_def)
  ultimately show ?thesis using columns(1,2) site_records_closed [OF assms] by (simp add: wasm_site_list_def comp_def)
qed

section \<open>Registration\<close>

lemma register_wasm_ok:
  assumes "runtime_inv s" and "distinct (map fst rows)" and "0 \<notin> fst ` set rows"
    and "\<forall>i \<in> fst ` set rows. um_find (rt_site_types s) i = None"
    and "\<forall>(_, t) \<in> set rows. um_find (rt_types s) t \<noteq> None"
  shows "\<exists>s'. emitted_register_wasm rows s = (True, s') \<and> runtime_inv s' \<and> rt_types s' = rt_types s \<and>
    um_find (rt_site_types s') = um_find (rt_site_types s) ++
      map_of (map (\<lambda>(i, t). (i, the (um_find (rt_types s) t))) rows)"
  using assms
proof (induction rows arbitrary: s)
  case (Cons p rows)
  obtain i t where p: "p = (i, t)" by (cases p)
  obtain h where h: "um_find (rt_types s) t = Some h" using Cons.prems(5) p by auto
  let ?s = "s\<lparr>rt_site_types := um_emplace i h (rt_site_types s)\<rparr>"
  have reg: "register_allocation_site_id i t s = (True, ?s)"
    using h Cons.prems(3,4) p by (auto simp: register_allocation_site_id_def)
  then have inv: "runtime_inv ?s" using register_allocation_site_id_inv [OF Cons.prems(1), of i t] by simp
  have fresh: "um_find (rt_site_types s) i = None" using Cons.prems(4) p by simp
  have find: "um_find (rt_site_types ?s) = (um_find (rt_site_types s))(i \<mapsto> h)" using fresh by simp
  have new: "i \<notin> fst ` set rows" using Cons.prems(2) p by simp
  have "\<exists>s'. emitted_register_wasm rows ?s = (True, s') \<and> runtime_inv s' \<and> rt_types s' = rt_types ?s \<and>
    um_find (rt_site_types s') = um_find (rt_site_types ?s) ++
      map_of (map (\<lambda>(i, t). (i, the (um_find (rt_types ?s) t))) rows)"
    using Cons.prems new p by (intro Cons.IH inv) (auto simp: find)
  then obtain s' where s': "emitted_register_wasm rows ?s = (True, s')" "runtime_inv s'" "rt_types s' = rt_types s"
    and st: "um_find (rt_site_types s') = (um_find (rt_site_types s))(i \<mapsto> h) ++
      map_of (map (\<lambda>(i, t). (i, the (um_find (rt_types s) t))) rows)" unfolding find by auto
  have "map_of (map (\<lambda>(i, t). (i, the (um_find (rt_types s) t))) rows) i = None"
    using new by (auto simp: map_of_eq_None_iff image_iff)
  then have "um_find (rt_site_types s') = um_find (rt_site_types s) ++
      map_of (map (\<lambda>(i, t). (i, the (um_find (rt_types s) t))) (p # rows))"
    using p h by (auto simp: st fun_eq_iff map_add_def split: option.splits)
  moreover have "emitted_register_wasm (p # rows) s = (True, s')" using s'(1) reg p by simp
  ultimately show ?case using s'(2,3) by blast
qed (auto intro: exI)

text \<open>A block got through a registered site, on the checks the trusted side uses.\<close>

lemma site_allocation_checked:
  assumes inv: "runtime_inv s" and h: "um_find (rt_site_types s) i = Some h"
    and call: "allocate_from_site z i s = (r, t)" and r: "r \<noteq> 0"
  shows "check r z h t = Check_ok \<and> allocation_site_of r x t = (True, i)"
proof -
  have do: "do_alloc (By_site i) z s = (r, t)" using call by simp
  from fresh_block [OF inv do r] h
  have a: "om_find (rt_allocations t) r = Some \<lparr>al_base = r, al_size = z, al_type_hash = h, al_site_id = i\<rparr>" by auto
  have inv': "runtime_inv t" using allocate_from_site_inv [OF inv, of z i] call by simp
  have "0 < unat z" using live_alloc_ok [OF inv' a] by (simp add: alloc_ok_def)
  then have "covers t \<lparr>al_base = r, al_size = z, al_type_hash = h, al_site_id = i\<rparr> r"
    using a by (simp add: covers_def)
  from check_covered [OF inv' this, of z h] a show ?thesis by (simp add: allocation_site_of_def)
qed

lemma u32_of_site: "0 \<le> i \<Longrightarrow> i \<le> max_site_id \<Longrightarrow> 0 \<le> j \<Longrightarrow> j \<le> max_site_id \<Longrightarrow>
    (word_of_int i :: u32) = word_of_int j \<longleftrightarrow> i = j"
  by (simp add: word_of_int_eq_iff max_site_id_def take_bit_int_eq_self)

lemma wasm_accepted:
  assumes "generate_wasm_boundary pol source ns bd base = Inr out"
  shows "\<exists>pol' records n. wasm_prepare_policy pol bd = Inr pol' \<and> site_records pol' bd ns base = Inr (records, n) \<and>
    p_allocations pol' = p_allocations pol \<and>
    ae_type ` set (p_allocations pol') \<subseteq> set (p_types pol') \<and> hs_type ` set (bd_helper_sites bd) \<subseteq> set (p_types pol') \<and>
    inj_on hash_type (set (p_types pol'))"
proof -
  obtain pol' records n instr th where g: "wasm_prepare_policy pol bd = Inr pol'"
    "list_all (\<lambda>a. check_known (p_types pol') Unknown_allocation_type (ae_type a) = None) (p_allocations pol')"
    "list_all (\<lambda>h. check_known (p_types pol') Unknown_helper_type (hs_type h) = None) (bd_helper_sites bd)"
    "site_records pol' bd ns base = Inr (records, n)"
    "generate_t_header pol' records n ns base = Inr th"
    using assms by (auto simp: generate_wasm_boundary_def res_bind_Inr res_check_Inr)
  have "inj_on hash_type (set (p_types pol'))"
  proof -
    have "distinct (map (hash_type \<circ> fst) (enumerate_ids (p_types pol')))"
      using g(5) by (auto simp: generate_t_header_def Let_def res_bind_Inr check_hashes_Inr)
    then have "inj_on hash_type (set (map fst (enumerate_ids (p_types pol'))))"
      by (simp add: distinct_map flip: map_map)
    then show ?thesis using enumerate_ids_keys [of "p_types pol'"] by simp
  qed
  moreover have "p_allocations pol' = p_allocations pol"
    using g(1) by (auto simp: wasm_prepare_policy_def res_bind_Inr)
  ultimately show ?thesis using g by (auto simp: check_known_def list_all_iff split: if_splits)
qed

text \<open>
  Property C28. From the wasm policy to the metadata.  Take a policy and a boundary that the
  wasm tool accepts, with no type listed twice and distinct C++ identifiers.  Then the emitted
  registration succeeds on a fresh runtime; every block allocated through the import of a site
  passes the check for the type listed for that allocation or helper and carries the number of
  the site; and a number that is not one of the sites gets nothing.
\<close>

theorem wasm_policy_provenance:
  assumes gen: "generate_wasm_boundary pol source ns bd base = Inr out"
    and prep: "wasm_prepare_policy pol bd = Inr pol'"
    and recs: "site_records pol' bd ns base = Inr (records, n)"
    and types: "distinct (p_types pol')" "distinct (map cpp (p_types pol'))" "length (p_types pol') < 2 ^ 32 - 1"
  shows "\<exists>s1 s. emitted_register_types (enumerate_ids (p_types pol')) (new_runtime b c) = (True, s1) \<and>
    emitted_register_wasm (wasm_constants (enumerate_ids (p_types pol')) records) s1 = (True, s) \<and>
    (\<forall>rec z r t x. rec \<in> set records \<longrightarrow> allocate_from_site z (word_of_int (ws_site_id rec)) s = (r, t) \<longrightarrow>
      r \<noteq> 0 \<longrightarrow> check r z (word_of_nat (hash_type (ws_type rec))) t = Check_ok \<and>
        allocation_site_of r x t = (True, word_of_int (ws_site_id rec))) \<and>
    (\<forall>i z. i \<notin> (\<lambda>rec. word_of_int (ws_site_id rec)) ` set records \<longrightarrow> allocate_from_site z i s = (0, s))"
proof -
  let ?ids = "enumerate_ids (p_types pol')" and ?rows = "wasm_constants (enumerate_ids (p_types pol')) records"
  have acc: "ae_type ` set (p_allocations pol') \<subseteq> set (p_types pol')"
    "hs_type ` set (bd_helper_sites bd) \<subseteq> set (p_types pol')" "inj_on hash_type (set (p_types pol'))"
    using wasm_accepted [OF gen] prep recs by auto
  have reg: "types_registrable (p_types pol')" using acc(3) types by (simp add: types_registrable_def)
  obtain ty tids where f: "emitted_register_types ?ids (new_runtime b c) =
      (True, (new_runtime b c)\<lparr>rt_types := ty, rt_type_ids := tids\<rparr>)"
    and ty: "\<forall>(t, i) \<in> set ?ids. um_find ty (word_of_nat i) = Some (word_of_nat (hash_type t))"
    using type_registration [OF reg] by blast
  let ?s = "(new_runtime b c)\<lparr>rt_types := ty, rt_type_ids := tids\<rparr>"
  have inv: "runtime_inv ?s" using emitted_register_types_inv [OF new_runtime_inv, of ?ids b c] f by simp
  have known: "um_find ty (k_type_id ?ids (cpp t)) = Some (word_of_nat (hash_type t))" if "t \<in> set (p_types pol')" for t
    using policy_row_type [OF reg ty, of "\<lparr>ae_function = [], ae_type = t, ae_site = None\<rparr>"] that by simp
  have rec_types: "ws_type r \<in> set (p_types pol')" if "r \<in> set records" for r
  proof -
    note site_records_columns(1) [OF recs]
    then have "ws_type ` set records = fst ` set (wasm_site_list pol' bd)" by (metis set_map)
    also have "\<dots> \<subseteq> set (p_types pol')" using acc(1,2) by (auto simp: wasm_site_list_def image_Un image_image)
    finally show ?thesis using that by blast
  qed
  note ids = site_records_columns(2) [OF recs] and range = site_records_range [OF recs]
  have "distinct (map ws_site_id records)" unfolding ids by (simp add: distinct_map inj_on_def)
  then have dist: "distinct (map fst ?rows)"
  proof -
    assume d: "distinct (map ws_site_id records)"
    have "map fst ?rows = map word_of_int (map ws_site_id records)"
      by (simp add: wasm_constants_def comp_def case_prod_unfold)
    moreover have "inj_on (word_of_int :: int \<Rightarrow> u32) (set (map ws_site_id records))"
    proof (rule inj_onI)
      fix i j
      assume "i \<in> set (map ws_site_id records)" "j \<in> set (map ws_site_id records)"
      then have "i \<in> {1 .. max_site_id}" "j \<in> {1 .. max_site_id}" using range by auto
      then show "(word_of_int i :: u32) = word_of_int j \<Longrightarrow> i = j" using u32_of_site [of i j] by simp
    qed
    ultimately show ?thesis using d by (simp only: distinct_map simp_thms)
  qed
  have nz: "(word_of_int (ws_site_id r) :: u32) \<noteq> 0" if "r \<in> set records" for r
    using range [OF that] u32_of_site [of "ws_site_id r" 0] by auto
  have "\<exists>s'. emitted_register_wasm ?rows ?s = (True, s') \<and> runtime_inv s' \<and> rt_types s' = rt_types ?s \<and>
    um_find (rt_site_types s') = um_find (rt_site_types ?s) ++
      map_of (map (\<lambda>(i, t). (i, the (um_find (rt_types ?s) t))) ?rows)"
  proof (intro register_wasm_ok inv dist)
    show "0 \<notin> fst ` set ?rows" using nz by (auto simp: wasm_constants_def)
    show "\<forall>i \<in> fst ` set ?rows. um_find (rt_site_types ?s) i = None" by (simp add: new_runtime_def um_find_def)
    show "\<forall>(_, t) \<in> set ?rows. um_find (rt_types ?s) t \<noteq> None"
      using known rec_types by (auto simp: wasm_constants_def)
  qed
  then obtain s where s: "emitted_register_wasm ?rows ?s = (True, s)" "runtime_inv s"
    and st: "um_find (rt_site_types s) = map_of (map (\<lambda>(i, t). (i, the (um_find ty t))) ?rows)"
    by (auto simp: new_runtime_def um_find_def)
  have site: "um_find (rt_site_types s) (word_of_int (ws_site_id r)) = Some (word_of_nat (hash_type (ws_type r)))"
    if "r \<in> set records" for r
  proof -
    let ?tab = "map (\<lambda>(i, t). (i, the (um_find ty t))) ?rows"
    have "distinct (map fst ?tab)" using dist by (simp add: comp_def case_prod_unfold)
    moreover have "(word_of_int (ws_site_id r), word_of_nat (hash_type (ws_type r))) \<in> set ?tab"
      using that known [OF rec_types [OF that]] by (force simp: wasm_constants_def)
    ultimately show ?thesis unfolding st by (rule map_of_is_SomeI)
  qed
  have other: "um_find (rt_site_types s) i = None" if "i \<notin> (\<lambda>r. word_of_int (ws_site_id r)) ` set records" for i
    using that unfolding st by (auto simp: map_of_eq_None_iff wasm_constants_def)
  show ?thesis
  proof (intro exI conjI allI impI)
    show "emitted_register_types ?ids (new_runtime b c) = (True, ?s)" by (rule f)
    show "emitted_register_wasm ?rows ?s = (True, s)" by (rule s)
  next
    fix rec z r t x
    assume "rec \<in> set records" "allocate_from_site z (word_of_int (ws_site_id rec)) s = (r, t)" "r \<noteq> 0"
    from site_allocation_checked [OF s(2) site [OF this(1)] this(2,3)]
    show "check r z (word_of_nat (hash_type (ws_type rec))) t = Check_ok"
      "allocation_site_of r x t = (True, word_of_int (ws_site_id rec))" by blast+
  next
    fix i :: u32 and z
    assume "i \<notin> (\<lambda>r. word_of_int (ws_site_id r)) ` set records"
    then show "allocate_from_site z i s = (0, s)" using other by (simp add: allocate_from_site_def)
  qed
qed

text \<open>A policy with one site and a boundary with one helper, two thousand numbers up.\<close>

definition wasm_policy :: policy where
  "wasm_policy = small_policy"

definition wasm_boundary :: boundary where
  "wasm_boundary = \<lparr>bd_types = [''U''], bd_helper_sites = [\<lparr>hs_name = ''h'', hs_type = ''U''\<rparr>]\<rparr>"

definition wasm_records :: "wasm_site list" where
  "wasm_records = [site_record ''n'' 2000 1 ''T'' None, site_record ''n'' 2000 2 ''U'' (Some ''h'')]"

lemma wasm_policy_facts:
  "\<exists>out. generate_wasm_boundary wasm_policy small_source ''n'' wasm_boundary 2000 = Inr out"
  "wasm_prepare_policy wasm_policy wasm_boundary = Inr (small_policy\<lparr>p_types := [''T'', ''U'']\<rparr>)"
  "site_records (small_policy\<lparr>p_types := [''T'', ''U'']\<rparr>) wasm_boundary ''n'' 2000 = Inr (wasm_records, 1)"
  "distinct (map cpp [''T'', ''U''])"
proof -
  show prep: "wasm_prepare_policy wasm_policy wasm_boundary = Inr (small_policy\<lparr>p_types := [''T'', ''U'']\<rparr>)"
    by (simp add: wasm_prepare_policy_def wasm_policy_def wasm_boundary_def small_policy_def wasm_add_type_def)
  show recs: "site_records (small_policy\<lparr>p_types := [''T'', ''U'']\<rparr>) wasm_boundary ''n'' 2000 = Inr (wasm_records, 1)"
    by (simp add: site_records_def wasm_boundary_def small_policy_def precise_record_def helper_record_def
        wasm_records_def wasm_record_Inr [THEN iffD2] max_site_id_def cpp_def) code_simp
  show "distinct (map cpp [''T'', ''U''])" by code_simp
  show "\<exists>out. generate_wasm_boundary wasm_policy small_source ''n'' wasm_boundary 2000 = Inr out"
  proof -
    have "\<not> isl (wasm_instrument_source ''n'' (p_allocations small_policy) small_source)" by code_simp
    then obtain instr where "wasm_instrument_source ''n'' (p_allocations small_policy) small_source = Inr instr"
      by (metis sum.collapse(2))
    moreover have "\<exists>d. check_hashes (enumerate_ids [''T'', ''U'']) = Inr d"
    proof -
      have "hash_type ''T'' = 84" "hash_type ''U'' = 85"
        by (simp_all add: hash_type_def encode_def utf8_char_def code_point_def hash_step_eq)
      moreover have "enumerate_ids [''T'', ''U''] = [(''T'', 1), (''U'', 2)]" by code_simp
      ultimately show ?thesis by (simp add: check_hashes_Inr)
    qed
    ultimately show ?thesis using prep recs
      by (auto simp: generate_wasm_boundary_def check_known_def small_policy_def wasm_boundary_def generate_t_header_def Let_def)
  qed
qed

theorem wasm_site_numbers_witness:
  "map ws_site_id wasm_records = [2001, 2002] \<and> map ws_type wasm_records = [''T'', ''U''] \<and>
   distinct (map ws_import_name wasm_records)"
  using wasm_site_numbers [OF wasm_policy_facts(3)]
  by (simp add: wasm_records_def site_record_def wasm_boundary_def small_policy_def)

theorem wasm_policy_provenance_witness:
  "\<exists>s1 s. emitted_register_types (enumerate_ids [''T'', ''U'']) (new_runtime 65536 4096) = (True, s1) \<and>
    emitted_register_wasm (wasm_constants (enumerate_ids [''T'', ''U'']) wasm_records) s1 = (True, s) \<and>
    allocate_from_site 8 1 s = (0, s)"
proof -
  obtain out where gen: "generate_wasm_boundary wasm_policy small_source ''n'' wasm_boundary 2000 = Inr out"
    using wasm_policy_facts(1) by blast
  have P: "\<exists>s1 s. emitted_register_types (enumerate_ids [''T'', ''U'']) (new_runtime 65536 4096) = (True, s1) \<and>
    emitted_register_wasm (wasm_constants (enumerate_ids [''T'', ''U'']) wasm_records) s1 = (True, s) \<and>
    (\<forall>rec z r t x. rec \<in> set wasm_records \<longrightarrow> allocate_from_site z (word_of_int (ws_site_id rec)) s = (r, t) \<longrightarrow>
      r \<noteq> 0 \<longrightarrow> check r z (word_of_nat (hash_type (ws_type rec))) t = Check_ok \<and>
        allocation_site_of r x t = (True, word_of_int (ws_site_id rec))) \<and>
    (\<forall>i z. i \<notin> (\<lambda>rec. word_of_int (ws_site_id rec)) ` set wasm_records \<longrightarrow> allocate_from_site z i s = (0, s))"
    using wasm_policy_provenance [OF gen wasm_policy_facts(2,3), of 65536 4096] wasm_policy_facts(4) by simp
  have out: "(1 :: u32) \<notin> (\<lambda>rec. word_of_int (ws_site_id rec)) ` set wasm_records"
    by (simp add: wasm_records_def site_record_def)
  show ?thesis using P out by metis
qed

end
