(* ===== verification/PyInt.thy ===== *)
theory PyInt
  imports PyStr
begin

text \<open>
  Python's \<open>int(s)\<close> and \<open>int(s, 0)\<close> on a string: blanks around the numeral, an optional sign,
  digits with single underscores between them, and for base 0 the prefixes of the literals of
  the language.  \<open>None\<close> is the \<open>ValueError\<close>.
\<close>

text \<open>The blanks that \<open>int\<close> skips: without the four separators that \<open>isspace\<close> accepts.\<close>

definition int_blank :: "char \<Rightarrow> bool" where
  "int_blank c = (let n = code_point c in 9 \<le> n \<and> n \<le> 13 \<or> n = 32 \<or> n = 133 \<or> n = 160)"

definition strip_blanks :: "string \<Rightarrow> string" where
  "strip_blanks s = rev (dropWhile int_blank (rev (dropWhile int_blank s)))"

definition digit_value :: "nat \<Rightarrow> char \<Rightarrow> nat option" where
  "digit_value base c =
     (let n = code_point c;
          d = (if is_digit c then n - 48 else if is_lower c then n - 87
               else if is_upper c then n - 55 else base)
      in if d < base then Some d else None)"

text \<open>The digits of a numeral; the flag says that an underscore may not come next.\<close>

fun digits_value :: "nat \<Rightarrow> nat \<Rightarrow> bool \<Rightarrow> string \<Rightarrow> nat option" where
  "digits_value base acc gap [] = (if gap then None else Some acc)"
| "digits_value base acc gap (c # cs) =
     (if c = CHR ''_'' then (if gap then None else digits_value base acc True cs)
      else case digit_value base c of
        None \<Rightarrow> None
      | Some d \<Rightarrow> digits_value base (acc * base + d) False cs)"

definition with_sign :: "(string \<Rightarrow> nat option) \<Rightarrow> string \<Rightarrow> int option" where
  "with_sign read s =
     (case s of
        c # cs \<Rightarrow>
          if c = CHR ''-'' then map_option (\<lambda>n. - int n) (read cs)
          else if c = CHR ''+'' then map_option int (read cs)
          else map_option int (read s)
      | [] \<Rightarrow> None)"

definition py_int :: "string \<Rightarrow> int option" where
  "py_int s = with_sign (digits_value 10 0 True) (strip_blanks s)"

text \<open>After a base prefix one underscore may come first.\<close>

definition skip_underscore :: "string \<Rightarrow> string" where
  "skip_underscore s = (if s \<noteq> [] \<and> hd s = CHR ''_'' then tl s else s)"

definition literal_value :: "string \<Rightarrow> nat option" where
  "literal_value s =
     (let p = take 2 s; rest = skip_underscore (drop 2 s) in
      if p = ''0x'' \<or> p = ''0X'' then digits_value 16 0 True rest
      else if p = ''0o'' \<or> p = ''0O'' then digits_value 8 0 True rest
      else if p = ''0b'' \<or> p = ''0B'' then digits_value 2 0 True rest
      else if s \<noteq> [] \<and> hd s = CHR ''0'' then
        (case digits_value 10 0 True s of Some n \<Rightarrow> if n = 0 then Some 0 else None | None \<Rightarrow> None)
      else digits_value 10 0 True s)"

definition py_int_base0 :: "string \<Rightarrow> int option" where
  "py_int_base0 s = with_sign literal_value (strip_blanks s)"

section \<open>Reading back what \<open>str\<close> writes\<close>

lemma digit_value_digit [simp]: "d < 10 \<Longrightarrow> digit_value 10 (digit_char d) = Some d"
  by (simp add: digit_value_def is_digit_def)

lemma digits_value_snoc:
  "digits_value b a g s = Some n \<Longrightarrow> digit_value b c = Some d \<Longrightarrow> c \<noteq> CHR ''_'' \<Longrightarrow>
   digits_value b a g (s @ [c]) = Some (n * b + d)"
  by (induction s arbitrary: a g) (auto split: if_splits option.splits)

lemma digit_char_underscore [simp]: "d < 10 \<Longrightarrow> digit_char d \<noteq> CHR ''_''"
  using digit_char_code [of d] by (auto simp: code_point_def)

lemma digits_value_nat_str: "digits_value 10 0 True (nat_str n) = Some n"
proof (induction n rule: nat_str.induct)
  case (1 n)
  show ?case
  proof (cases "n < 10")
    case True
    then show ?thesis by (subst nat_str.simps) simp
  next
    case False
    have "digits_value 10 0 True (nat_str (n div 10) @ [digit_char (n mod 10)]) = Some (n div 10 * 10 + n mod 10)"
      by (rule digits_value_snoc) (simp_all add: 1 False)
    then show ?thesis using False by (subst nat_str.simps) simp
  qed
qed

lemma int_blank_digit: "is_digit c \<Longrightarrow> \<not> int_blank c"
  by (auto simp: is_digit_def int_blank_def)

lemma strip_blanks_solid:
  assumes "s \<noteq> []" and "\<not> int_blank (hd s)" and "\<not> int_blank (last s)"
  shows "strip_blanks s = s"
proof -
  have "dropWhile int_blank s = s" using assms by (cases s) auto
  moreover have "dropWhile int_blank (rev s) = rev s" using assms by (cases s rule: rev_cases) auto
  ultimately show ?thesis by (simp add: strip_blanks_def)
qed

lemma nat_str_ends:
  "is_digit (hd (nat_str n))" "is_digit (last (nat_str n))"
  using nat_str_digits [of n] by (auto simp: list_all_iff)

lemma py_int_int_str: "py_int (int_str i) = Some i"
proof (cases "i < 0")
  case True
  let ?s = "nat_str (nat (- i))"
  have "strip_blanks (CHR ''-'' # ?s) = CHR ''-'' # ?s"
    using nat_str_ends [of "nat (- i)"]
    by (intro strip_blanks_solid) (auto simp: int_blank_digit, simp add: int_blank_def code_point_def)
  then show ?thesis using True
    by (simp add: py_int_def int_str_def with_sign_def digits_value_nat_str)
next
  case False
  let ?s = "nat_str (nat i)"
  have s: "strip_blanks ?s = ?s"
    using nat_str_ends [of "nat i"] by (intro strip_blanks_solid) (auto simp: int_blank_digit)
  obtain c cs where c: "?s = c # cs" by (cases ?s) auto
  have "is_digit c" using nat_str_ends(1) [of "nat i"] c by simp
  then have "c \<noteq> CHR ''-''" "c \<noteq> CHR ''+''" by (auto simp: is_digit_def code_point_def)
  then show ?thesis using False s digits_value_nat_str [of "nat i"] c
    by (simp add: py_int_def int_str_def with_sign_def)
qed

end
