(* ===== verification/CodeqlPolicy.thy ===== *)
theory CodeqlPolicy
  imports PolicyData PyInt "HOL-Library.Product_Lexorder"
begin

text \<open>
  \<^verbatim>\<open>tools/codeql_policy_to_json.py\<close>: the rows of the CodeQL result, as \<open>csv.reader\<close> returns
  them, become a policy.  Reading the file and writing the JSON text are left out.
\<close>

text \<open>\<open>int(field)\<close>, with its \<open>ValueError\<close>.\<close>

definition int_field :: "string \<Rightarrow> policy_error + int" where
  "int_field s = (case py_int s of None \<Rightarrow> Inl (Not_an_integer s) | Some i \<Rightarrow> Inr i)"

text \<open>The optional span of an allocation row: four more columns, all positive.\<close>

definition row_site :: "string list \<Rightarrow> policy_error + site_span option" where
  "row_site row =
     (if length row \<ge> 10 then
        res_bind (int_field (row ! 6)) (\<lambda>start_line.
        res_bind (int_field (row ! 7)) (\<lambda>start_column.
        res_bind (int_field (row ! 8)) (\<lambda>end_line.
        res_bind (int_field (row ! 9)) (\<lambda>end_column.
        Inr (if min (min start_line start_column) (min end_line end_column) > 0
             then Some \<lparr>ss_start_line = start_line, ss_start_column = start_column,
                        ss_end_line = end_line, ss_end_column = end_column\<rparr>
             else None)))))
      else Inr None)"

text \<open>One iteration of the loop; the state is \<open>types\<close>, \<open>allocations\<close> and \<open>uses\<close>.\<close>

type_synonym rows_state = "string list \<times> alloc_entry list \<times> use_entry list"

definition read_row :: "string list \<Rightarrow> rows_state \<Rightarrow> policy_error + rows_state" where
  "read_row row = (\<lambda>(types, allocations, uses).
     if length row < 6 \<or> row ! 0 \<notin> {''allocation'', ''use'', ''dynamic_use''}
     then Inr (types, allocations, uses)
     else
       (let kind = row ! 0; name = row ! 1; type_name = row ! 2; function_name = row ! 3;
            offset = row ! 4; bytes = row ! 5;
            types' = List.insert type_name types
        in if kind = ''allocation'' then
             res_bind (row_site row) (\<lambda>site.
             Inr (types', allocations @ [\<lparr>ae_function = function_name, ae_type = type_name, ae_site = site\<rparr>], uses))
           else
             res_bind (int_field offset) (\<lambda>off.
             res_bind (if kind = ''dynamic_use'' then Inr None
                       else res_bind (int_field bytes) (\<lambda>b. Inr (Some b))) (\<lambda>size_opt.
             Inr (types', allocations,
                  uses @ [\<lparr>ue_name = name, ue_type = type_name, ue_offset = off, ue_bytes = size_opt,
                            ue_dynamic = (kind = ''dynamic_use'')\<rparr>])))))"

definition allocation_key :: "alloc_entry \<Rightarrow> string \<times> string \<times> int \<times> int" where
  "allocation_key allocation =
     (ae_function allocation, ae_type allocation,
      case ae_site allocation of None \<Rightarrow> 0 | Some site \<Rightarrow> ss_start_line site,
      case ae_site allocation of None \<Rightarrow> 0 | Some site \<Rightarrow> ss_start_column site)"

definition codeql_policy :: "string list list \<Rightarrow> policy_error + policy" where
  "codeql_policy rows =
     res_bind (res_fold read_row rows ([], [], [])) (\<lambda>(types, allocations, uses).
     Inr \<lparr>p_types = sort types,
          p_allocations = sort_key allocation_key allocations,
          p_uses = sort_key ue_name uses\<rparr>)"

end
