(* ===== verification/CodeqlFacts.thy ===== *)
theory CodeqlFacts
  imports CodeqlPolicy
begin

text \<open>
  The policies that the CodeQL converter writes are well formed: they name their types, and the
  generators that read them find what they rely on.
\<close>

text \<open>The loop invariant: the types are those of the entries, spans are positive, a use has a
  size exactly if it is not dynamic.\<close>

definition span_positive :: "site_span \<Rightarrow> bool" where
  "span_positive sp \<longleftrightarrow> 0 < ss_start_line sp \<and> 0 < ss_start_column sp \<and> 0 < ss_end_line sp \<and> 0 < ss_end_column sp"

definition rows_ok :: "rows_state \<Rightarrow> bool" where
  "rows_ok = (\<lambda>(types, allocations, uses).
     distinct types \<and> set types = ae_type ` set allocations \<union> ue_type ` set uses \<and>
     (\<forall>a \<in> set allocations. pred_option span_positive (ae_site a)) \<and>
     (\<forall>u \<in> set uses. ue_dynamic u = (ue_bytes u = None)))"

lemma row_site_positive: "row_site row = Inr site \<Longrightarrow> pred_option span_positive site"
  by (auto simp: row_site_def res_bind_Inr span_positive_def split: if_splits)

lemma read_row_ok: "rows_ok st \<Longrightarrow> read_row row st = Inr st' \<Longrightarrow> rows_ok st'"
proof -
  assume ok: "rows_ok st" and step: "read_row row st = Inr st'"
  obtain types allocations uses where st: "st = (types, allocations, uses)" by (cases st)
  show "rows_ok st'"
  proof (cases "length row < 6 \<or> row ! 0 \<notin> {''allocation'', ''use'', ''dynamic_use''}")
    case True
    then show ?thesis using ok step st by (simp add: read_row_def)
  next
    case False
    let ?ty = "row ! 2"
    consider (alloc) site where "row_site row = Inr site" "st' = (List.insert ?ty types,
          allocations @ [\<lparr>ae_function = row ! 3, ae_type = ?ty, ae_site = site\<rparr>], uses)"
      | (acc) off size_opt where "st' = (List.insert ?ty types, allocations,
          uses @ [\<lparr>ue_name = row ! 1, ue_type = ?ty, ue_offset = off, ue_bytes = size_opt,
                   ue_dynamic = (row ! 0 = ''dynamic_use'')\<rparr>])" "(row ! 0 = ''dynamic_use'') = (size_opt = None)"
      using step False st by (auto simp: read_row_def Let_def res_bind_Inr split: if_splits)
    then show ?thesis
    proof cases
      case alloc
      then show ?thesis using ok st row_site_positive by (auto simp: rows_ok_def)
    next
      case acc
      then show ?thesis using ok st by (auto simp: rows_ok_def)
    qed
  qed
qed

lemma read_rows_ok: "rows_ok st \<Longrightarrow> res_fold read_row rows st = Inr st' \<Longrightarrow> rows_ok st'"
proof (induction rows arbitrary: st)
  case (Cons row rows)
  then obtain st1 where "read_row row st = Inr st1" "res_fold read_row rows st1 = Inr st'"
    by (auto simp del: split_paired_Ex simp: res_bind_Inr)
  with Cons read_row_ok show ?case by blast
qed simp

text \<open>
  Property C30. The converter writes well-formed policies: its types are sorted, distinct and
  exactly those of its allocations and uses; the allocations are sorted by function, type and
  position and the uses by name; every span is positive; and a use carries a size exactly if
  it is not dynamic.
\<close>

theorem codeql_policy_wellformed:
  assumes "codeql_policy rows = Inr pol"
  shows "sorted (p_types pol) \<and> distinct (p_types pol) \<and>
    set (p_types pol) = ae_type ` set (p_allocations pol) \<union> ue_type ` set (p_uses pol) \<and>
    sorted (map allocation_key (p_allocations pol)) \<and> sorted (map ue_name (p_uses pol)) \<and>
    list_all (\<lambda>a. pred_option span_positive (ae_site a)) (p_allocations pol) \<and>
    list_all (\<lambda>u. ue_dynamic u = (ue_bytes u = None)) (p_uses pol)"
proof -
  obtain types allocations uses where f: "res_fold read_row rows ([], [], []) = Inr (types, allocations, uses)"
    and pol: "pol = \<lparr>p_types = sort types, p_allocations = sort_key allocation_key allocations,
      p_uses = sort_key ue_name uses\<rparr>"
    using assms by (auto simp: codeql_policy_def res_bind_Inr)
  have "rows_ok (types, allocations, uses)"
    by (rule read_rows_ok [OF _ f]) (simp add: rows_ok_def)
  then show ?thesis by (simp add: pol rows_ok_def list_all_iff)
qed

theorem codeql_policy_wellformed_witness:
  "\<exists>pol. codeql_policy [[''use'', ''u'', ''T'', ''f'', ''0'', ''4''], [''header''],
      [''allocation'', ''a'', ''S'', ''g'', '''', '''', ''3'', ''1'', ''3'', ''9'']] = Inr pol \<and>
     p_types pol = [''S'', ''T''] \<and> sorted (p_types pol)"
proof -
  let ?rows = "[[''use'', ''u'', ''T'', ''f'', ''0'', ''4''], [''header''],
      [''allocation'', ''a'', ''S'', ''g'', '''', '''', ''3'', ''1'', ''3'', ''9'']]"
  let ?pol = "\<lparr>p_types = [''S'', ''T''],
      p_allocations = [\<lparr>ae_function = ''g'', ae_type = ''S'', ae_site = Some
        \<lparr>ss_start_line = 3, ss_start_column = 1, ss_end_line = 3, ss_end_column = 9\<rparr>\<rparr>],
      p_uses = [\<lparr>ue_name = ''u'', ue_type = ''T'', ue_offset = 0, ue_bytes = Some 4, ue_dynamic = False\<rparr>]\<rparr>"
  have r: "codeql_policy ?rows = Inr ?pol" by code_simp
  then show ?thesis using codeql_policy_wellformed [OF r] by auto
qed

end
