(* ===== verification/NumberFacts.thy ===== *)
theory NumberFacts
  imports WasmPolicy CodeqlPolicy
begin

text \<open>
  The numbers that the tools read: the site-id base of the command line of the wasm tool, and
  the integer columns of the CodeQL result.
\<close>

text \<open>\<open>parse_site_id_base\<close>; both exceptions are \<open>ArgumentTypeError\<close>.\<close>

definition parse_site_id_base :: "string \<Rightarrow> policy_error + int" where
  "parse_site_id_base value =
     (case py_int_base0 value of
        None \<Rightarrow> Inl (Not_an_integer value)
      | Some parsed \<Rightarrow> if parsed < 0 \<or> parsed > max_site_id then Inl Bad_site_base else Inr parsed)"

lemma digit_char_0 [simp]: "digit_char 0 = CHR ''0''"
  by code_simp

lemma nat_str_first: "hd (nat_str n) = CHR ''0'' \<Longrightarrow> n = 0"
proof (induction n rule: nat_str.induct)
  case (1 n)
  show ?case
  proof (cases "n < 10")
    case True
    then have "digit_char n = digit_char 0" using 1(2) by (subst (asm) nat_str.simps) simp
    then have "48 + n = code_point (digit_char 0)" using True by (metis digit_char_code)
    then show ?thesis by (simp add: code_point_def)
  next
    case False
    then have "nat_str n = nat_str (n div 10) @ [digit_char (n mod 10)]" by (subst nat_str.simps) simp
    then have "hd (nat_str (n div 10)) = CHR ''0''" using 1(2) by simp
    with 1(1) False show ?thesis by simp
  qed
qed

lemma literal_value_nat_str: "literal_value (nat_str n) = Some n"
proof (cases "n = 0")
  case True
  have "nat_str 0 = ''0''" by (subst nat_str.simps) simp
  then show ?thesis using True digits_value_nat_str [of 0] by (simp add: literal_value_def Let_def)
next
  case False
  then have "hd (nat_str n) \<noteq> CHR ''0''" using nat_str_first by blast
  then have "take 2 (nat_str n) \<noteq> CHR ''0'' # w" for w by (cases "nat_str n") auto
  then show ?thesis using \<open>hd (nat_str n) \<noteq> CHR ''0''\<close>
    by (simp add: literal_value_def Let_def digits_value_nat_str)
qed

lemma py_int_base0_nat_str: "py_int_base0 (nat_str n) = Some (int n)"
proof -
  have s: "strip_blanks (nat_str n) = nat_str n"
    using nat_str_ends [of n] by (intro strip_blanks_solid) (auto simp: int_blank_digit)
  obtain c cs where c: "nat_str n = c # cs" by (cases "nat_str n") auto
  have "is_digit c" using nat_str_ends(1) [of n] c by simp
  then have "c \<noteq> CHR ''-''" "c \<noteq> CHR ''+''" by (auto simp: is_digit_def code_point_def)
  then show ?thesis using s literal_value_nat_str [of n] c by (simp add: py_int_base0_def with_sign_def)
qed

text \<open>
  Property C31. Numbers survive being written and read: every integer that a tool writes in
  decimal is read back by the CodeQL converter, and by the command line of the wasm tool if it
  is a 32-bit number, in which case alone the base is accepted.
\<close>

theorem decimal_round_trip:
  "int_field (int_str i) = Inr i \<and>
   (parse_site_id_base (nat_str n) = Inr (int n) \<longleftrightarrow> int n \<le> max_site_id) \<and>
   {j. \<exists>value. parse_site_id_base value = Inr j} \<subseteq> {0 .. max_site_id}"
  by (auto simp: int_field_def py_int_int_str parse_site_id_base_def py_int_base0_nat_str split: option.splits if_splits)

end
