(* ===== verification/SourceFacts.thy ===== *)
theory SourceFacts
  imports SourceEdit "HOL-Library.Product_Lexorder"
begin

text \<open>
  Source positions: what the offset computed from a line and a column denotes, and that
  offsets are ordered as the positions are.
\<close>

abbreviation line_start :: "string \<Rightarrow> nat \<Rightarrow> nat" where
  "line_start s k \<equiv> length (concat (take k (splitlines_keep s)))"

lemma strip_end_length: "length (strip_end c s) \<le> length s"
  by (simp add: strip_end_def)

lemma strip_end_prefix: "prefix (strip_end c s) s"
  by (auto simp: strip_end_def intro: prefixI [of _ _ "[last s]"] simp flip: append_butlast_last_id)

lemma visible_line_prefix: "prefix (visible_line t) t"
  unfolding visible_line_def by (meson prefix_order.trans strip_end_prefix)

lemma visible_line_length: "length (visible_line t) \<le> length t"
  by (rule prefix_length_le [OF visible_line_prefix])

lemma source_offset_Inr:
  "source_offset s l c e = Inr o1 \<longleftrightarrow>
     1 \<le> l \<and> l \<le> int (length (splitlines_keep s)) \<and> 1 \<le> c \<and>
     c \<le> int (length (visible_line (splitlines_keep s ! (nat l - 1)))) + (if e then 1 else 0) \<and>
     o1 = line_start s (nat l - 1) + nat c - (if e then 0 else 1)"
  by (auto simp: source_offset_def Let_def not_less length_concat)

lemma source_offset_start:
  assumes "source_offset s l c False = Inr o1"
  shows "nat l - 1 < length (splitlines_keep s)" and "Suc (nat l - 1) = nat l"
    and "nat c - 1 < length (visible_line (splitlines_keep s ! (nat l - 1)))"
    and "o1 = line_start s (nat l - 1) + (nat c - 1)"
proof -
  have *: "1 \<le> l" "l \<le> int (length (splitlines_keep s))" "1 \<le> c"
    "c \<le> int (length (visible_line (splitlines_keep s ! (nat l - 1))))"
    "o1 = line_start s (nat l - 1) + nat c - 1"
    using assms by (simp_all add: source_offset_Inr)
  then show "nat l - 1 < length (splitlines_keep s)" and "Suc (nat l - 1) = nat l"
    and "nat c - 1 < length (visible_line (splitlines_keep s ! (nat l - 1)))"
    and "o1 = line_start s (nat l - 1) + (nat c - 1)" by linarith+
qed

lemma take_line:
  assumes "k < length (splitlines_keep s)" and "n \<le> length (splitlines_keep s ! k)"
  shows "take (line_start s k + n) s = concat (take k (splitlines_keep s)) @ take n (splitlines_keep s ! k)"
proof -
  have "s = concat (take k (splitlines_keep s)) @ splitlines_keep s ! k @ concat (drop (Suc k) (splitlines_keep s))"
    using concat_splitlines_keep [of s] id_take_nth_drop [OF assms(1)]
    by (metis concat.simps(2) concat_append)
  then have "take (line_start s k + n) s = take (line_start s k + n) (concat (take k (splitlines_keep s)) @
      splitlines_keep s ! k @ concat (drop (Suc k) (splitlines_keep s)))" by simp
  also have "\<dots> = concat (take k (splitlines_keep s)) @ take n (splitlines_keep s ! k)"
    using assms(2) by simp
  finally show ?thesis .
qed

lemma line_start_Suc:
  "k < length (splitlines_keep s) \<Longrightarrow> line_start s (Suc k) = line_start s k + length (splitlines_keep s ! k)"
  by (simp add: take_Suc_conv_app_nth)

lemma line_start_mono: "j \<le> k \<Longrightarrow> line_start s j \<le> line_start s k"
proof -
  assume "j \<le> k"
  then have "take k (splitlines_keep s) = take j (splitlines_keep s) @ take (k - j) (drop j (splitlines_keep s))"
    by (metis le_add_diff_inverse take_add)
  then show ?thesis by simp
qed

lemma line_start_le_length: "line_start s k \<le> length s"
  by (metis append_take_drop_id concat_append concat_splitlines_keep le_add1 length_append)

text \<open>
  Property C25. The offset of a start position is the position: the text before it is the
  preceding lines and the preceding columns of its line, and the character at it is the one
  in that column.  The offset of an end position is the end of its column: the text before
  it includes the column.
\<close>

theorem source_offset_position:
  assumes "source_offset s l c False = Inr o1" and "source_offset s l' c' True = Inr o2"
  shows "take o1 s = concat (take (nat l - 1) (splitlines_keep s)) @
      take (nat c - 1) (splitlines_keep s ! (nat l - 1)) \<and>
    o1 < length s \<and> s ! o1 = visible_line (splitlines_keep s ! (nat l - 1)) ! (nat c - 1) \<and>
    (c' \<le> int (length (splitlines_keep s ! (nat l' - 1))) \<longrightarrow>
      take o2 s = concat (take (nat l' - 1) (splitlines_keep s)) @
        take (nat c') (splitlines_keep s ! (nat l' - 1)))"
proof -
  let ?L = "splitlines_keep s" and ?k = "nat l - 1" and ?n = "nat c - 1"
  have k: "?k < length ?L" and n: "?n < length (visible_line (?L ! ?k))" and o1: "o1 = line_start s ?k + ?n"
    using source_offset_start [OF assms(1)] by blast+
  have n': "?n < length (?L ! ?k)" using n visible_line_length le_trans not_le by blast
  have t1: "take o1 s = concat (take ?k ?L) @ take ?n (?L ! ?k)"
    unfolding o1 using take_line [OF k] n' by simp
  have "take (Suc o1) s = concat (take ?k ?L) @ take (Suc ?n) (?L ! ?k)"
    using take_line [OF k, of "Suc ?n"] n' by (simp add: o1)
  then have t2: "take (Suc o1) s = take o1 s @ [?L ! ?k ! ?n]" using t1 n' by (simp add: take_Suc_conv_app_nth)
  then have len: "o1 < length s" by (metis append_self_conv not_Cons_self2 not_le_imp_less take_all le_SucI)
  then have "s ! o1 = ?L ! ?k ! ?n" using t2 by (simp add: take_Suc_conv_app_nth)
  moreover have "?L ! ?k ! ?n = visible_line (?L ! ?k) ! ?n"
    using n visible_line_prefix [of "?L ! ?k"] by (metis nth_append prefixE)
  moreover have "take o2 s = concat (take (nat l' - 1) ?L) @ take (nat c') (?L ! (nat l' - 1))"
    if "c' \<le> int (length (?L ! (nat l' - 1)))"
  proof -
    have e: "1 \<le> l'" "l' \<le> int (length ?L)" "o2 = line_start s (nat l' - 1) + nat c'"
      using assms(2) by (auto simp: source_offset_Inr)
    have "nat l' - 1 < length ?L" using e(1,2) by linarith
    moreover have "nat c' \<le> length (?L ! (nat l' - 1))" using that by (simp only: nat_le_iff)
    ultimately show ?thesis unfolding e(3) by (rule take_line)
  qed
  ultimately show ?thesis using t1 len by simp
qed

theorem source_offset_position_witness:
  "source_offset (''ab'' @ [LF] @ ''cd'') 2 1 False = Inr 3 \<and> source_offset (''ab'' @ [LF] @ ''cd'') 2 2 True = Inr 5 \<and>
   take 5 (''ab'' @ [LF] @ ''cd'') = ''ab'' @ [LF] @ ''cd''"
proof -
  have "source_offset (''ab'' @ [LF] @ ''cd'') 2 1 False = Inr 3"
    and "source_offset (''ab'' @ [LF] @ ''cd'') 2 2 True = Inr 5" by code_simp+
  from this source_offset_position [OF this] show ?thesis by simp
qed

lemma offset_order:
  assumes "source_offset s l c False = Inr o1" and "source_offset s l' c' False = Inr o2"
  shows "o1 < o2 \<longleftrightarrow> (l, c) < (l', c')"
proof -
  have bounds: "line_start s (nat m - 1) \<le> p \<and> p < line_start s (nat m) \<and> p = line_start s (nat m - 1) + (nat d - 1)"
    if "source_offset s m d False = Inr p" for m d p
    using source_offset_start [OF that] visible_line_length [of "splitlines_keep s ! (nat m - 1)"]
      line_start_Suc [of "nat m - 1" s] by auto
  have pos: "1 \<le> l" "1 \<le> l'" "1 \<le> c" "1 \<le> c'" using assms by (auto simp: source_offset_Inr)
  have less: "p < q" if "m < m'" "1 \<le> m" and "source_offset s m d False = Inr p"
    "source_offset s m' d' False = Inr q" for m m' d d' p q
    using bounds [OF that(3)] bounds [OF that(4)] line_start_mono [of "nat m" "nat m' - 1" s] that(1,2)
    by linarith
  consider "l < l'" | "l' < l" | "l = l'" by linarith
  then show ?thesis
  proof cases
    case 1
    then show ?thesis using less [OF _ pos(1) assms] by simp
  next
    case 2
    then have "o2 < o1" using less [OF _ pos(2) assms(2,1)] by blast
    with 2 show ?thesis by simp
  next
    case 3
    have "o1 = line_start s (nat l - 1) + (nat c - 1)" and "o2 = line_start s (nat l - 1) + (nat c' - 1)"
      using bounds [OF assms(1)] bounds [OF assms(2)] 3 by blast+
    then have "o1 < o2 \<longleftrightarrow> nat c - 1 < nat c' - 1" by (simp only: nat_add_left_cancel_less)
    also have "\<dots> \<longleftrightarrow> c < c'" using pos(3,4) by linarith
    finally show ?thesis using 3 by simp
  qed
qed

end
