(* ===== verification/CallExtent.thy ===== *)
theory CallExtent
  imports SourceFacts
begin

text \<open>
  A reference for the scan of \<open>malloc_call_extent\<close>: a lexer of C comments and literals that
  reads one character at a time, and the depth of the parentheses in code.  The scan of the
  program, which looks one character ahead and skips two at a time, agrees with it.
\<close>

section \<open>The reference lexer\<close>

datatype lex = Code | Slash | Line_comment | Block_comment | Block_star | Quoted char | Escaped char

fun lex_step :: "lex \<Rightarrow> char \<Rightarrow> lex" where
  "lex_step Code c =
     (if c = CHR ''/'' then Slash else if c = DQ \<or> c = SQ then Quoted c else Code)"
| "lex_step Slash c =
     (if c = CHR ''/'' then Line_comment else if c = CHR ''*'' then Block_comment
      else if c = DQ \<or> c = SQ then Quoted c else Code)"
| "lex_step Line_comment c = (if c = LF then Code else Line_comment)"
| "lex_step Block_comment c = (if c = CHR ''*'' then Block_star else Block_comment)"
| "lex_step Block_star c =
     (if c = CHR ''/'' then Code else if c = CHR ''*'' then Block_star else Block_comment)"
| "lex_step (Quoted q) c = (if c = BSLASH then Escaped q else if c = q then Code else Quoted q)"
| "lex_step (Escaped q) c = Quoted q"

definition in_code :: "lex \<Rightarrow> bool" where
  "in_code st \<longleftrightarrow> st = Code \<or> st = Slash"

definition depth_step :: "lex \<Rightarrow> char \<Rightarrow> int" where
  "depth_step st c = (if in_code st \<and> c = CHR ''('' then 1 else if in_code st \<and> c = CHR '')'' then -1 else 0)"

text \<open>The depth after a text that starts in code.\<close>

fun depth_from :: "lex \<Rightarrow> int \<Rightarrow> string \<Rightarrow> int" where
  "depth_from st d [] = d"
| "depth_from st d (c # cs) = depth_from (lex_step st c) (d + depth_step st c) cs"

definition code_depth :: "string \<Rightarrow> int" where
  "code_depth s = depth_from Code 0 s"

text \<open>The length of the shortest prefix that closes the open parentheses.\<close>

fun close_from :: "lex \<Rightarrow> int \<Rightarrow> string \<Rightarrow> nat option" where
  "close_from st d [] = None"
| "close_from st d (c # cs) =
     (let d' = d + depth_step st c in
      if depth_step st c = -1 \<and> d' \<le> 0 then (if d' = 0 then Some 0 else None)
      else map_option Suc (close_from (lex_step st c) d' cs))"

text \<open>
  The variables of the loop in a state of the reference lexer.  After a slash, or a star in a
  comment, the loop has looked ahead, so it is in the state as if the character had no
  meaning, and the next character is not one that would complete a delimiter.
\<close>

inductive scan_state :: "lex \<Rightarrow> string \<Rightarrow> char option \<Rightarrow> bool \<Rightarrow> bool \<Rightarrow> bool \<Rightarrow> bool" where
  "scan_state Code s None False False False"
| "s = [] \<or> hd s \<noteq> CHR ''/'' \<and> hd s \<noteq> CHR ''*'' \<Longrightarrow> scan_state Slash s None False False False"
| "scan_state Line_comment s None False True False"
| "scan_state Block_comment s None False False True"
| "s = [] \<or> hd s \<noteq> CHR ''/'' \<Longrightarrow> scan_state Block_star s None False False True"
| "q = DQ \<or> q = SQ \<Longrightarrow> scan_state (Quoted q) s (Some q) False False False"
| "q = DQ \<or> q = SQ \<Longrightarrow> scan_state (Escaped q) s (Some q) True False False"

lemma quotes_distinct [simp]: "DQ \<noteq> BSLASH" "SQ \<noteq> BSLASH" "DQ \<noteq> LF" "SQ \<noteq> LF"
  "CHR ''('' \<noteq> DQ" "CHR ''('' \<noteq> SQ" "CHR '')'' \<noteq> DQ" "CHR '')'' \<noteq> SQ" "CHR ''/'' \<noteq> DQ" "CHR ''/'' \<noteq> SQ"
  "CHR ''*'' \<noteq> DQ" "CHR ''*'' \<noteq> SQ"
  by (simp_all add: DQ_def SQ_def BSLASH_def LF_def)

lemmas quotes_distinct_sym [simp] = quotes_distinct [THEN not_sym]

lemma map_plus_Suc [simp]: "map_option ((+) pos) (map_option Suc x) = map_option ((+) (Suc pos)) x"
  by (cases x) simp_all

text \<open>One character of the loop in each of its modes.\<close>

lemma close_from_step:
  "depth_step st c \<noteq> -1 \<Longrightarrow>
   close_from st d (c # cs) = map_option Suc (close_from (lex_step st c) (d + depth_step st c) cs)"
  by (simp add: Let_def)

lemma call_scan_line:
  "call_scan (c # r) pos d q esc True bc = call_scan r (Suc pos) d q esc (c \<noteq> LF) bc"
  by (simp add: call_scan.simps(2) Let_def)

lemma call_scan_block:
  "call_scan (c # r) pos d q esc False True =
     (if c = CHR ''*'' \<and> r \<noteq> [] \<and> hd r = CHR ''/'' then call_scan (tl r) (Suc (Suc pos)) d q esc False False
      else call_scan r (Suc pos) d q esc False True)"
  by (simp add: call_scan.simps(2) Let_def)

lemma call_scan_quote:
  "call_scan (c # r) pos d (Some q) esc False False =
     (if esc then call_scan r (Suc pos) d (Some q) False False False
      else if c = BSLASH then call_scan r (Suc pos) d (Some q) True False False
      else if c = q then call_scan r (Suc pos) d None False False False
      else call_scan r (Suc pos) d (Some q) False False False)"
  by (simp add: call_scan.simps(2) Let_def)

lemma call_scan_code:
  "call_scan (c # r) pos d None False False False =
     (if c = CHR ''/'' \<and> r \<noteq> [] \<and> hd r = CHR ''/'' then call_scan (tl r) (Suc (Suc pos)) d None False True False
      else if c = CHR ''/'' \<and> r \<noteq> [] \<and> hd r = CHR ''*'' then call_scan (tl r) (Suc (Suc pos)) d None False False True
      else if c = DQ \<or> c = SQ then call_scan r (Suc pos) d (Some c) False False False
      else if c = CHR ''('' then call_scan r (Suc pos) (d + 1) None False False False
      else if c = CHR '')'' then
        (if d - 1 = 0 then Some pos else if d - 1 < 0 then None
         else call_scan r (Suc pos) (d - 1) None False False False)
      else call_scan r (Suc pos) d None False False False)"
  by (simp add: call_scan.simps(2) Let_def)

lemma call_scan_close:
  assumes "scan_state st s q esc lc bc" and "0 \<le> d"
  shows "call_scan s pos d q esc lc bc = map_option ((+) pos) (close_from st d s)"
  using assms
proof (induction "length s" arbitrary: st s pos d q esc lc bc rule: less_induct)
  case less
  show ?case
  proof (cases s)
    case Nil
    then show ?thesis by simp
  next
    case (Cons c r)
    have IH: "call_scan t p e q' esc' lc' bc' = map_option ((+) p) (close_from st' e t)"
      if "length t < length s" "scan_state st' t q' esc' lc' bc'" "0 \<le> e" for t p e q' esc' lc' bc' st'
      using less.hyps that by blast
    have len: "length r < length s" "r \<noteq> [] \<Longrightarrow> length (tl r) < length s" using Cons by simp_all
    have code: "call_scan s pos d None False False False = map_option ((+) pos) (close_from st d s)"
      if st: "st = Code \<or> st = Slash \<and> c \<noteq> CHR ''/'' \<and> c \<noteq> CHR ''*''" and q: "q = None" "\<not> esc" "\<not> lc" "\<not> bc"
    proof -
      consider (slash) "c = CHR ''/''" | (quo) "c = DQ \<or> c = SQ" | (opn) "c = CHR ''(''"
        | (cls) "c = CHR '')''" | (oth) "c \<notin> {CHR ''/'', DQ, SQ, CHR ''('', CHR '')''}" by blast
      then show ?thesis
      proof cases
        case slash
        with st have st': "st = Code" by simp
        consider (plain) "r = [] \<or> hd r \<noteq> CHR ''/'' \<and> hd r \<noteq> CHR ''*''"
          | (line) u where "r = CHR ''/'' # u" | (block) u where "r = CHR ''*'' # u"
          by (cases r) auto
        then show ?thesis
        proof cases
          case plain
          then have "scan_state Slash r None False False False" by (rule scan_state.intros)
          from IH [OF len(1) this less.prems(2)] plain slash st' q Cons show ?thesis
            by (auto simp: call_scan_code close_from_step depth_step_def simp del: close_from.simps)
        next
          case line
          have "scan_state Line_comment u None False True False" by (rule scan_state.intros)
          from IH [OF _ this less.prems(2)] line slash st' q Cons show ?thesis
            by (simp add: call_scan_code close_from_step depth_step_def del: close_from.simps)
        next
          case block
          have "scan_state Block_comment u None False False True" by (rule scan_state.intros)
          from IH [OF _ this less.prems(2)] block slash st' q Cons show ?thesis
            by (simp add: call_scan_code close_from_step depth_step_def del: close_from.simps)
        qed
      next
        case quo
        then have "scan_state (Quoted c) r (Some c) False False False" by (rule scan_state.intros)
        from IH [OF len(1) this less.prems(2)] quo st q Cons show ?thesis
          by (auto simp: call_scan_code close_from_step depth_step_def simp del: close_from.simps)
      next
        case opn
        have "scan_state Code r None False False False" by (rule scan_state.intros)
        from IH [OF len(1) this, of "d + 1"] less.prems(2) opn st q Cons show ?thesis
          by (auto simp: call_scan_code close_from_step depth_step_def in_code_def simp del: close_from.simps)
      next
        case cls
        have "scan_state Code r None False False False" by (rule scan_state.intros)
        from IH [OF len(1) this, of "d - 1"] less.prems(2) cls st q Cons show ?thesis
          by (auto simp: call_scan_code depth_step_def in_code_def Let_def)
      next
        case oth
        have "scan_state Code r None False False False" by (rule scan_state.intros)
        from IH [OF len(1) this less.prems(2)] oth st q Cons show ?thesis
          by (auto simp: call_scan_code close_from_step depth_step_def simp del: close_from.simps)
      qed
    qed
    from less.prems(1) show ?thesis
    proof (cases rule: scan_state.cases)
      case 1
      then show ?thesis using code by simp
    next
      case 2
      then show ?thesis using code Cons by simp
    next
      case 3
      have "scan_state (lex_step Line_comment c) r None False (c \<noteq> LF) False"
        by (auto intro: scan_state.intros)
      from IH [OF len(1) this less.prems(2)] 3 Cons show ?thesis
        by (simp add: call_scan_line close_from_step depth_step_def in_code_def)
    next
      case 4
      show ?thesis
      proof (cases "c = CHR ''*'' \<and> r \<noteq> [] \<and> hd r = CHR ''/''")
        case True
        then obtain u where u: "r = CHR ''/'' # u" by (cases r) auto
        have "scan_state Code u None False False False" by (rule scan_state.intros)
        from IH [OF _ this less.prems(2)] 4 True u Cons show ?thesis
          by (simp add: call_scan_block close_from_step depth_step_def in_code_def del: close_from.simps)
      next
        case False
        then have "scan_state (lex_step Block_comment c) r None False False True"
          by (auto intro: scan_state.intros)
        from IH [OF len(1) this less.prems(2)] 4 False Cons show ?thesis
          by (auto simp: call_scan_block close_from_step depth_step_def in_code_def
              simp del: close_from.simps lex_step.simps)
      qed
    next
      case 5
      show ?thesis
      proof (cases "c = CHR ''*'' \<and> r \<noteq> [] \<and> hd r = CHR ''/''")
        case True
        then obtain u where u: "r = CHR ''/'' # u" by (cases r) auto
        have "scan_state Code u None False False False" by (rule scan_state.intros)
        from IH [OF _ this less.prems(2)] 5 True u Cons show ?thesis
          by (simp add: call_scan_block close_from_step depth_step_def in_code_def del: close_from.simps)
      next
        case False
        with 5 Cons have "scan_state (lex_step Block_star c) r None False False True"
          by (auto intro: scan_state.intros)
        from IH [OF len(1) this less.prems(2)] 5 False Cons show ?thesis
          by (auto simp: call_scan_block close_from_step depth_step_def in_code_def
              simp del: close_from.simps lex_step.simps)
      qed
    next
      case (6 p)
      have "scan_state (lex_step (Quoted p) c) r (if c = p then None else Some p) (c = BSLASH) False False"
        using 6 by (auto intro: scan_state.intros)
      from IH [OF len(1) this less.prems(2)] 6 Cons show ?thesis
        by (auto simp: call_scan_quote close_from_step depth_step_def in_code_def simp del: close_from.simps)
    next
      case (7 p)
      have "scan_state (Quoted p) r (Some p) False False False" using 7 by (auto intro: scan_state.intros)
      from IH [OF len(1) this less.prems(2)] 7 Cons show ?thesis
        by (simp add: call_scan_quote close_from_step depth_step_def in_code_def)
    qed
  qed
qed

section \<open>The extent of a call\<close>

lemma all_le_Suc: "(\<forall>k \<le> Suc m. P k) \<longleftrightarrow> P 0 \<and> (\<forall>k \<le> m. P (Suc k))"
  using All_less_Suc2 [of "Suc m" P] by (simp add: less_Suc_eq_le)

lemma close_from_Some:
  assumes "0 < d"
  shows "close_from st d s = Some n \<longleftrightarrow>
    n < length s \<and> depth_from st d (take (Suc n) s) = 0 \<and> (\<forall>k \<le> n. 0 < depth_from st d (take k s))"
  using assms
proof (induction s arbitrary: st d n)
  case Nil
  then show ?case by simp
next
  case (Cons c s)
  let ?d = "d + depth_step st c"
  have cases: "depth_step st c \<in> {-1, 0, 1}" by (simp add: depth_step_def)
  show ?case
  proof (cases "?d = 0")
    case True
    with Cons.prems cases have c: "depth_step st c = -1" "d = 1" by auto
    have "0 < depth_from st d (take k (c # s)) \<longleftrightarrow> k = 0" if "k \<le> 1" for k
      using that c by (cases k) auto
    then have "(\<forall>k \<le> n. 0 < depth_from st d (take k (c # s))) \<longrightarrow> n = 0" by (metis One_nat_def Suc_leI gr0I le_refl not_less_eq_eq)
    with c show ?thesis by (auto simp: Let_def)
  next
    case False
    with Cons.prems cases have d: "0 < ?d" by auto
    have step: "close_from st d (c # s) = map_option Suc (close_from (lex_step st c) ?d s)"
      using d False by (simp add: Let_def)
    show ?thesis
    proof (cases n)
      case 0
      then show ?thesis using d step by auto
    next
      case (Suc m)
      have "(\<forall>k \<le> Suc m. 0 < depth_from st d (take k (c # s))) \<longleftrightarrow>
          (\<forall>k \<le> m. 0 < depth_from (lex_step st c) ?d (take k s))"
        using Cons.prems by (simp add: all_le_Suc)
      then show ?thesis using Cons.IH [OF d, of "lex_step st c" m] step Suc by simp
    qed
  qed
qed

lemma close_after_open:
  "close_from Code 0 (CHR ''('' # s) = Some n \<longleftrightarrow>
     (\<exists>m. n = Suc m \<and> m < length s \<and> code_depth (CHR ''('' # take (Suc m) s) = 0 \<and>
       (\<forall>k \<le> m. 0 < code_depth (CHR ''('' # take k s)))"
  by (auto simp: code_depth_def depth_step_def in_code_def close_from_Some)

text \<open>The scan from an opening parenthesis: the closing one is the first that balances.\<close>

lemma call_scan_from_open:
  "call_scan (CHR ''('' # s) pos 0 None False False False = Some p \<longleftrightarrow>
     (\<exists>m. p = pos + Suc m \<and> m < length s \<and> code_depth (CHR ''('' # take (Suc m) s) = 0 \<and>
       (\<forall>k \<le> m. 0 < code_depth (CHR ''('' # take k s)))"
proof -
  have "call_scan (CHR ''('' # s) pos 0 None False False False =
      map_option ((+) pos) (close_from Code 0 (CHR ''('' # s))"
    by (rule call_scan_close) (simp_all add: scan_state.intros)
  then show ?thesis by (auto simp: close_after_open simp del: close_from.simps)
qed

lemma depth_from_append: "depth_from st d (u @ v) = depth_from (foldl lex_step st u) (depth_from st d u) v"
  by (induction u arbitrary: st d) simp_all

text \<open>A text whose last character brings the depth to zero ends in a closing parenthesis.\<close>

lemma balanced_last:
  assumes "0 < code_depth u" and "code_depth (u @ [c]) = 0" shows "c = CHR '')''"
  using assms by (auto simp: code_depth_def depth_from_append depth_step_def split: if_splits)

text \<open>The place of the opening parenthesis, and the successful branch of the function.\<close>

definition call_open :: "string \<Rightarrow> nat \<Rightarrow> nat" where
  "call_open s a = a + length malloc_name + length (takeWhile py_isspace (drop (a + length malloc_name) s))"

lemma malloc_call_extent_open:
  "malloc_call_extent s a e =
     (if e \<le> a \<or> \<not> starts_with_at s malloc_name a then Inl (Anchor_not_malloc (slice s a e))
      else if a + length malloc_name > e then Inl Truncates_malloc
      else if call_open s a \<ge> length s \<or> s ! call_open s a \<noteq> CHR ''('' then Inl No_argument_list
      else case call_scan (drop (call_open s a) s) (call_open s a) 0 None False False False of
             None \<Rightarrow> Inl Unterminated_arguments
           | Some p \<Rightarrow>
               if py_strip (slice s (call_open s a + 1) p) = [] then Inl Empty_size_expression
               else if e > p + 1 \<and> py_strip (slice s (p + 1) e) \<noteq> [] then Inl Span_past_call
               else Inr (a, p + 1, py_strip (slice s (call_open s a + 1) p)))"
  unfolding malloc_call_extent_def call_open_def Let_def by (rule refl)

lemma malloc_call_extent_Inr:
  "malloc_call_extent s a e = Inr (cs, ce, arg) \<longleftrightarrow>
    a < e \<and> starts_with_at s malloc_name a \<and> a + length malloc_name \<le> e \<and>
    call_open s a < length s \<and> s ! call_open s a = CHR ''('' \<and>
    (\<exists>p. call_scan (drop (call_open s a) s) (call_open s a) 0 None False False False = Some p \<and>
      arg = py_strip (slice s (call_open s a + 1) p) \<and> arg \<noteq> [] \<and>
      \<not> (e > p + 1 \<and> py_strip (slice s (p + 1) e) \<noteq> []) \<and> cs = a \<and> ce = p + 1)"
proof (cases "call_scan (drop (call_open s a) s) (call_open s a) 0 None False False False")
  case None
  then show ?thesis by (simp add: malloc_call_extent_open)
next
  case (Some p)
  then show ?thesis by (simp add: malloc_call_extent_open not_le not_less) blast
qed

lemma call_extent_parts:
  assumes "malloc_call_extent s a e = Inr (cs, ce, arg)"
  shows "\<exists>ws inner. cs = a \<and> list_all py_isspace ws \<and>
    s = take a s @ malloc_name @ ws @ CHR ''('' # inner @ CHR '')'' # drop ce s \<and>
    ce = a + length malloc_name + length ws + length inner + 2 \<and>
    code_depth (CHR ''('' # inner @ [CHR '')'']) = 0 \<and>
    (\<forall>k \<le> length inner. 0 < code_depth (CHR ''('' # take k inner)) \<and>
    arg = py_strip inner \<and> arg \<noteq> [] \<and> (e \<le> ce \<or> py_strip (slice s ce e) = [])"
proof -
  let ?n = "a + length malloc_name"
  let ?ws = "takeWhile py_isspace (drop ?n s)"
  let ?o = "call_open s a"
  have op_eq: "?o = ?n + length ?ws" by (simp add: call_open_def)
  have st: "a \<le> length s" "prefix malloc_name (drop a s)" "?o < length s" "s ! ?o = CHR ''(''"
    using assms by (simp_all add: malloc_call_extent_Inr starts_with_at_def)
  obtain p where scan: "call_scan (drop ?o s) ?o 0 None False False False = Some p"
    and res: "arg = py_strip (slice s (?o + 1) p)" "arg \<noteq> []" "ce = p + 1" "cs = a"
      "e \<le> ce \<or> py_strip (slice s ce e) = []"
    using assms unfolding malloc_call_extent_Inr by (metis not_less)
  let ?t = "drop (Suc ?o) s"
  have op: "drop ?o s = CHR ''('' # ?t" using st(3,4) by (metis Cons_nth_drop_Suc)
  obtain m where m: "p = ?o + Suc m" "m < length ?t" "code_depth (CHR ''('' # take (Suc m) ?t) = 0"
    and pos: "\<forall>k \<le> m. 0 < code_depth (CHR ''('' # take k ?t)"
    using scan unfolding op call_scan_from_open by blast
  let ?inner = "take m ?t"
  have "take (Suc m) ?t = ?inner @ [?t ! m]" using m(2) by (simp add: take_Suc_conv_app_nth)
  with m(3) have bal: "code_depth ((CHR ''('' # ?inner) @ [?t ! m]) = 0" by simp
  moreover have "0 < code_depth (CHR ''('' # ?inner)" using pos by blast
  ultimately have close: "?t ! m = CHR '')''" by (rule balanced_last [rotated])
  have "drop m ?t = CHR '')'' # drop (Suc m) ?t" using m(2) close by (metis Cons_nth_drop_Suc)
  moreover have "drop (Suc m) ?t = drop ce s" by (simp add: res(3) m(1) ac_simps)
  ultimately have "?t = ?inner @ CHR '')'' # drop ce s" by (metis append_take_drop_id)
  moreover have "drop ?n s = ?ws @ drop ?o s"
  proof -
    have "drop ?o s = dropWhile py_isspace (drop ?n s)"
      by (simp add: dropWhile_eq_drop op_eq ac_simps)
    then show ?thesis by (simp only: takeWhile_dropWhile_id)
  qed
  moreover obtain u where "drop a s = malloc_name @ u" using st(2) by (auto simp: prefix_def)
  then have "drop a s = malloc_name @ drop ?n s"
    by (metis add.commute append_eq_conv_conj drop_drop)
  ultimately have whole: "s = take a s @ malloc_name @ ?ws @ CHR ''('' # ?inner @ CHR '')'' # drop ce s"
    using op by (metis append_take_drop_id)
  have inner: "slice s (?o + 1) p = ?inner" by (simp add: slice_def m(1) take_drop add.commute)
  have len: "length ?inner = m" using m(2) by simp
  show ?thesis
  proof (intro exI conjI)
    show "list_all py_isspace ?ws" by (auto simp: list_all_iff dest: set_takeWhileD)
    show "ce = a + length malloc_name + length ?ws + length ?inner + 2" using res(3) m(1) op_eq len by simp
    show "code_depth (CHR ''('' # ?inner @ [CHR '')'']) = 0" using bal close by simp
    show "\<forall>k \<le> length ?inner. 0 < code_depth (CHR ''('' # take k ?inner)" using pos len by (simp add: min_def)
    show "s = take a s @ malloc_name @ ?ws @ CHR ''('' # ?inner @ CHR '')'' # drop ce s" by (rule whole)
    show "arg = py_strip ?inner" using res(1) inner by simp
  qed (rule res)+
qed

text \<open>
  Property C23. A \<open>malloc\<close> call is cut out completely and minimally: the text found is the
  token, blanks, and a parenthesised text in which the parentheses outside comments and
  literals balance only at its very end; the argument is the text between the parentheses
  without the blanks around it, and it is not empty; a span of the analysis that goes past
  the call covers only blanks there.
\<close>

theorem malloc_call_balanced:
  assumes "malloc_call_extent s a e = Inr (cs, ce, arg)"
  shows "\<exists>ws inner. cs = a \<and> list_all py_isspace ws \<and>
    s = take a s @ malloc_name @ ws @ CHR ''('' # inner @ CHR '')'' # drop ce s \<and>
    ce = a + length malloc_name + length ws + length inner + 2 \<and>
    code_depth (CHR ''('' # inner @ [CHR '')'']) = 0 \<and>
    (\<forall>k \<le> length inner. 0 < code_depth (CHR ''('' # take k inner)) \<and>
    arg = py_strip inner \<and> arg \<noteq> [] \<and> (e \<le> ce \<or> py_strip (slice s ce e) = [])"
  using assms by (rule call_extent_parts)

theorem malloc_call_balanced_witness:
  \<open>malloc_call_extent ''x=malloc ( f(")") /* ) */ );'' 2 8 = Inr (2, 27, ''f(")") /* ) */'') \<and>
   (\<exists>inner. ''f(")") /* ) */'' = py_strip inner \<and> code_depth (CHR ''('' # inner @ [CHR '')'']) = 0)\<close>
proof -
  have *: \<open>malloc_call_extent ''x=malloc ( f(")") /* ) */ );'' 2 8 = Inr (2, 27, ''f(")") /* ) */'')\<close>
    by code_simp
  from * malloc_call_balanced [OF *] show ?thesis by blast
qed

end
