(* ===== verification/HeaderMatch.thy ===== *)
theory HeaderMatch
  imports SourceFacts
begin

text \<open>
  What the function-header pattern matches, as a decomposition of the text, and where the
  first match is; the match is stable under changes of the text after it.
\<close>

section \<open>The pattern\<close>

text \<open>A greedy class followed by a character outside the class is deterministic.\<close>

lemma plus_Suc_fun: "(+) (Suc n) = (\<lambda>x. Suc (n + x))"
  by (simp add: fun_eq_iff)

lemma re_match_star_lit:
  assumes "\<not> p c"
  shows "re_match (StarG p # Lit c # r) pv s =
    (case dropWhile p s of [] \<Rightarrow> None
     | x # rest \<Rightarrow> if x = c then map_option (map_prod ((+) (Suc (length (takeWhile p s))))
         (map ((+) (Suc (length (takeWhile p s)))))) (re_match r (Some c) rest) else None)"
proof (induction s arbitrary: pv)
  case Nil
  then show ?case by (simp add: re_match.simps(4))
next
  case (Cons x xs)
  show ?case
  proof (cases "p x")
    case True
    then have "x \<noteq> c" using assms by auto
    then have "re_match (StarG p # Lit c # r) pv (x # xs) = shift_match (re_match (StarG p # Lit c # r) (Some x) xs)"
      using True by (simp add: re_match.simps(4) [of _ _ _ "x # xs"] shift_match_def split: option.split)
    then show ?thesis using True unfolding Cons.IH
      by (cases "dropWhile p xs"; cases "re_match r (Some c) (tl (dropWhile p xs))")
         (auto simp: shift_match_def plus_Suc_fun simp del: dropWhile_eq_Nil_conv)
  next
    case False
    then show ?thesis
      by (auto simp: re_match.simps(4) [of _ _ _ "x # xs"] shift_match_def map_prod_def
          intro!: arg_cong [of _ _ "\<lambda>f. map_option f _"] split: option.split)
  qed
qed

text \<open>The text of a header: the name, blanks, a parenthesised list, blanks, a brace.\<close>

definition header_text :: "string \<Rightarrow> string \<Rightarrow> string \<Rightarrow> string \<Rightarrow> string" where
  "header_text fn w1 args w2 = fn @ w1 @ CHR ''('' # args @ CHR '')'' # w2 @ [CHR ''{'']"

definition header_parts :: "string \<Rightarrow> string \<Rightarrow> string \<Rightarrow> bool" where
  "header_parts w1 args w2 \<longleftrightarrow> list_all py_isspace w1 \<and> CHR '')'' \<notin> set args \<and> list_all py_isspace w2"

lemma isspace_simps [simp]:
  "\<not> py_isspace (CHR ''('')" "\<not> py_isspace (CHR '')'')" "\<not> py_isspace (CHR ''{'')" "\<not> py_isspace (CHR ''}'')"
  by (simp_all add: py_isspace_def code_point_def)

lemma dropWhile_Cons_iff:
  "dropWhile p s = c # rest \<longleftrightarrow> (\<exists>w. s = w @ c # rest \<and> list_all p w) \<and> \<not> p c"
proof
  assume d: "dropWhile p s = c # rest"
  then have "\<not> p c" using hd_dropWhile [of p s] by simp
  moreover have "s = takeWhile p s @ c # rest" using d takeWhile_dropWhile_id [of p s] by simp
  moreover have "list_all p (takeWhile p s)" by (auto simp: list_all_iff dest: set_takeWhileD)
  ultimately show "(\<exists>w. s = w @ c # rest \<and> list_all p w) \<and> \<not> p c" by blast
next
  assume "(\<exists>w. s = w @ c # rest \<and> list_all p w) \<and> \<not> p c"
  then show "dropWhile p s = c # rest" by (auto simp: list_all_iff dropWhile_append2)
qed

lemma takeWhile_all: "list_all p w \<Longrightarrow> \<not> p c \<Longrightarrow> takeWhile p (w @ c # rest) = w"
  by (induction w) auto

lemma star_lit_Some:
  assumes "\<not> p c"
  shows "re_match (StarG p # Lit c # r) pv s = Some (n, ms) \<longleftrightarrow>
    (\<exists>w rest k ks. s = w @ c # rest \<and> list_all p w \<and> re_match r (Some c) rest = Some (k, ks) \<and>
      n = Suc (length w) + k \<and> ms = map ((+) (Suc (length w))) ks)"
proof (cases "dropWhile p s")
  case Nil
  then have "\<nexists>w rest. s = w @ c # rest" using assms by (auto simp: dropWhile_eq_Nil_conv)
  then show ?thesis by (simp add: re_match_star_lit [of p c, OF assms] Nil)
next
  case (Cons x rest)
  then obtain w where w: "s = w @ x # rest" "list_all p w" and x: "\<not> p x" using dropWhile_Cons_iff by metis
  have tw: "takeWhile p s = w" using takeWhile_all [OF w(2) x, of rest] w(1) by simp
  have "v = w \<and> c = x \<and> rest' = rest" if "s = v @ c # rest'" "list_all p v" for v rest'
    using that w tw assms takeWhile_all [of p v c rest'] by auto
  then have "(\<exists>w rest k ks. s = w @ c # rest \<and> list_all p w \<and> re_match r (Some c) rest = Some (k, ks) \<and>
      n = Suc (length w) + k \<and> ms = map ((+) (Suc (length w))) ks) \<longleftrightarrow>
    c = x \<and> (\<exists>k ks. re_match r (Some c) rest = Some (k, ks) \<and> n = Suc (length w) + k \<and>
      ms = map ((+) (Suc (length w))) ks)"
    using w by metis
  then show ?thesis by (auto simp: re_match_star_lit [of p c, OF assms] Cons tw)
qed

text \<open>The pattern from its end.\<close>

lemma brace_tail:
  "re_match [StarG py_isspace, Lit (CHR ''{'')] pv t = Some (k, ks) \<longleftrightarrow>
    ks = [] \<and> (\<exists>w2 rest. t = w2 @ CHR ''{'' # rest \<and> list_all py_isspace w2 \<and> k = Suc (length w2))"
  by (auto simp: star_lit_Some)

lemma args_tail:
  "re_match [StarG (\<lambda>c. c \<noteq> CHR '')''), Lit (CHR '')''), StarG py_isspace, Lit (CHR ''{'')] pv t = Some (k, ks) \<longleftrightarrow>
    ks = [] \<and> (\<exists>args w2 rest. t = args @ CHR '')'' # w2 @ CHR ''{'' # rest \<and> CHR '')'' \<notin> set args \<and>
      list_all py_isspace w2 \<and> k = Suc (length args) + Suc (length w2))" (is "?L \<longleftrightarrow> ?R")
proof -
  have la: "list_all (\<lambda>c. c \<noteq> CHR '')'') args \<longleftrightarrow> CHR '')'' \<notin> set args" for args
    by (induction args) auto
  have out: "\<not> CHR '')'' \<noteq> CHR '')''" by simp
  show ?thesis
  proof
    assume ?L
    then obtain args rest k' ks' where "t = args @ CHR '')'' # rest" "CHR '')'' \<notin> set args"
      and m: "re_match [StarG py_isspace, Lit (CHR ''{'')] (Some (CHR '')'')) rest = Some (k', ks')"
      and "k = Suc (length args) + k'" "ks = map ((+) (Suc (length args))) ks'"
      unfolding star_lit_Some [where p = "\<lambda>c. c \<noteq> CHR '')''", OF out] la by blast
    moreover obtain w2 u where "rest = w2 @ CHR ''{'' # u" "list_all py_isspace w2" "k' = Suc (length w2)" "ks' = []"
      using m unfolding brace_tail by blast
    ultimately show ?R by (intro conjI exI [of _ args] exI [of _ w2] exI [of _ u]) simp_all
  next
    assume ?R
    then obtain args w2 rest where R: "ks = []" "t = args @ CHR '')'' # w2 @ CHR ''{'' # rest" "CHR '')'' \<notin> set args"
      "list_all py_isspace w2" "k = Suc (length args) + Suc (length w2)" by blast
    then have "re_match [StarG py_isspace, Lit (CHR ''{'')] (Some (CHR '')'')) (w2 @ CHR ''{'' # rest) = Some (Suc (length w2), [])"
      unfolding brace_tail by blast
    with R show ?L unfolding star_lit_Some [where p = "\<lambda>c. c \<noteq> CHR '')''", OF out] la by fastforce
  qed
qed

lemma header_tail:
  "re_match [StarG py_isspace, Lit (CHR ''(''), StarG (\<lambda>c. c \<noteq> CHR '')''), Lit (CHR '')''),
      StarG py_isspace, Lit (CHR ''{'')] pv t = Some (k, ks) \<longleftrightarrow>
    ks = [] \<and> (\<exists>w1 args w2 rest. t = header_text [] w1 args w2 @ rest \<and> header_parts w1 args w2 \<and>
      k = length (header_text [] w1 args w2))" (is "?L \<longleftrightarrow> ?R")
proof
  assume ?L
  then obtain w1 r k' ks' where "t = w1 @ CHR ''('' # r" "list_all py_isspace w1"
    and m: "re_match [StarG (\<lambda>c. c \<noteq> CHR '')''), Lit (CHR '')''), StarG py_isspace, Lit (CHR ''{'')]
      (Some (CHR ''('')) r = Some (k', ks')"
    and "k = Suc (length w1) + k'" "ks = map ((+) (Suc (length w1))) ks'"
    unfolding star_lit_Some [where p = py_isspace, OF isspace_simps(1)] by blast
  moreover obtain args w2 u where "r = args @ CHR '')'' # w2 @ CHR ''{'' # u" "CHR '')'' \<notin> set args"
    "list_all py_isspace w2" "k' = Suc (length args) + Suc (length w2)" "ks' = []"
    using m unfolding args_tail by blast
  ultimately show ?R
    by (intro conjI exI [of _ w1] exI [of _ args] exI [of _ w2] exI [of _ u])
       (simp_all add: header_text_def header_parts_def)
next
  assume ?R
  then obtain w1 args w2 u where R: "ks = []" "t = w1 @ CHR ''('' # args @ CHR '')'' # w2 @ CHR ''{'' # u"
    "list_all py_isspace w1" "CHR '')'' \<notin> set args" "list_all py_isspace w2"
    "k = Suc (length w1) + (Suc (length args) + Suc (length w2))"
    by (auto simp: header_text_def header_parts_def)
  then have "re_match [StarG (\<lambda>c. c \<noteq> CHR '')''), Lit (CHR '')''), StarG py_isspace, Lit (CHR ''{'')]
      (Some (CHR ''('')) (args @ CHR '')'' # w2 @ CHR ''{'' # u) = Some (Suc (length args) + Suc (length w2), [])"
    unfolding args_tail by blast
  with R show ?L unfolding star_lit_Some [where p = py_isspace, OF isspace_simps(1)] by fastforce
qed

lemma header_match:
  "re_match (header_pattern fn) pv s = Some (n, ms) \<longleftrightarrow>
    ms = [] \<and> word_boundary pv s \<and>
    (\<exists>w1 args w2 rest. s = header_text fn w1 args w2 @ rest \<and> header_parts w1 args w2 \<and>
      n = length (header_text fn w1 args w2))"
proof (cases "prefix fn s")
  case True
  then obtain t where t: "s = fn @ t" by (auto simp: prefix_def)
  have "re_match (header_pattern fn) pv s = Some (n, ms) \<longleftrightarrow> word_boundary pv s \<and>
      (\<exists>k ks. re_match [StarG py_isspace, Lit (CHR ''(''), StarG (\<lambda>c. c \<noteq> CHR '')''), Lit (CHR '')''),
        StarG py_isspace, Lit (CHR ''{'')] (if fn = [] then pv else Some (last fn)) t = Some (k, ks) \<and>
        n = length fn + k \<and> ms = map ((+) (length fn)) ks)"
    by (auto simp: header_pattern_def t re_match_lits)
  also have "\<dots> \<longleftrightarrow> ms = [] \<and> word_boundary pv s \<and>
      (\<exists>w1 args w2 rest. t = header_text [] w1 args w2 @ rest \<and> header_parts w1 args w2 \<and>
        n = length fn + length (header_text [] w1 args w2))" (is "?A \<longleftrightarrow> ?B")
  proof
    assume ?A
    then show ?B unfolding header_tail by auto
  next
    assume ?B
    then obtain w1 args w2 rest where B: "ms = []" "word_boundary pv s" "t = header_text [] w1 args w2 @ rest"
      "header_parts w1 args w2" "n = length fn + length (header_text [] w1 args w2)" by blast
    then have "re_match [StarG py_isspace, Lit (CHR ''(''), StarG (\<lambda>c. c \<noteq> CHR '')''), Lit (CHR '')''),
        StarG py_isspace, Lit (CHR ''{'')] (if fn = [] then pv else Some (last fn)) t =
        Some (length (header_text [] w1 args w2), [])"
      unfolding header_tail by blast
    with B show ?A by fastforce
  qed
  finally show ?thesis by (simp add: header_text_def t)
next
  case False
  then have "\<nexists>w1 args w2 rest. s = header_text fn w1 args w2 @ rest"
    by (auto simp: header_text_def)
  with False show ?thesis by (simp add: header_pattern_def re_match_lits)
qed

section \<open>The first match\<close>

definition header_at :: "string \<Rightarrow> string \<Rightarrow> nat \<Rightarrow> nat \<Rightarrow> bool" where
  "header_at fn s i n \<longleftrightarrow> word_boundary (prev_char s i) (drop i s) \<and>
     (\<exists>w1 args w2 rest. drop i s = header_text fn w1 args w2 @ rest \<and> header_parts w1 args w2 \<and>
        n = length (header_text fn w1 args w2))"

lemma header_at_match:
  "header_at fn s i n \<longleftrightarrow> re_match (header_pattern fn) (prev_char s i) (drop i s) = Some (n, [])"
  by (simp add: header_at_def header_match)

lemma header_at_unique: "header_at fn s i n \<Longrightarrow> header_at fn s i m \<Longrightarrow> m = n"
  by (simp add: header_at_match)

lemma header_at_None: "(\<nexists>n. header_at fn s i n) \<longleftrightarrow> re_match (header_pattern fn) (prev_char s i) (drop i s) = None"
  by (cases "re_match (header_pattern fn) (prev_char s i) (drop i s)") (auto simp: header_at_match header_match)

lemma header_at_length: "header_at fn s i n \<Longrightarrow> i + n \<le> length s \<and> 0 < n"
proof -
  assume "header_at fn s i n"
  then obtain w1 args w2 rest where "drop i s = header_text fn w1 args w2 @ rest"
    "n = length (header_text fn w1 args w2)" by (auto simp: header_at_def)
  then have "n \<le> length (drop i s)" "0 < n" by (simp_all add: header_text_def)
  then show ?thesis by simp
qed

lemma function_match_Inr:
  "function_match s fn = Inr (a, b) \<longleftrightarrow>
     header_at fn s a (b - a) \<and> a < b \<and> (\<forall>i < a. \<forall>n. \<not> header_at fn s i n)"
proof (cases "re_search (header_pattern fn) None s")
  case None
  have "re_match (header_pattern fn) (prev_char s a) (drop a s) = None" if "a \<le> length s" for a
    using re_search_None [OF None that] by (simp add: prev_char_def)
  then have "\<not> header_at fn s a n" for a n
    using header_at_length [of fn s a n] by (auto simp: header_at_match)
  then show ?thesis using None by (simp add: function_match_def)
next
  case (Some m)
  obtain x y ms where m: "m = (x, y, ms)" by (cases m) auto
  note f = re_search_Some [OF Some [unfolded m]]
  have "header_at fn s x (y - x)"
    using f(5) by (auto simp: header_at_def header_match prev_char_def)
  moreover have "\<forall>i < x. \<forall>n. \<not> header_at fn s i n"
    using f(6) by (simp add: header_at_match prev_char_def)
  moreover have "function_match s fn = Inr (x, y)" using Some m by (simp add: function_match_def)
  ultimately show ?thesis
    using header_at_length [of fn s x "y - x"] f(2) header_at_unique [of fn s x]
    by (auto, (metis linorder_neqE_nat le_add_diff_inverse less_imp_le)+)
qed

end
