(* ===== verification/RewriteStability.thy ===== *)
theory RewriteStability
  imports CallExtent HeaderMatch SiteRewrite
begin

text \<open>
  Locating a call depends only on the text up to the end of the call, and on the braces after
  it: two sources that agree up to a position, and whose remainders close the same brace
  depths, have the same calls before that position.
\<close>

section \<open>The function header\<close>

text \<open>The three characters of a header that are at fixed places of the text.\<close>

lemma header_at_places:
  assumes "header_at fn s i n"
  shows "\<exists>p r. i + length fn \<le> p \<and> p < r \<and> r < i + n - 1 \<and> i + n \<le> length s \<and>
    s ! p = CHR ''('' \<and> s ! r = CHR '')'' \<and> s ! (i + n - 1) = CHR ''{'' \<and>
    (\<forall>k. i + length fn \<le> k \<longrightarrow> k < p \<longrightarrow> py_isspace (s ! k)) \<and>
    (\<forall>k. p < k \<longrightarrow> k < r \<longrightarrow> s ! k \<noteq> CHR '')'') \<and>
    (\<forall>k. r < k \<longrightarrow> k < i + n - 1 \<longrightarrow> py_isspace (s ! k))"
proof -
  obtain w1 args w2 rest where d: "drop i s = header_text fn w1 args w2 @ rest"
    and hp: "header_parts w1 args w2" and n: "n = length (header_text fn w1 args w2)"
    using assms by (auto simp: header_at_def)
  have le: "i + n \<le> length s" using header_at_length [OF assms] by simp
  obtain u where iu: "length u = i" and s: "s = u @ fn @ w1 @ CHR ''('' # args @ CHR '')'' # w2 @ CHR ''{'' # rest"
  proof
    show "length (take i s) = i" using le by simp
    show "s = take i s @ fn @ w1 @ CHR ''('' # args @ CHR '')'' # w2 @ CHR ''{'' # rest"
      using d append_take_drop_id [of i s] by (simp add: header_text_def)
  qed
  let ?p = "i + length fn + length w1" and ?r = "i + length fn + length w1 + 1 + length args"
  have e: "i + n - 1 = ?r + 1 + length w2" by (simp add: n header_text_def)
  have *: "s ! ?p = CHR ''(''" "s ! ?r = CHR '')''" "s ! (?r + 1 + length w2) = CHR ''{''"
    unfolding s by (simp_all add: nth_append iu)
  have w1: "py_isspace (s ! k)" if lo: "i + length fn \<le> k" and hi: "k < ?p" for k
  proof -
    obtain j where k: "k = i + length fn + j" using lo by (metis le_Suc_ex)
    then have "j < length w1" using hi by simp
    moreover have "s ! k = w1 ! j" using calculation unfolding s k by (simp add: nth_append iu)
    ultimately show ?thesis using hp by (simp add: header_parts_def list_all_length)
  qed
  have ar: "s ! k \<noteq> CHR '')''" if lo: "?p < k" and hi: "k < ?r" for k
  proof -
    obtain j where k: "k = Suc (?p + j)" using lo less_imp_Suc_add by blast
    then have "j < length args" using hi by simp
    moreover have "s ! k = args ! j" using calculation unfolding s k by (simp add: nth_append iu)
    ultimately show ?thesis using hp unfolding header_parts_def by (metis nth_mem)
  qed
  have w2: "py_isspace (s ! k)" if lo: "?r < k" and hi: "k < ?r + 1 + length w2" for k
  proof -
    obtain j where k: "k = Suc (?r + j)" using lo less_imp_Suc_add by blast
    then have "j < length w2" using hi by simp
    moreover have "s ! k = w2 ! j" using calculation unfolding s k by (simp add: nth_append iu)
    ultimately show ?thesis using hp by (simp add: header_parts_def list_all_length)
  qed
  show ?thesis using * w1 ar w2 le unfolding e by (intro exI [of _ ?p] exI [of _ ?r] conjI) simp_all
qed

text \<open>Of two headers of one text the one that starts first does not end later.\<close>

lemma header_at_before:
  assumes "header_at fn s i n" and "header_at fn s a m" and "i < a"
  shows "i + n \<le> a + m"
proof -
  obtain p r where i: "i + length fn \<le> p" "p < r" "r < i + n - 1" "s ! (i + n - 1) = CHR ''{''"
    "\<And>k. i + length fn \<le> k \<Longrightarrow> k < p \<Longrightarrow> py_isspace (s ! k)"
    "\<And>k. p < k \<Longrightarrow> k < r \<Longrightarrow> s ! k \<noteq> CHR '')''"
    "\<And>k. r < k \<Longrightarrow> k < i + n - 1 \<Longrightarrow> py_isspace (s ! k)"
    using header_at_places [OF assms(1)] by (elim exE conjE) blast
  obtain p' r' where a: "a + length fn \<le> p'" "p' < r'" "r' < a + m - 1" "s ! p' = CHR ''(''"
    "s ! r' = CHR '')''" "s ! (a + m - 1) = CHR ''{''"
    using header_at_places [OF assms(2)] by (elim exE conjE) blast
  have "\<not> p' < p" using i(5) [of p'] a(1,4) assms(3) by fastforce
  then have "p < r'" using a(2) by simp
  then have "r \<le> r'" using i(6) [of r'] a(5) by (metis not_le)
  then have "r < a + m - 1" using a(3) by simp
  then have "\<not> a + m - 1 < i + n - 1" using i(7) [of "a + m - 1"] a(6) by auto
  then show ?thesis using i(3) a(3) by linarith
qed

lemma header_at_agree:
  assumes h: "header_at fn s i n" and agree: "take c s = take c s'" and le: "i + n \<le> c"
  shows "header_at fn s' i n"
proof -
  obtain w1 args w2 rest where d: "drop i s = header_text fn w1 args w2 @ rest"
    and hp: "header_parts w1 args w2" and n: "n = length (header_text fn w1 args w2)"
    and wb: "word_boundary (prev_char s i) (drop i s)"
    using h by (auto simp: header_at_def)
  have len: "i + n \<le> length s" "0 < n" using header_at_length [OF h] by simp_all
  have t: "take n (drop i s') = take n (drop i s)"
    using take_eq_le [OF agree le] by (simp add: take_drop add.commute)
  have "take n (drop i s) = header_text fn w1 args w2" using d n by simp
  then have d': "drop i s' = header_text fn w1 args w2 @ drop n (drop i s')"
    using t by (metis append_take_drop_id)
  have "take 1 (drop i s') = take 1 (drop i s)" using take_eq_le [OF t, of 1] len(2) by simp
  moreover have "prev_char s' i = prev_char s i"
  proof (cases i)
    case (Suc j)
    then have "j < c" using le by simp
    then have "s ! j = s' ! j" using agree by (metis nth_take)
    then show ?thesis using Suc by (simp add: prev_char_def)
  qed (simp add: prev_char_def)
  ultimately have "word_boundary (prev_char s' i) (drop i s')"
    using wb by (auto simp: word_boundary_def split: list.splits)
  then show ?thesis unfolding header_at_def using d' hp n by blast
qed

lemma function_match_agree:
  assumes "function_match s fn = Inr (a, b)" and agree: "take c s = take c s'" and "b \<le> c"
  shows "function_match s' fn = Inr (a, b)"
proof -
  have h: "header_at fn s a (b - a)" "a < b" and first: "\<forall>i < a. \<forall>n. \<not> header_at fn s i n"
    using assms(1) by (simp_all add: function_match_Inr)
  have h': "header_at fn s' a (b - a)" using header_at_agree [OF h(1) agree] h(2) assms(3) by simp
  have "\<not> header_at fn s' i n" if "i < a" for i n
  proof
    assume n: "header_at fn s' i n"
    then have "i + n \<le> c" using header_at_before [OF n h' that] h(2) assms(3) by simp
    from header_at_agree [OF n agree [symmetric] this] first that show False by blast
  qed
  with h h' show ?thesis by (simp add: function_match_Inr)
qed

section \<open>Positions\<close>

text \<open>The lines before a visible character, and the start of its line, do not depend on what follows.\<close>

lemma lines_before:
  "\<exists>L q. concat L @ q = p \<and> (\<forall>x r. \<not> is_linebreak x \<longrightarrow>
     (\<exists>t M. splitlines_keep (p @ x # r) = L @ (q @ x # t) # M))"
proof (induction p rule: splitlines_keep.induct)
  case 1
  have "\<exists>t M. splitlines_keep (x # r) = (x # t) # M" if "\<not> is_linebreak x" for x r
    using that by (cases "splitlines_keep r") (auto simp: splitlines_keep_visible)
  then show ?case by (intro exI [of _ "[] :: string list"]) simp
next
  case (2 c cs)
  consider (crlf) "c = CR \<and> cs \<noteq> [] \<and> hd cs = LF" | (brk) "\<not> (c = CR \<and> cs \<noteq> [] \<and> hd cs = LF)" "is_linebreak c"
    | (vis) "\<not> (c = CR \<and> cs \<noteq> [] \<and> hd cs = LF)" "\<not> is_linebreak c" by blast
  then show ?case
  proof cases
    case crlf
    then obtain ds where cs: "c = CR" "cs = LF # ds" by (cases cs) auto
    obtain L q where "concat L @ q = ds" "\<forall>x r. \<not> is_linebreak x \<longrightarrow>
        (\<exists>t M. splitlines_keep (ds @ x # r) = L @ (q @ x # t) # M)"
      using 2(1) [OF crlf] cs by auto
    then show ?thesis unfolding cs
      by (intro exI [of _ "[CR, LF] # L"] exI [of _ q]) (simp add: splitlines_keep_crlf)
  next
    case brk
    obtain L q where Lq: "concat L @ q = cs" "\<forall>x r. \<not> is_linebreak x \<longrightarrow>
        (\<exists>t M. splitlines_keep (cs @ x # r) = L @ (q @ x # t) # M)"
      using 2(2) [OF brk] by auto
    have "\<not> (c = CR \<and> cs @ x # r \<noteq> [] \<and> hd (cs @ x # r) = LF)" if "\<not> is_linebreak x" for x r
      using brk(1) that by (cases cs) (auto simp: is_linebreak_def LF_def code_point_def)
    with Lq brk(2) show ?thesis
      by (intro exI [of _ "[c] # L"] exI [of _ q]) (simp add: splitlines_keep_break)
  next
    case vis
    obtain L q where Lq: "concat L @ q = cs" "\<And>x r. \<not> is_linebreak x \<Longrightarrow>
        \<exists>t M. splitlines_keep (cs @ x # r) = L @ (q @ x # t) # M"
      using 2(3) [OF vis] by auto
    have step: "\<exists>t M. splitlines_keep (c # cs @ x # r) =
        (case L of [] \<Rightarrow> (c # q @ x # t) # M | l # ls \<Rightarrow> (c # l) # ls @ (q @ x # t) # M)"
      if vx: "\<not> is_linebreak x" for x r
    proof -
      obtain t M where "splitlines_keep (cs @ x # r) = L @ (q @ x # t) # M" using Lq(2) [OF vx] by blast
      then have "splitlines_keep (c # cs @ x # r) =
          (case L of [] \<Rightarrow> (c # q @ x # t) # M | l # ls \<Rightarrow> (c # l) # ls @ (q @ x # t) # M)"
        using vis(2) by (cases L) (simp_all add: splitlines_keep_visible)
      then show ?thesis by blast
    qed
    show ?thesis
    proof (cases L)
      case Nil
      then have "concat [] @ c # q = c # cs" using Lq(1) by simp
      moreover have "\<forall>x r. \<not> is_linebreak x \<longrightarrow>
          (\<exists>t M. splitlines_keep ((c # cs) @ x # r) = [] @ ((c # q) @ x # t) # M)"
        using step Nil by simp
      ultimately show ?thesis by blast
    next
      case (Cons l ls)
      then have "concat ((c # l) # ls) @ q = c # cs" using Lq(1) by simp
      moreover have "\<forall>x r. \<not> is_linebreak x \<longrightarrow>
          (\<exists>t M. splitlines_keep ((c # cs) @ x # r) = ((c # l) # ls) @ (q @ x # t) # M)"
        using step Cons by simp
      ultimately show ?thesis by blast
    qed
  qed
qed

lemma strip_end_keeps: "strip_end c (u @ x # v) = u @ x # v \<or> x = c \<and> v = [] \<or>
    (\<exists>v'. strip_end c (u @ x # v) = u @ x # v' \<and> length v' \<le> length v)"
  by (cases "v = []") (auto simp: strip_end_def butlast_append)

lemma visible_line_keeps:
  assumes "\<not> is_linebreak x" shows "length u < length (visible_line (u @ x # v))"
proof -
  have x: "x \<noteq> LF" "x \<noteq> CR" using assms by (auto simp: is_linebreak_def LF_def CR_def code_point_def)
  obtain v' where "strip_end LF (u @ x # v) = u @ x # v'" using strip_end_keeps [of LF u x v] x by auto
  moreover obtain v'' where "strip_end CR (u @ x # v') = u @ x # v''" using strip_end_keeps [of CR u x v'] x by auto
  ultimately show ?thesis by (simp add: visible_line_def)
qed

lemma source_offset_agree:
  assumes off: "source_offset (p @ x # r) l c e = Inr o1" and le: "o1 \<le> length p"
    and x: "\<not> is_linebreak x" and x': "\<not> is_linebreak x'"
  shows "source_offset (p @ x' # r') l c e = Inr o1"
proof -
  obtain L q where p: "concat L @ q = p" and split: "\<And>y t. \<not> is_linebreak y \<Longrightarrow>
      \<exists>u M. splitlines_keep (p @ y # t) = L @ (q @ y # u) # M"
    using lines_before [of p] by metis
  obtain u M where S: "splitlines_keep (p @ x # r) = L @ (q @ x # u) # M" using split [OF x] by blast
  obtain u' M' where S': "splitlines_keep (p @ x' # r') = L @ (q @ x' # u') # M'" using split [OF x'] by blast
  let ?k = "nat l - 1"
  have o: "1 \<le> l" "l \<le> int (length L + Suc (length M))" "1 \<le> c"
    "c \<le> int (length (visible_line ((L @ (q @ x # u) # M) ! ?k))) + (if e then 1 else 0)"
    "o1 = length (concat (take ?k (L @ (q @ x # u) # M))) + nat c - (if e then 0 else 1)"
    using off by (simp_all add: source_offset_Inr S)
  have len: "length (concat L) + length q = length p" using p by (metis length_append)
  have k: "?k \<le> length L"
  proof (rule ccontr)
    assume "\<not> ?k \<le> length L"
    then obtain j where j: "?k = Suc (length L + j)" by (metis not_le less_imp_Suc_add add_Suc_right)
    then have "take ?k (L @ (q @ x # u) # M) = L @ (q @ x # u) # take j M" by simp
    then have "length p < length (concat (take ?k (L @ (q @ x # u) # M)))" using len by simp
    moreover have "1 \<le> nat c" using o(3) by linarith
    moreover have "n + 1 \<le> n + nat c - (if e then 0 else 1) + 1" for n using calculation(2) by auto
    ultimately show False using o(5) le by (metis add_le_cancel_right le_trans not_le)
  qed
  then have tk: "take ?k (L @ X) = take ?k L" for X by simp
  have "c \<le> int (length (visible_line ((L @ (q @ x' # u') # M') ! ?k))) + (if e then 1 else 0)"
  proof (cases "?k = length L")
    case True
    then have "nat c - (if e then 0 else 1) \<le> length q" using o(5) le len by auto
    moreover have "length q < length (visible_line (q @ x' # u'))" by (rule visible_line_keeps [OF x'])
    ultimately show ?thesis using True by auto
  next
    case False
    then have "?k < length L" using k by simp
    then show ?thesis using o(4) by (simp add: nth_append)
  qed
  moreover have "l \<le> int (length L + Suc (length M'))" using k by linarith
  ultimately show ?thesis using o(1,3,5) unfolding source_offset_Inr S' tk by simp
qed

section \<open>The call\<close>

lemma call_extent_intro:
  assumes s: "s = u @ malloc_name @ ws @ CHR ''('' # inner @ CHR '')'' # r" and u: "length u = a"
    and ws: "list_all py_isspace ws" and bal: "code_depth (CHR ''('' # inner @ [CHR '')'']) = 0"
    and inside: "\<forall>k \<le> length inner. 0 < code_depth (CHR ''('' # take k inner)"
    and arg: "py_strip inner \<noteq> []" and e: "a < e" "a + length malloc_name \<le> e"
    and ce: "ce = a + length malloc_name + length ws + length inner + 2"
    and past: "e \<le> ce \<or> py_strip (slice s ce e) = []"
  shows "malloc_call_extent s a e = Inr (a, ce, py_strip inner)"
proof -
  let ?n = "a + length malloc_name"
  have "drop ?n s = ws @ CHR ''('' # inner @ CHR '')'' # r" unfolding s by (simp add: u)
  then have op: "call_open s a = ?n + length ws"
    using takeWhile_all [OF ws isspace_simps(1)] by (simp add: call_open_def)
  have at: "drop (call_open s a) s = CHR ''('' # inner @ CHR '')'' # r" unfolding op unfolding s by (simp add: u)
  then have "call_open s a < length s" "s ! call_open s a = CHR ''(''"
    by (metis drop_eq_Nil list.distinct(1) not_le, metis drop_eq_Nil hd_drop_conv_nth list.distinct(1) list.sel(1) not_le)
  moreover have "call_scan (drop (call_open s a) s) (call_open s a) 0 None False False False =
      Some (call_open s a + Suc (length inner))"
    unfolding at call_scan_from_open using bal inside by (intro exI [of _ "length inner"]) simp
  moreover have "slice s (call_open s a + 1) (call_open s a + Suc (length inner)) = inner"
  proof -
    have "slice s (call_open s a + 1) (call_open s a + Suc (length inner)) =
        take (length inner) (drop 1 (drop (call_open s a) s))" by (simp add: slice_def drop_take)
    then show ?thesis unfolding at by simp
  qed
  moreover have "starts_with_at s malloc_name a" unfolding s by (simp add: starts_with_at_def u)
  moreover have "ce = call_open s a + Suc (length inner) + 1" unfolding op ce by simp
  ultimately show ?thesis using e arg past unfolding malloc_call_extent_Inr by (auto simp: not_less)
qed

lemma call_extent_agree:
  assumes call: "malloc_call_extent s a e = Inr (cs, ce, arg)" and agree: "take c s = take c s'"
    and le: "ce \<le> c" "e \<le> c"
  shows "malloc_call_extent s' a e = Inr (cs, ce, arg)"
proof -
  obtain ws inner where p: "cs = a" "list_all py_isspace ws"
    "s = take a s @ malloc_name @ ws @ CHR ''('' # inner @ CHR '')'' # drop ce s"
    "ce = a + length malloc_name + length ws + length inner + 2"
    "code_depth (CHR ''('' # inner @ [CHR '')'']) = 0"
    "\<forall>k \<le> length inner. 0 < code_depth (CHR ''('' # take k inner)"
    "arg = py_strip inner" "arg \<noteq> []" "e \<le> ce \<or> py_strip (slice s ce e) = []"
    using call_extent_parts [OF call] by blast
  have a: "a \<le> length s" "a < e" "a + length malloc_name \<le> e"
    using call by (simp_all add: malloc_call_extent_Inr starts_with_at_def)
  have "take ce s = take a s @ malloc_name @ ws @ CHR ''('' # inner @ [CHR '')'']"
    by (subst p(3)) (simp add: p(4) a(1) min_absorb2)
  then have "take ce s' = take a s @ malloc_name @ ws @ CHR ''('' # inner @ [CHR '')'']"
    using take_eq_le [OF agree le(1)] by simp
  then have "s' = take a s @ malloc_name @ ws @ CHR ''('' # inner @ CHR '')'' # drop ce s'"
    using append_take_drop_id [of ce s'] by simp
  moreover have "e \<le> ce \<or> py_strip (slice s' ce e) = []" using p(9) slice_take_cong [OF agree le(2), of ce] by simp
  ultimately show ?thesis unfolding p(1,7)
    using p a by (intro call_extent_intro [where u = "take a s" and ws = ws and r = "drop ce s'"]) (simp_all add: min_absorb2)
qed

section \<open>The body\<close>

lemma body_scan_zero [simp]: "body_scan t p 0 = (p, 0)"
  by (cases t) simp_all

lemma body_scan_append: "body_scan (u @ v) p d = (case body_scan u p d of (q, e) \<Rightarrow> body_scan v q e)"
  by (induction u arbitrary: p d) simp_all

lemma body_scan_open: "body_scan t p d = (q, e) \<Longrightarrow> e \<noteq> 0 \<Longrightarrow> q = p + length t"
proof (induction t arbitrary: p d)
  case (Cons c t)
  then show ?case using Cons.IH [of "Suc p"] by (auto split: if_splits)
qed simp

lemma body_scan_shift: "body_scan t (p + k) d = (fst (body_scan t p d) + k, snd (body_scan t p d))"
proof (induction t arbitrary: p d)
  case (Cons c t)
  from Cons.IH [of "Suc p"] show ?case by simp
qed simp

lemma body_scan_pos: "p \<le> fst (body_scan t p d)"
proof (induction t arbitrary: p d)
  case (Cons c t)
  from Cons.IH [of "Suc p"] show ?case by (auto intro: Suc_leD)
qed simp

lemma body_scan_used: "snd (body_scan t p d) = 0 \<Longrightarrow> d \<noteq> 0 \<Longrightarrow> p < fst (body_scan t p d)"
proof (cases t)
  case (Cons c u)
  then show "snd (body_scan t p d) = 0 \<Longrightarrow> d \<noteq> 0 \<Longrightarrow> p < fst (body_scan t p d)"
    using body_scan_pos [of "Suc p" u] by (auto simp: Suc_le_eq)
qed simp

lemma body_scan_deeper:
  "snd (body_scan t p d) = e \<Longrightarrow> e \<noteq> 0 \<Longrightarrow> snd (body_scan t p (d + k)) = e + k"
proof (induction t arbitrary: p d)
  case (Cons c t)
  then have "d \<noteq> 0" by (auto split: if_splits)
  let ?d = "d + (if c = CHR ''{'' then 1 else 0) - (if c = CHR ''}'' then 1 else 0)"
  have "d + k + (if c = CHR ''{'' then 1 else 0) - (if c = CHR ''}'' then 1 else 0) = ?d + k"
    using \<open>d \<noteq> 0\<close> by auto
  then have "snd (body_scan (c # t) p (d + k)) = snd (body_scan t (p + 1) (?d + k))" using \<open>d \<noteq> 0\<close> by simp
  moreover have "snd (body_scan t (p + 1) ?d) = e" using Cons.prems(1) \<open>d \<noteq> 0\<close> by simp
  ultimately show ?case using Cons.IH Cons.prems(2) by simp
qed simp

text \<open>A remainder that closes a body open at a depth, and a text that leaves every depth as it is.\<close>

definition closes :: "nat \<Rightarrow> string \<Rightarrow> bool" where
  "closes d t \<longleftrightarrow> snd (body_scan t 0 d) = 0"

definition brace_neutral :: "string \<Rightarrow> bool" where
  "brace_neutral t \<longleftrightarrow> snd (body_scan t 0 1) = 1"

lemma closes_at: "snd (body_scan t p d) = 0 \<longleftrightarrow> closes d t"
  using body_scan_shift [of t 0 p d] by (simp add: closes_def)

lemma brace_neutral_at: "brace_neutral t \<Longrightarrow> d \<noteq> 0 \<Longrightarrow> body_scan t p d = (p + length t, d)"
proof -
  assume t: "brace_neutral t" and "d \<noteq> 0"
  then obtain k where d: "d = 1 + k" by (metis Suc_pred' not_gr0 plus_1_eq_Suc)
  have "snd (body_scan t 0 d) = 1 + k" unfolding d using t body_scan_deeper [of t 0 1 1 k] by (simp add: brace_neutral_def)
  then have "snd (body_scan t p d) = d" using body_scan_shift [of t 0 p d] d by simp
  then show ?thesis using body_scan_open [of t p d] \<open>d \<noteq> 0\<close> by (metis prod.collapse)
qed

lemma closes_append: "brace_neutral u \<Longrightarrow> closes d (u @ t) \<longleftrightarrow> closes d t"
proof (cases "d = 0")
  case False
  assume "brace_neutral u"
  from brace_neutral_at [OF this False, of 0] show ?thesis
    using closes_at [of t "length u" d] by (simp add: closes_def body_scan_append)
qed (simp add: closes_def)

lemma brace_neutral_append: "brace_neutral u \<Longrightarrow> brace_neutral v \<Longrightarrow> brace_neutral (u @ v)"
  using brace_neutral_at [of u 1 0] brace_neutral_at [of v 1 "length u"] by (simp add: brace_neutral_def body_scan_append)

lemma brace_free_neutral: "CHR ''{'' \<notin> set t \<Longrightarrow> CHR ''}'' \<notin> set t \<Longrightarrow> brace_neutral t"
proof -
  have "CHR ''{'' \<notin> set t \<Longrightarrow> CHR ''}'' \<notin> set t \<Longrightarrow> snd (body_scan t p 1) = 1" for p
    by (induction t arbitrary: p) auto
  then show "CHR ''{'' \<notin> set t \<Longrightarrow> CHR ''}'' \<notin> set t \<Longrightarrow> brace_neutral t" by (simp add: brace_neutral_def)
qed

lemma brace_neutral_block: "brace_neutral u \<Longrightarrow> brace_neutral (CHR ''{'' # u @ [CHR ''}''])"
  using brace_neutral_at [of u 2 1] by (simp add: brace_neutral_def body_scan_append numeral_2_eq_2)

lemma function_body_Inr:
  "function_body s fn = Inr (b, fe) \<longleftrightarrow>
     (\<exists>a. function_match s fn = Inr (a, b)) \<and> closes 1 (drop b s) \<and> fe = fst (body_scan (drop b s) b 1) - 1"
  by (auto simp: function_body_def res_bind_Inr Let_def split_beta closes_at)

lemma function_body_agree:
  assumes body: "function_body (p @ t) fn = Inr (b, fe)" and b: "b \<le> length p"
    and t: "\<And>d. closes d t \<Longrightarrow> closes d t'"
  shows "\<exists>fe'. function_body (p @ t') fn = Inr (b, fe') \<and> (fe' = fe \<or> length p \<le> fe')"
proof -
  obtain a where "function_match (p @ t) fn = Inr (a, b)" and cl: "closes 1 (drop b p @ t)"
    and fe: "fe = fst (body_scan (drop b p @ t) b 1) - 1"
    using body b by (auto simp: function_body_Inr)
  then have m: "function_match (p @ t') fn = Inr (a, b)"
    using function_match_agree [of "p @ t" fn a b "length p" "p @ t'"] b by simp
  obtain q e where qe: "body_scan (drop b p) b 1 = (q, e)" by fastforce
  show ?thesis
  proof (cases "e = 0")
    case True
    have "body_scan (drop b p @ w) b 1 = (q, 0)" for w using qe True by (simp add: body_scan_append)
    with m fe b cl show ?thesis by (simp add: function_body_Inr flip: closes_at [of _ b])
  next
    case False
    then have q: "q = length p" using body_scan_open [OF qe] b by simp
    have sc: "body_scan (drop b p @ w) b 1 = body_scan w (length p) e" for w using qe q by (simp add: body_scan_append)
    then have "closes e t" using cl closes_at by metis
    then have cl': "snd (body_scan t' (length p) e) = 0" using t closes_at by simp
    then have "length p \<le> fst (body_scan t' (length p) e) - 1" using body_scan_used [OF cl'] False by simp
    with m b cl' show ?thesis by (simp add: function_body_Inr sc [unfolded One_nat_def] flip: closes_at [of _ b])
  qed
qed

section \<open>Locating a call\<close>

lemma locate_call_Inr:
  "locate_call rej s fn sp = Inr (cs, ce, arg) \<longleftrightarrow>
     (\<exists>a e b fe. source_offset s (ss_start_line sp) (ss_start_column sp) False = Inr a \<and>
       source_offset s (ss_end_line sp) (ss_end_column sp) True = Inr e \<and>
       function_body s fn = Inr (b, fe) \<and> b \<le> a \<and> e \<le> fe \<and> ce \<le> fe \<and>
       malloc_call_extent s a e = Inr (cs, ce, arg))"
proof -
  have "malloc_call_extent s a e = Inr (cs, ce, arg) \<Longrightarrow> a < e" for a e by (simp add: malloc_call_extent_Inr)
  then show ?thesis
    unfolding locate_call_def by (fastforce simp: res_bind_Inr if_Inl_Inr not_less not_le)
qed

text \<open>What a located call looks like in the text.\<close>

lemma located_parts:
  assumes "locate_call rej s fn sp = Inr (cs, ce, arg)"
  shows "\<exists>ws inner. list_all py_isspace ws \<and> arg = py_strip inner \<and> cs < ce \<and> ce \<le> length s \<and>
    s = take cs s @ (malloc_name @ ws @ CHR ''('' # inner @ [CHR '')'']) @ drop ce s"
proof -
  obtain a e where call: "malloc_call_extent s a e = Inr (cs, ce, arg)"
    using assms unfolding locate_call_Inr by blast
  then have a: "a \<le> length s" by (simp add: malloc_call_extent_Inr starts_with_at_def)
  obtain ws inner where p: "cs = a" "list_all py_isspace ws" "arg = py_strip inner"
    "s = take a s @ malloc_name @ ws @ CHR ''('' # inner @ CHR '')'' # drop ce s"
    "ce = a + length malloc_name + length ws + length inner + 2"
    using call_extent_parts [OF call] by blast
  have "length s = a + length malloc_name + length ws + length inner + 2 + length (drop ce s)"
    by (subst p(4)) (simp add: a min_absorb2)
  then have "ce \<le> length s" using p(5) by simp
  with p show ?thesis by (intro exI [of _ ws] exI [of _ inner]) simp
qed

lemma py_strip_blank: "py_strip s = [] \<Longrightarrow> list_all py_isspace s"
proof -
  assume "py_strip s = []"
  then obtain u w where "s = u @ w" "list_all py_isspace u" "list_all py_isspace w"
    using py_strip_parts [of s] by auto
  then show ?thesis by simp
qed

lemma locate_call_agree:
  assumes loc: "locate_call rej (p @ x # r) fn sp = Inr (cs, ce, arg)" and ce: "ce \<le> length p"
    and x: "\<not> py_isspace x" "\<not> is_linebreak x" and x': "\<not> is_linebreak x'"
    and cl: "\<And>d. closes d (x # r) \<Longrightarrow> closes d (x' # r')"
  shows "locate_call rej (p @ x' # r') fn sp = Inr (cs, ce, arg)"
proof -
  let ?s = "p @ x # r" and ?s' = "p @ x' # r'"
  obtain a e b fe where L: "source_offset ?s (ss_start_line sp) (ss_start_column sp) False = Inr a"
    "source_offset ?s (ss_end_line sp) (ss_end_column sp) True = Inr e"
    "function_body ?s fn = Inr (b, fe)" "b \<le> a" "e \<le> fe" "ce \<le> fe"
    "malloc_call_extent ?s a e = Inr (cs, ce, arg)"
    using loc unfolding locate_call_Inr by blast
  have parts: "cs = a" "cs < ce" "e \<le> ce \<or> py_strip (slice ?s ce e) = []"
    using call_extent_parts [OF L(7)] located_parts [OF loc] by blast+
  have e: "e \<le> length p"
  proof (rule ccontr)
    assume "\<not> e \<le> length p"
    then have "list_all py_isspace (slice ?s ce e)" and lt: "length p < e" using parts(3) ce py_strip_blank by auto
    moreover have "slice ?s ce e = slice ?s ce (length p) @ slice ?s (length p) e"
      using ce lt by (simp add: slice_append_adjacent)
    ultimately have "list_all py_isspace (slice ?s (length p) e)" by simp
    moreover obtain k where "e = Suc (length p + k)" using lt less_imp_Suc_add by blast
    then have "slice ?s (length p) e = x # take k r" by (simp add: slice_def)
    ultimately show False using x(1) by simp
  qed
  have "source_offset ?s' (ss_start_line sp) (ss_start_column sp) False = Inr a"
    using source_offset_agree [OF L(1) _ x(2) x'] parts(1,2) ce by simp
  moreover have "source_offset ?s' (ss_end_line sp) (ss_end_column sp) True = Inr e"
    by (rule source_offset_agree [OF L(2) e x(2) x'])
  moreover have "malloc_call_extent ?s' a e = Inr (cs, ce, arg)"
    using call_extent_agree [OF L(7), of "length p" ?s'] ce e by simp
  moreover have "b \<le> length p" using L(4) parts(1,2) ce by simp
  from function_body_agree [OF L(3) this cl] obtain fe' where
    "function_body ?s' fn = Inr (b, fe')" "fe' = fe \<or> length p \<le> fe'" by blast
  moreover have "e \<le> fe'" "ce \<le> fe'" using calculation(5) L(5,6) e ce by auto
  ultimately show ?thesis unfolding locate_call_Inr using L(4) by blast
qed

lemma call_brace_neutral:
  assumes "list_all py_isspace ws" and "brace_neutral (py_strip inner)"
  shows "brace_neutral (malloc_name @ ws @ CHR ''('' # inner @ [CHR '')''])"
proof -
  have blank: "brace_neutral w" if "list_all py_isspace w" for w
    using that by (intro brace_free_neutral) (auto simp: list_all_iff)
  obtain u w where i: "inner = u @ py_strip inner @ w" "list_all py_isspace u" "list_all py_isspace w"
    using py_strip_parts [of inner] by blast
  have "brace_neutral inner" by (subst i(1)) (intro brace_neutral_append blank assms i)
  moreover have "brace_neutral malloc_name" "brace_neutral [CHR ''('']" "brace_neutral [CHR '')'']"
    by (intro brace_free_neutral; simp add: malloc_name_def)+
  ultimately show ?thesis using blank [OF assms(1)]
    by (metis append_Cons append_Nil brace_neutral_append)
qed

end
