(* ===== verification/SpliceSites.thy ===== *)
theory SpliceSites
  imports RewriteStability GenPolicy WasmPolicy
begin

text \<open>
  The tools rewrite the allocation sites of a source one after the other, from the last to the
  first, each time looking up the function, the line and the column in the text as it is by
  then.  A locale states what such a rewriter must do with one site, and proves that the loop
  is the simultaneous replacement of all calls of the original source; both tools are
  interpretations.
\<close>

section \<open>Simultaneous replacement\<close>

text \<open>Edits of a text from a position on: start, end and replacement, in the order of the text.\<close>

fun splice_all :: "string \<Rightarrow> nat \<Rightarrow> (nat \<times> nat \<times> string) list \<Rightarrow> string" where
  "splice_all s p [] = drop p s"
| "splice_all s p ((i, j, r) # es) = slice s p i @ r @ splice_all s j es"

text \<open>Calls in the order of the text that do not overlap, and the places of sites.\<close>

fun calls_apart :: "(nat \<times> nat \<times> string) list \<Rightarrow> bool" where
  "calls_apart [] = True"
| "calls_apart [_] = True"
| "calls_apart ((_, j, _) # (i, j', a) # cs) = (j \<le> i \<and> calls_apart ((i, j', a) # cs))"

lemma splice_all_from: "p \<le> i \<Longrightarrow> splice_all s p ((i, j, r) # es) = slice s p i @ splice_all s i ((i, j, r) # es)"
  by (simp add: slice_def)

text \<open>The call of an allocation in a source, and the edit that replaces it.\<close>

definition site_call :: "bool \<Rightarrow> string \<Rightarrow> alloc_entry \<Rightarrow> nat \<times> nat \<times> string \<Rightarrow> bool" where
  "site_call reject_empty s a c =
     (case ae_site a of None \<Rightarrow> False | Some sp \<Rightarrow> locate_call reject_empty s (ae_function a) sp = Inr c)"

definition edit_of :: "('x \<Rightarrow> string \<Rightarrow> string) \<Rightarrow> 'x \<Rightarrow> nat \<times> nat \<times> string \<Rightarrow> nat \<times> nat \<times> string" where
  "edit_of repl x = (\<lambda>(cs, ce, arg). (cs, ce, repl x arg))"

definition plain_arguments :: "(nat \<times> nat \<times> string) list \<Rightarrow> bool" where
  "plain_arguments calls = list_all (\<lambda>(_, _, arg). brace_neutral arg) calls"

lemma plain_arguments_Cons [simp]:
  "plain_arguments ((i, j, arg) # calls) \<longleftrightarrow> brace_neutral arg \<and> plain_arguments calls"
  by (simp add: plain_arguments_def)

section \<open>Rewriting from the last site to the first\<close>

locale site_rewriter =
  fixes reject_empty :: bool
    and alloc_of :: "'x \<Rightarrow> alloc_entry"
    and repl :: "'x \<Rightarrow> string \<Rightarrow> string"
    and step :: "'x \<Rightarrow> string \<Rightarrow> policy_error + string"
  assumes step_located: "site_call reject_empty s (alloc_of x) (cs, ce, arg) \<Longrightarrow>
      step x s = Inr (splice s cs ce (repl x arg))"
    and repl_visible: "\<exists>c u. repl x arg = c # u \<and> \<not> is_linebreak c"
    and repl_neutral: "brace_neutral arg \<Longrightarrow> brace_neutral (repl x arg)"
begin

lemma closes_splice:
  assumes "list_all2 (\<lambda>x. site_call reject_empty s (alloc_of x)) xs calls" and "calls_apart calls"
    and "plain_arguments calls"
    and "calls \<noteq> [] \<Longrightarrow> p \<le> fst (hd calls)"
  shows "closes d (splice_all s p (map2 (edit_of repl) xs calls)) \<longleftrightarrow> closes d (drop p s)"
  using assms
proof (induction xs calls arbitrary: p d rule: list_all2_induct)
  case Nil
  then show ?case by simp
next
  case (Cons x xs c calls)
  obtain cs ce arg where c: "c = (cs, ce, arg)" by (cases c)
  obtain sp where loc: "locate_call reject_empty s (ae_function (alloc_of x)) sp = Inr (cs, ce, arg)"
    using Cons.hyps(1) c by (auto simp: site_call_def split: option.splits)
  obtain ws inner where parts: "list_all py_isspace ws" "arg = py_strip inner" "cs < ce" "ce \<le> length s"
    "s = take cs s @ (malloc_name @ ws @ CHR ''('' # inner @ [CHR '')'']) @ drop ce s"
    using located_parts [OF loc] by blast
  have arg: "brace_neutral arg" and p: "p \<le> cs" using Cons.prems c by simp_all
  let ?call = "malloc_name @ ws @ CHR ''('' # inner @ [CHR '')'']"
  have "brace_neutral ?call" using call_brace_neutral parts(1) arg unfolding parts(2) by blast
  have call: "closes e (slice s p cs @ r) \<longleftrightarrow> closes (snd (body_scan (slice s p cs) 0 e)) r" for e r
    using closes_at by (auto simp: closes_def body_scan_append split_beta)
  have "drop p s = slice s p cs @ drop cs s" using p slice_append_adjacent [of p cs "length s" s] parts(3,4)
    by (simp add: slice_def)
  moreover have "drop cs s = ?call @ drop ce s"
    by (subst parts(5)) (use parts(3,4) in \<open>simp add: min_absorb2\<close>)
  ultimately have "closes d (drop p s) \<longleftrightarrow> closes (snd (body_scan (slice s p cs) 0 d)) (drop ce s)"
    using closes_append [OF \<open>brace_neutral ?call\<close>] call by simp
  moreover have "calls_apart calls" "plain_arguments calls"
    and "calls \<noteq> [] \<Longrightarrow> ce \<le> fst (hd calls)"
    using Cons.prems c by (cases calls; auto)+
  from Cons.IH [OF this] have "closes e (splice_all s ce (map2 (edit_of repl) xs calls)) \<longleftrightarrow> closes e (drop ce s)" for e .
  ultimately show ?case
    using closes_append [OF repl_neutral [OF arg, of x]] call by (simp add: c edit_of_def)
qed

lemma rewrite_descending:
  assumes "list_all2 (\<lambda>x. site_call reject_empty s (alloc_of x)) xs calls" and "calls_apart calls"
    and "plain_arguments calls"
  shows "res_fold step (rev xs) s = Inr (splice_all s 0 (map2 (edit_of repl) xs calls))"
  using assms
proof (induction xs calls rule: list_all2_induct)
  case Nil
  then show ?case by simp
next
  case (Cons x xs c calls)
  obtain cs ce arg where c: "c = (cs, ce, arg)" by (cases c)
  obtain sp where sp: "ae_site (alloc_of x) = Some sp"
    and loc: "locate_call reject_empty s (ae_function (alloc_of x)) sp = Inr (cs, ce, arg)"
    using Cons.hyps(1) c by (auto simp: site_call_def split: option.splits)
  have parts: "cs < ce" "ce \<le> length s" using located_parts [OF loc] by blast+
  have rest: "calls_apart calls" "plain_arguments calls"
    "calls \<noteq> [] \<Longrightarrow> ce \<le> fst (hd calls)"
    using Cons.prems c by (cases calls; auto)+
  let ?T = "splice_all s 0 (map2 (edit_of repl) xs calls)"
  have ih: "res_fold step (rev xs) s = Inr ?T" by (rule Cons.IH [OF rest(1,2)])
  have T: "locate_call reject_empty ?T (ae_function (alloc_of x)) sp = Inr (cs, ce, arg) \<and>
      ?T = take ce s @ splice_all s ce (map2 (edit_of repl) xs calls)"
  proof (cases xs)
    case Nil
    then have "calls = []" using Cons.hyps(2) by simp
    then show ?thesis using Nil loc by simp
  next
    case (Cons y ys)
    then obtain c' calls' where cc: "calls = c' # calls'" and y: "site_call reject_empty s (alloc_of y) c'"
      using \<open>list_all2 (\<lambda>x. site_call reject_empty s (alloc_of x)) xs calls\<close> by (auto simp: list_all2_Cons1)
    obtain i j a where c': "c' = (i, j, a)" by (cases c')
    obtain sp' where "locate_call reject_empty s (ae_function (alloc_of y)) sp' = Inr (i, j, a)"
      using y c' by (auto simp: site_call_def split: option.splits)
    then obtain ws inner where q: "i < j" "j \<le> length s"
      "s = take i s @ (malloc_name @ ws @ CHR ''('' # inner @ [CHR '')'']) @ drop j s"
      using located_parts by blast
    have i: "ce \<le> i" using rest(3) cc c' by simp
    let ?p = "take i s"
    obtain r where r: "s = ?p @ CHR ''m'' # r" using q(3) by (auto simp: malloc_name_def)
    obtain ch u where ch: "repl y a = ch # u" "\<not> is_linebreak ch" using repl_visible by blast
    have es: "map2 (edit_of repl) xs calls = (i, j, repl y a) # map2 (edit_of repl) ys calls'" by (simp add: Cons cc c' edit_of_def)
    let ?r' = "u @ splice_all s j (map2 (edit_of repl) ys calls')"
    have tail: "splice_all s i (map2 (edit_of repl) xs calls) = ch # ?r'" unfolding es by (simp add: slice_def ch)
    have T': "?T = ?p @ ch # ?r'" unfolding es by (simp add: slice_def ch)
    have drop: "drop i s = CHR ''m'' # r"
      using q(1,2) arg_cong [OF r, of "drop i"] by (simp add: min_absorb2)
    have "closes d (ch # ?r') \<longleftrightarrow> closes d (CHR ''m'' # r)" for d
      using closes_splice [OF \<open>list_all2 (\<lambda>x. site_call reject_empty s (alloc_of x)) xs calls\<close> rest(1,2), of i d] tail drop by (simp add: cc c')
    moreover have "\<not> py_isspace (CHR ''m'')" "\<not> is_linebreak (CHR ''m'')"
      by (simp_all add: py_isspace_def is_linebreak_def code_point_def)
    ultimately have "locate_call reject_empty (?p @ ch # ?r') (ae_function (alloc_of x)) sp = Inr (cs, ce, arg)"
      using locate_call_agree [of reject_empty ?p "CHR ''m''" r "ae_function (alloc_of x)" sp cs ce arg ch ?r']
        loc i q(1,2) ch(2) r by simp
    moreover have "?T = take ce s @ splice_all s ce (map2 (edit_of repl) xs calls)"
      using i unfolding es by (simp add: take_slice slice_def flip: append_assoc)
         (metis le_add_diff_inverse take_add drop_take)
    ultimately show ?thesis unfolding T' by simp
  qed
  have "splice ?T cs ce (repl x arg) = take cs s @ repl x arg @ splice_all s ce (map2 (edit_of repl) xs calls)"
    using parts unfolding conjunct2 [OF T] by (simp add: splice_def min_absorb2)
  then show ?case
    using ih step_located [of ?T x cs ce arg] sp conjunct1 [OF T]
    by (simp add: res_fold_append c edit_of_def slice_def site_call_def)
qed

end

text \<open>
  Sites in the order of their positions have their calls in the order of the text, so it is
  enough that the calls are disjoint.
\<close>

definition calls_disjoint :: "(nat \<times> nat \<times> string) list \<Rightarrow> bool" where
  "calls_disjoint calls = sorted_wrt (\<lambda>(i, j, _) (i', j', _). j \<le> i' \<or> j' \<le> i) calls"

lemma site_call_span: "site_call rej s a (cs, ce, arg) \<Longrightarrow> cs < ce \<and>
    source_offset s (fst (site_key a)) (snd (site_key a)) False = Inr cs"
proof -
  assume "site_call rej s a (cs, ce, arg)"
  then obtain sp where sp: "ae_site a = Some sp" "locate_call rej s (ae_function a) sp = Inr (cs, ce, arg)"
    by (auto simp: site_call_def split: option.splits)
  then obtain e where "source_offset s (ss_start_line sp) (ss_start_column sp) False = Inr cs"
    unfolding locate_call_Inr malloc_call_extent_Inr by blast
  with sp show ?thesis using located_parts [OF sp(2)] by (auto simp: site_key_def)
qed

lemma site_call_order:
  assumes "site_call rej s a c" and "site_call rej s a' c'" and "site_key a \<le> site_key a'"
  shows "fst c \<le> fst c'"
proof -
  obtain i j x where c: "c = (i, j, x)" by (cases c)
  obtain i' j' x' where c': "c' = (i', j', x')" by (cases c')
  have "\<not> (fst (site_key a'), snd (site_key a')) < (fst (site_key a), snd (site_key a))"
    using assms(3) by (simp add: not_less)
  then have "\<not> i' < i"
    using offset_order [OF conjunct2 [OF site_call_span] conjunct2 [OF site_call_span]] assms(1,2)
    unfolding c c' by blast
  then show ?thesis by (simp add: c c')
qed

lemma disjoint_calls_apart:
  assumes "list_all2 (\<lambda>x. site_call rej s (f x)) xs calls" and "sorted (map (\<lambda>x. site_key (f x)) xs)"
    and "calls_disjoint calls"
  shows "calls_apart calls"
  using assms
proof (induction xs calls rule: list_all2_induct)
  case Nil
  then show ?case by simp
next
  case (Cons x xs c calls)
  obtain i j a where c: "c = (i, j, a)" by (cases c)
  have apart: "calls_apart calls" using Cons by (simp add: calls_disjoint_def)
  show ?case
  proof (cases calls)
    case Nil
    then show ?thesis by simp
  next
    case (Cons c' calls')
    obtain i' j' a' where c': "c' = (i', j', a')" by (cases c')
    obtain y ys where y: "xs = y # ys" "site_call rej s (f y) c'"
      using \<open>list_all2 (\<lambda>x. site_call rej s (f x)) xs calls\<close> Cons by (auto simp: list_all2_Cons2)
    have "i \<le> i'" using site_call_order [OF \<open>site_call rej s (f x) c\<close> y(2)] Cons.prems(1) y(1) c c' by simp
    moreover have "i' < j'" using site_call_span y(2) c' by blast
    moreover have "j \<le> i' \<or> j' \<le> i" using \<open>calls_disjoint (c # calls)\<close> Cons c c' by (simp add: calls_disjoint_def)
    ultimately show ?thesis using apart Cons c c' by auto
  qed
qed

section \<open>The two tools\<close>

lemma symbol_brace_free: "CHR ''{'' \<notin> set (symbol n)" "CHR ''}'' \<notin> set (symbol n)"
  by (auto simp: symbol_def is_ident_char_def is_alnum_def is_upper_def is_lower_def is_digit_def code_point_def)

lemma nat_str_brace_free: "CHR ''{'' \<notin> set (nat_str n)" "CHR ''}'' \<notin> set (nat_str n)"
  using nat_str_digits [of n] by (auto simp: list_all_iff is_digit_def code_point_def)

definition nacl_replacement :: "(nat \<times> nat) list \<Rightarrow> nat \<times> alloc_entry \<Rightarrow> string \<Rightarrow> string" where
  "nacl_replacement ids = (\<lambda>(index, a) size_expr.
     let (begin_symbol, end_symbol) = site_symbols a (the (map_of ids index))
     in site_replacement size_expr begin_symbol end_symbol)"

definition wasm_site_replacement :: "string \<Rightarrow> nat \<times> alloc_entry \<Rightarrow> string \<Rightarrow> string" where
  "wasm_site_replacement ns = (\<lambda>(local_site_id, a). wasm_replacement (site_c_name ns local_site_id))"

lemma site_replacement_neutral:
  assumes "brace_neutral arg" and "brace_neutral b" and "brace_neutral e"
  shows "brace_neutral (site_replacement arg b e)"
proof -
  have asm: "brace_neutral (exported_label_asm n)" if "brace_neutral n" for n
    unfolding exported_label_asm_def escaped_newline_def
    by (intro brace_neutral_append that brace_free_neutral; simp add: BSLASH_def)
  let ?inner = \<open>'' uint32_t __interspec_size = (uint32_t)('' @ arg @ ''); '' @
     ''uint32_t __interspec_ptr = 0; '' @
     ''__asm__ __volatile__("'' @ exported_label_asm b @ ''" ::: "memory"); '' @
     ''__interspec_ptr = INTERSPEC_SITE_ALLOC(__interspec_size); '' @
     ''__asm__ __volatile__("'' @ exported_label_asm e @ ''" ::: "memory"); '' @
     ''(void*)(uintptr_t)__interspec_ptr; ''\<close>
  have "brace_neutral ?inner"
    by (intro brace_neutral_append assms asm brace_free_neutral; simp)
  then have "brace_neutral (CHR ''{'' # ?inner @ [CHR ''}''])" by (rule brace_neutral_block)
  moreover have "brace_neutral ''(''" "brace_neutral '')''" by (intro brace_free_neutral; simp)+
  ultimately have "brace_neutral (''('' @ (CHR ''{'' # ?inner @ [CHR ''}'']) @ '')'')"
    by (intro brace_neutral_append)
  moreover have "site_replacement arg b e = ''('' @ (CHR ''{'' # ?inner @ [CHR ''}'']) @ '')''"
    by (simp add: site_replacement_def)
  ultimately show ?thesis by simp
qed

lemma site_symbols_neutral: "brace_neutral (fst (site_symbols a n))" "brace_neutral (snd (site_symbols a n))"
  by (simp_all add: site_symbols_def Let_def brace_free_neutral symbol_brace_free nat_str_brace_free)

interpretation nacl: site_rewriter True snd "nacl_replacement ids"
    "\<lambda>(index, a) s. instrument_site s a (the (map_of ids index))" for ids
proof unfold_locales
  fix s cs ce arg and x :: "nat \<times> alloc_entry"
  assume "site_call True s (snd x) (cs, ce, arg)"
  then show "(case x of (index, a) \<Rightarrow> \<lambda>s. instrument_site s a (the (map_of ids index))) s =
      Inr (splice s cs ce (nacl_replacement ids x arg))"
    by (auto simp: site_call_def instrument_site_def nacl_replacement_def split_beta Let_def split: option.splits)
next
  show "\<exists>c u. nacl_replacement ids x arg = c # u \<and> \<not> is_linebreak c" for x arg
    by (simp add: nacl_replacement_def site_replacement_def split_beta Let_def is_linebreak_def code_point_def)
next
  show "brace_neutral (nacl_replacement ids x arg)" if "brace_neutral arg" for x arg
    using site_replacement_neutral [OF that site_symbols_neutral]
    by (simp add: nacl_replacement_def split_beta Let_def)
qed

lemma lower_brace: "CHR ''{'' = lower_char c \<longleftrightarrow> c = CHR ''{''" "CHR ''}'' = lower_char c \<longleftrightarrow> c = CHR ''}''"
proof -
  have *: "code_point (lower_char c) = (if is_upper c then code_point c + 32 else code_point c)"
    using code_point_bound [of c] by (auto simp: lower_char_def is_upper_def code_point_def)
  have b: "code_point (CHR ''{'') = 123" "code_point (CHR ''}'') = 125" by (simp_all add: code_point_def)
  show "CHR ''{'' = lower_char c \<longleftrightarrow> c = CHR ''{''"
    using * b by (cases "is_upper c") (auto simp: is_upper_def lower_char_def)
  show "CHR ''}'' = lower_char c \<longleftrightarrow> c = CHR ''}''"
    using * b by (cases "is_upper c") (auto simp: is_upper_def lower_char_def)
qed

lemma site_c_name_neutral: "brace_neutral (site_c_name ns n)"
proof -
  have "brace_neutral (c_stem ns)"
    by (rule brace_free_neutral) (auto simp: c_stem_def image_iff lower_brace symbol_brace_free)
  then show ?thesis unfolding site_c_name_def
    by (intro brace_neutral_append brace_free_neutral [of "nat_str n"] nat_str_brace_free)
       (simp_all add: brace_free_neutral)
qed

interpretation wasm: site_rewriter False snd "wasm_site_replacement ns"
    "\<lambda>(local_site_id, a) s. wasm_instrument_site s a local_site_id ns" for ns
proof unfold_locales
  fix s cs ce arg and x :: "nat \<times> alloc_entry"
  assume "site_call False s (snd x) (cs, ce, arg)"
  then show "(case x of (local_site_id, a) \<Rightarrow> \<lambda>s. wasm_instrument_site s a local_site_id ns) s =
      Inr (splice s cs ce (wasm_site_replacement ns x arg))"
    by (auto simp: site_call_def wasm_instrument_site_def wasm_site_replacement_def split_beta Let_def split: option.splits)
next
  show "\<exists>c u. wasm_site_replacement ns x arg = c # u \<and> \<not> is_linebreak c" for x arg
    by (simp add: wasm_site_replacement_def wasm_replacement_def split_beta is_linebreak_def code_point_def)
next
  show "brace_neutral (wasm_site_replacement ns x arg)" if "brace_neutral arg" for x arg
    unfolding wasm_site_replacement_def wasm_replacement_def split_beta
    by (intro brace_neutral_append site_c_name_neutral that brace_free_neutral; simp)
qed

section \<open>The instrumented sources\<close>

text \<open>The precise sites of a policy in the order of their positions, with their indices.\<close>

definition precise_sites :: "alloc_entry list \<Rightarrow> (nat \<times> alloc_entry) list" where
  "precise_sites as = sort_key (\<lambda>(_, a). site_key a) (rev (filter (\<lambda>(_, a). ae_site a \<noteq> None) (enumerate 0 as)))"

definition wasm_sites :: "alloc_entry list \<Rightarrow> (nat \<times> alloc_entry) list" where
  "wasm_sites as = sort_key (\<lambda>(_, a). site_key a) (rev (enumerate 1 as))"

lemma sorted_sites:
  "sorted (map (\<lambda>x. site_key (snd x)) (precise_sites as))" "sorted (map (\<lambda>x. site_key (snd x)) (wasm_sites as))"
  using sorted_sort_key [of "\<lambda>(_ :: nat, a). site_key a"]
  by (simp_all add: precise_sites_def wasm_sites_def case_prod_unfold)

text \<open>
  Property C21. Instrumenting the source for NaCl.  Suppose every precise site of the policy
  denotes a call of the original source, the calls are disjoint and the braces inside each
  argument balance.  Then the loop, which rewrites one call at a time and finds each next one
  by line and column in the text rewritten so far, replaces exactly these calls, each by the
  block of its own site number with its own argument, and changes nothing else; the
  function marks and the sites without a span follow on that text.
\<close>

theorem nacl_sites_spliced:
  assumes "list_all2 (\<lambda>(_, a). site_call True s a) (precise_sites as) calls"
    and "calls_disjoint calls" and "plain_arguments calls"
  shows "instrument_source ids as s =
    res_bind (res_fold (\<lambda>fn t. mark_precise_function_noinline t fn)
        (sort (remdups (map (\<lambda>(_, a). ae_function a) (filter (\<lambda>(_, a). ae_site a \<noteq> None) (enumerate 0 as)))))
        (splice_all s 0 (map2 (edit_of (nacl_replacement ids)) (precise_sites as) calls)))
      (res_fold (\<lambda>a t. instrument_legacy t a) (filter (\<lambda>a. ae_site a = None) as))"
proof -
  have located: "list_all2 (\<lambda>x. site_call True s (snd x)) (precise_sites as) calls"
    using assms(1) by (simp add: case_prod_unfold)
  have "res_fold (\<lambda>(index, a) s. instrument_site s a (the (map_of ids index))) (rev (precise_sites as)) s =
      Inr (splice_all s 0 (map2 (edit_of (nacl_replacement ids)) (precise_sites as) calls))"
    by (rule nacl.rewrite_descending [OF located disjoint_calls_apart [OF located sorted_sites(1) assms(2)] assms(3)])
  then show ?thesis by (simp add: instrument_source_def Let_def sort_reverse_def precise_sites_def)
qed

text \<open>
  Property C22. The same for the wasm tool, which has no marks and no sites without a span: its
  instrumented source is the simultaneous replacement of the calls of the original source by
  calls of the imports of their sites.
\<close>

theorem wasm_sites_spliced:
  assumes "list_all2 (\<lambda>(_, a). site_call False s a) (wasm_sites as) calls"
    and "calls_disjoint calls" and "plain_arguments calls"
  shows "wasm_instrument_source ns as s =
    Inr (splice_all s 0 (map2 (edit_of (wasm_site_replacement ns)) (wasm_sites as) calls))"
proof -
  have located: "list_all2 (\<lambda>x. site_call False s (snd x)) (wasm_sites as) calls"
    using assms(1) by (simp add: case_prod_unfold)
  have "res_fold (\<lambda>(local_site_id, a) s. wasm_instrument_site s a local_site_id ns) (rev (wasm_sites as)) s =
      Inr (splice_all s 0 (map2 (edit_of (wasm_site_replacement ns)) (wasm_sites as) calls))"
    by (rule wasm.rewrite_descending [OF located disjoint_calls_apart [OF located sorted_sites(2) assms(2)] assms(3)])
  then show ?thesis by (simp add: wasm_instrument_source_def sort_reverse_def wasm_sites_def)
qed

text \<open>A source with two calls on one line, in two functions, that the policy lists last to first.\<close>

definition two_calls :: string where
  "two_calls = ''f(){p=malloc(4);}'' @ [LF] @ ''g(){q=malloc ( n+1 );}''"

definition two_sites :: "alloc_entry list" where
  "two_sites =
     [\<lparr>ae_function = ''g'', ae_type = ''T'',
        ae_site = Some \<lparr>ss_start_line = 2, ss_start_column = 7, ss_end_line = 2, ss_end_column = 12\<rparr>\<rparr>,
      \<lparr>ae_function = ''f'', ae_type = ''T'',
        ae_site = Some \<lparr>ss_start_line = 1, ss_start_column = 7, ss_end_line = 1, ss_end_column = 15\<rparr>\<rparr>]"

lemma two_calls_located:
  "list_all2 (\<lambda>(_, a). site_call True two_calls a) (precise_sites two_sites) [(6, 15, ''4''), (24, 38, ''n+1'')]"
  "list_all2 (\<lambda>(_, a). site_call False two_calls a) (wasm_sites two_sites) [(6, 15, ''4''), (24, 38, ''n+1'')]"
  "calls_disjoint [(6, 15, ''4''), (24, 38, ''n+1'')]" "plain_arguments [(6, 15, ''4''), (24, 38, ''n+1'')]"
  by code_simp+

theorem nacl_sites_spliced_witness:
  "\<exists>t. instrument_source [(0, 1), (1, 2)] two_sites two_calls =
     res_fold (\<lambda>fn t. mark_precise_function_noinline t fn) [''f'', ''g''] t \<and>
     t = ''f(){p='' @ site_replacement ''4'' (fst (site_symbols (two_sites ! 1) 2)) (snd (site_symbols (two_sites ! 1) 2)) @
         '';}'' @ [LF] @ ''g(){q='' @
         site_replacement ''n+1'' (fst (site_symbols (two_sites ! 0) 1)) (snd (site_symbols (two_sites ! 0) 1)) @ '';}''"
proof -
  note eq = nacl_sites_spliced [OF two_calls_located(1,3,4), of "[(0, 1), (1, 2)]"]
  have "splice_all two_calls 0 (map2 (edit_of (nacl_replacement [(0, 1), (1, 2)])) (precise_sites two_sites)
      [(6, 15, ''4''), (24, 38, ''n+1'')]) =
      ''f(){p='' @ site_replacement ''4'' (fst (site_symbols (two_sites ! 1) 2)) (snd (site_symbols (two_sites ! 1) 2)) @
         '';}'' @ [LF] @ ''g(){q='' @
         site_replacement ''n+1'' (fst (site_symbols (two_sites ! 0) 1)) (snd (site_symbols (two_sites ! 0) 1)) @ '';}''"
    by code_simp
  moreover have "sort (remdups (map (\<lambda>(_, a). ae_function a)
      (filter (\<lambda>(_, a). ae_site a \<noteq> None) (enumerate 0 two_sites)))) = [''f'', ''g'']"
    "filter (\<lambda>a. ae_site a = None) two_sites = []" by code_simp+
  ultimately show ?thesis using eq by (simp add: res_bind_def split: sum.split)
qed

theorem wasm_sites_spliced_witness:
  "wasm_instrument_source ''a-b'' two_sites two_calls =
     Inr (''f(){p=(void*)(uintptr_t)interspec_wasm_alloc_a_b_site_2((uint32_t)(4));}'' @ [LF] @
          ''g(){q=(void*)(uintptr_t)interspec_wasm_alloc_a_b_site_1((uint32_t)(n+1));}'')"
proof -
  have "splice_all two_calls 0 (map2 (edit_of (wasm_site_replacement ''a-b'')) (wasm_sites two_sites)
      [(6, 15, ''4''), (24, 38, ''n+1'')]) =
      ''f(){p=(void*)(uintptr_t)interspec_wasm_alloc_a_b_site_2((uint32_t)(4));}'' @ [LF] @
      ''g(){q=(void*)(uintptr_t)interspec_wasm_alloc_a_b_site_1((uint32_t)(n+1));}''"
    by code_simp
  then show ?thesis using wasm_sites_spliced [OF two_calls_located(2,3,4), of "''a-b''"] by simp
qed

end
