(* ===== verification/NoinlineMark.thy ===== *)
theory NoinlineMark
  imports RewriteStability
begin

text \<open>
  The mark that keeps the compiler from inlining a function with a precise site: it is put
  immediately before the header that the search finds, and a marked function is found marked,
  so marking again changes nothing.
\<close>

lemma header_at_name: "header_at fn s i n \<Longrightarrow> k < length fn \<Longrightarrow> s ! (i + k) = fn ! k"
proof -
  assume h: "header_at fn s i n" and k: "k < length fn"
  then obtain r where r: "drop i s = fn @ r" by (auto simp: header_at_def header_text_def)
  have "i \<le> length s" using header_at_length [OF h] by simp
  then have "s ! (i + k) = drop i s ! k" using k by (simp add: nth_drop)
  then show ?thesis using r k by (simp add: nth_append)
qed

definition c_identifier :: "string \<Rightarrow> bool" where
  "c_identifier fn \<longleftrightarrow> fn \<noteq> [] \<and> list_all is_ident_char fn"

lemma ident_char_word: "is_ident_char c \<Longrightarrow> py_isword c"
  by (auto simp: is_ident_char_def is_alnum_def is_upper_def is_lower_def is_digit_def py_isword_def Let_def code_point_def)

lemma ident_char_other: "\<not> is_ident_char (CHR '')'')" "\<not> is_ident_char (CHR '' '')"
  by (simp_all add: is_ident_char_def is_alnum_def is_upper_def is_lower_def is_digit_def code_point_def)

lemma marker_length: "length noinline_marker = 26"
  by (simp add: noinline_marker_def)

lemma marker_chars:
  "noinline_marker ! 0 = CHR ''_''" "noinline_marker ! 23 = CHR '')''" "noinline_marker ! 24 = CHR '')''"
  "noinline_marker ! 25 = CHR '' ''"
  "k < 26 \<Longrightarrow> noinline_marker ! k = CHR ''('' \<Longrightarrow> k < 23"
  "k < 26 \<Longrightarrow> noinline_marker ! k = CHR '')'' \<Longrightarrow> 23 \<le> k"
  by (simp_all add: noinline_marker_def nth_Cons' numeral_nat split: if_splits)

lemma insert_nth:
  assumes "a \<le> length s"
  shows "k < a \<Longrightarrow> (take a s @ m @ drop a s) ! k = s ! k"
    and "k < length m \<Longrightarrow> (take a s @ m @ drop a s) ! (a + k) = m ! k"
  using assms by (simp_all add: nth_append)

lemma marked_header:
  assumes fn: "c_identifier fn" and m: "function_match s fn = Inr (a, b)"
  shows "function_match (take a s @ noinline_marker @ drop a s) fn = Inr (a + 26, b + 26)"
proof -
  let ?t = "take a s @ noinline_marker @ drop a s"
  have h: "header_at fn s a (b - a)" "a < b" and first: "\<And>i n. i < a \<Longrightarrow> \<not> header_at fn s i n"
    using m by (simp_all add: function_match_Inr)
  have a: "a \<le> length s" using header_at_length [OF h(1)] by simp
  have at: "?t ! (a + k) = noinline_marker ! k" if "k < 26" for k
    using insert_nth(2) [OF a] that by (simp add: marker_length)
  have d: "drop (a + 26) ?t = drop a s" using a by (simp add: marker_length)
  have first_char: "py_isword (fn ! 0)" "fn \<noteq> []"
    using fn ident_char_word by (auto simp: c_identifier_def list_all_length)
  have prev: "prev_char ?t (a + 26) = Some (CHR '' '')"
    using at [of 25] by (simp add: prev_char_def marker_chars ac_simps)
  have "\<not> py_isword (CHR '' '')" by (simp add: py_isword_def code_point_def)
  then have "word_boundary (prev_char ?t (a + 26)) (drop (a + 26) ?t)"
    unfolding prev d using h(1) first_char
    by (cases fn) (auto simp: word_boundary_def header_at_def header_text_def)
  then have h': "header_at fn ?t (a + 26) (b - a)"
    using h(1) unfolding header_at_def d by blast
  have none: "\<not> header_at fn ?t i n" if "i < a + 26" for i n
  proof
    assume hi: "header_at fn ?t i n"
    obtain p r where P: "i + length fn \<le> p" "p < r" "r < i + n - 1" "?t ! p = CHR ''(''" "?t ! r = CHR '')''"
      "?t ! (i + n - 1) = CHR ''{''"
      "\<And>k. i + length fn \<le> k \<Longrightarrow> k < p \<Longrightarrow> py_isspace (?t ! k)"
      "\<And>k. p < k \<Longrightarrow> k < r \<Longrightarrow> ?t ! k \<noteq> CHR '')''"
      "\<And>k. r < k \<Longrightarrow> k < i + n - 1 \<Longrightarrow> py_isspace (?t ! k)"
      using header_at_places [OF hi] by (elim exE conjE) blast
    have inside: False if "i + n \<le> a"
    proof -
      have "i + n \<le> length ?t" "take a ?t = take a s" using that a by simp_all
      with header_at_agree [OF hi, of a s] that have "header_at fn s i n" by simp
      moreover have "i < a" using P(1,2,3) that by linarith
      ultimately show False using first by blast
    qed
    have blank: "\<not> py_isspace (CHR ''_'')" "CHR ''_'' \<noteq> CHR ''{''"
      by (simp_all add: py_isspace_def code_point_def)
    have that_place: "\<exists>k. q = a + k \<and> k < 26" if "a \<le> q" "q < a + 26" for q
      using that by (intro exI [of _ "q - a"]) linarith
    consider "i + n \<le> a" | "a < i + n" "r < a" | "a \<le> r" "p < a + 23" | "a + 23 \<le> p" by linarith
    then show False
    proof cases
      case 1
      then show False by (rule inside)
    next
      case 2
      have "?t ! a = CHR ''_''" using at [of 0] by (simp add: marker_chars)
      then have "i + n - 1 \<noteq> a" "\<not> a < i + n - 1" using P(6) P(9) [of a] 2(2) blank by auto
      then show False using 2(1) by linarith
    next
      case 3
      have "r \<le> a + 23" using P(8) [OF 3(2)] at [of 23] by (auto simp: marker_chars simp flip: not_less)
      then obtain k where k: "r = a + k" "k < 26" using 3(1) that_place [of r] \<open>r \<le> a + 23\<close> by auto
      then have "23 \<le> k" using at [of k] P(5) marker_chars(6) by simp
      with k \<open>r \<le> a + 23\<close> have r: "r = a + 23" by simp
      then show False using P(6) P(9) [of "a + 24"] at [of 24] P(3)
        by (cases "i + n - 1 = a + 24") (auto simp: marker_chars)
    next
      case 4
      have "a + 26 \<le> p"
      proof (rule ccontr)
        assume "\<not> a + 26 \<le> p"
        then obtain k where k: "p = a + k" "k < 26" using 4 that_place [of p] by auto
        then show False using at [of k] P(4) marker_chars(5) [of k] 4 by simp
      qed
      then have "\<not> i + length fn \<le> a + 24" using P(7) [of "a + 24"] at [of 24] by (auto simp: marker_chars)
      moreover have "\<not> is_ident_char (?t ! (a + 24))" "\<not> is_ident_char (?t ! (a + 25))"
        using at [of 24] at [of 25] by (simp_all add: marker_chars ident_char_other)
      moreover have "is_ident_char (?t ! k)" if "i \<le> k" "k < i + length fn" for k
        using header_at_name [OF hi, of "k - i"] that fn by (auto simp: c_identifier_def list_all_length)
      moreover have "0 < length fn" using first_char by simp
      moreover have "i \<le> a + 24 \<or> i = a + 25" using \<open>i < a + 26\<close> by linarith
      ultimately show False by (metis add.right_neutral nat_add_left_cancel_less not_le order_refl)
    qed
  qed
  then show ?thesis using h' h(2) by (simp add: function_match_Inr)
qed

text \<open>
  Property C24. Marking a function puts the attribute immediately before the header that the
  search finds, unless it is there already, and changes nothing else; the marked function is
  still found, with its header shifted by the mark, and marking it again changes nothing.
\<close>

theorem noinline_mark_once:
  assumes "c_identifier fn" and "mark_precise_function_noinline s fn = Inr t"
  shows "(\<exists>a b. function_match s fn = Inr (a, b) \<and>
      (t = s \<and> slice s (a - length noinline_marker) a = noinline_marker \<or>
       t = take a s @ noinline_marker @ drop a s \<and>
         function_match t fn = Inr (a + length noinline_marker, b + length noinline_marker))) \<and>
    mark_precise_function_noinline t fn = Inr t"
proof -
  obtain a b where m: "function_match s fn = Inr (a, b)"
    using assms(2) by (auto simp: mark_precise_function_noinline_def res_bind_Inr)
  show ?thesis
  proof (cases "slice s (a - length noinline_marker) a = noinline_marker")
    case True
    then have "t = s" using assms(2) m by (simp add: mark_precise_function_noinline_def)
    with True m assms(2) show ?thesis by blast
  next
    case False
    then have t: "t = take a s @ noinline_marker @ drop a s"
      using assms(2) m by (simp add: mark_precise_function_noinline_def)
    have m': "function_match t fn = Inr (a + 26, b + 26)" unfolding t by (rule marked_header [OF assms(1) m])
    have "a \<le> length s" using m header_at_length [of fn s a "b - a"] by (simp add: function_match_Inr)
    then have "slice t a (a + 26) = noinline_marker" by (simp add: t slice_def marker_length)
    then have "mark_precise_function_noinline t fn = Inr t"
      using m' by (simp add: mark_precise_function_noinline_def marker_length)
    then show ?thesis using m t m' by (simp add: marker_length)
  qed
qed

theorem noinline_mark_once_witness:
  "mark_precise_function_noinline ''int f(){}'' ''f'' = Inr (''int '' @ noinline_marker @ ''f(){}'') \<and>
   mark_precise_function_noinline (''int '' @ noinline_marker @ ''f(){}'') ''f'' =
     Inr (''int '' @ noinline_marker @ ''f(){}'')"
proof -
  have fn: "c_identifier ''f''" by code_simp
  have m: "mark_precise_function_noinline ''int f(){}'' ''f'' = Inr (''int '' @ noinline_marker @ ''f(){}'')" by code_simp
  show ?thesis using m noinline_mark_once [OF fn m] by blast
qed

end
