(* ===== verification/BackendPatch.thy ===== *)
theory BackendPatch
  imports PyStr
begin

text \<open>
  What the two \<^verbatim>\<open>backends/*/apply_backend.py\<close> scripts share: the guarded textual replacement
  of one file, the check of the checked-out revision, and runs of replacements over a tree.
  A tree is a map from paths to texts; the output of \<^verbatim>\<open>git rev-parse HEAD\<close> is a parameter.
  A script that fails has already written the files it patched before, so a run returns the
  exception, if any, together with the tree.
\<close>

datatype patch_error =
    Context_not_found string          \<comment> \<open>the \<open>RuntimeError\<close> of \<open>replace\<close>\<close>
  | Unsupported_checkout string string string
  | Git_failed string                 \<comment> \<open>\<open>CalledProcessError\<close>\<close>
  | No_such_file string               \<comment> \<open>\<open>FileNotFoundError\<close> of \<open>read_text\<close>\<close>
  | No_manifest_entry string          \<comment> \<open>\<open>KeyError\<close> of the manifest\<close>

type_synonym files = "string \<Rightarrow> string option"

text \<open>A manifest: the commit of each component that has one.\<close>

type_synonym manifest = "string \<Rightarrow> string option"

definition HT :: char where "HT = CHR 0x09"

text \<open>\<open>replace\<close> on the text of a file: the text to be written, or \<open>None\<close> where it raises.\<close>

definition patch_text :: "string \<Rightarrow> string \<Rightarrow> string \<Rightarrow> string option" where
  "patch_text old new text =
     (if sublist new text then Some text
      else if \<not> sublist old text then None
      else Some (py_replace_first old new text))"

definition patch_file :: "string \<Rightarrow> string \<Rightarrow> string \<Rightarrow> files \<Rightarrow> patch_error option \<times> files" where
  "patch_file path old new fs =
     (case fs path of
        None \<Rightarrow> (Some (No_such_file path), fs)
      | Some text \<Rightarrow>
          (case patch_text old new text of
             None \<Rightarrow> (Some (Context_not_found path), fs)
           | Some text' \<Rightarrow> (None, fs(path \<mapsto> text'))))"

fun patch_files :: "(string \<times> string \<times> string) list \<Rightarrow> files \<Rightarrow> patch_error option \<times> files" where
  "patch_files [] fs = (None, fs)"
| "patch_files ((path, old, new) # ps) fs =
     (case patch_file path old new fs of
        (None, fs') \<Rightarrow> patch_files ps fs'
      | (Some e, fs') \<Rightarrow> (Some e, fs'))"

definition require_head :: "(string \<Rightarrow> string option) \<Rightarrow> string \<Rightarrow> string \<Rightarrow> patch_error + unit" where
  "require_head git repo expected =
     (case git repo of
        None \<Rightarrow> Inl (Git_failed repo)
      | Some out \<Rightarrow>
          (let actual = py_strip out
           in if actual \<noteq> expected then Inl (Unsupported_checkout repo expected actual) else Inr ()))"

definition manifest_commit :: "manifest \<Rightarrow> string \<Rightarrow> patch_error + string" where
  "manifest_commit manifest key =
     (case manifest key of None \<Rightarrow> Inl (No_manifest_entry key) | Some commit \<Rightarrow> Inr commit)"

section \<open>The first occurrence\<close>

lemma replace_first_at:
  assumes "old \<noteq> []" and "sublist old s"
  shows "\<exists>u v. s = u @ old @ v \<and> py_replace_first old new s = u @ new @ v"
  using assms(2)
proof (induction s)
  case Nil
  then show ?case using assms(1) by (simp add: sublist_def)
next
  case (Cons c s)
  show ?case
  proof (cases "prefix old (c # s)")
    case True
    then obtain v where v: "c # s = old @ v" by (auto simp: prefix_def)
    have "py_replace_first old new (c # s) = new @ drop (length old) (c # s)" using True by simp
    also have "drop (length old) (c # s) = v" by (simp add: v)
    finally have "py_replace_first old new (c # s) = [] @ new @ v" by simp
    moreover have "c # s = [] @ old @ v" using v by simp
    ultimately show ?thesis by blast
  next
    case False
    with Cons.prems have "sublist old s" by (simp add: sublist_Cons_right)
    from Cons.IH [OF this] obtain u v where "s = u @ old @ v" "py_replace_first old new s = u @ new @ v" by blast
    then have "c # s = (c # u) @ old @ v \<and> py_replace_first old new (c # s) = (c # u) @ new @ v" using False by simp
    then show ?thesis by blast
  qed
qed

lemma patch_text_contains:
  assumes "old \<noteq> []" and "patch_text old new s = Some s'"
  shows "sublist new s'"
  using assms replace_first_at [OF assms(1), of s new]
  by (auto simp: patch_text_def split: if_splits)

section \<open>Replacements that do not disturb each other\<close>

text \<open>One of two texts is a prefix of the other.\<close>

fun comparable :: "string \<Rightarrow> string \<Rightarrow> bool" where
  "comparable [] v = True"
| "comparable u [] = True"
| "comparable (a # u) (b # v) = (a = b \<and> comparable u v)"

lemma comparable_prefix: "comparable u v \<longleftrightarrow> prefix u v \<or> prefix v u"
  by (induction u v rule: comparable.induct) auto

lemma comparable_append: "u @ s = v @ t \<Longrightarrow> comparable u v"
  unfolding comparable_prefix by (metis append_eq_append_conv_if prefix_def take_is_prefix append_take_drop_id)

lemma comparable_sym: "comparable u v \<longleftrightarrow> comparable v u"
  by (auto simp: comparable_prefix)

text \<open>
  No suffix of \<open>u\<close> is comparable with \<open>v\<close>: an occurrence of \<open>v\<close> never starts inside one of \<open>u\<close>.
\<close>

fun starts_outside :: "string \<Rightarrow> string \<Rightarrow> bool" where
  "starts_outside v [] = True"
| "starts_outside v (c # u) = (\<not> comparable (c # u) v \<and> starts_outside v u)"

lemma starts_outside_drop: "starts_outside v u \<Longrightarrow> k < length u \<Longrightarrow> \<not> comparable (drop k u) v"
proof (induction u arbitrary: k)
  case (Cons c u)
  then show ?case by (cases k) simp_all
qed simp

text \<open>Replacing \<open>old\<close> spares a text that it cannot overlap.\<close>

definition spares :: "string \<Rightarrow> string \<Rightarrow> bool" where
  "spares old w = (starts_outside old w \<and> starts_outside w old)"

text \<open>The same line by line: a mismatch inside a line, with the first line of \<open>v\<close>, is enough.\<close>

fun lines_apart :: "string \<Rightarrow> string list \<Rightarrow> bool" where
  "lines_apart v [] = True"
| "lines_apart v [l] = starts_outside v l"
| "lines_apart v (l # l' # ls) = (starts_outside v (l @ [LF]) \<and> lines_apart v (l' # ls))"

lemma comparable_shorter: "comparable (a @ b) (u @ v) \<Longrightarrow> comparable a u"
  by (induction a u rule: comparable.induct) auto

lemma starts_outside_append: "starts_outside v a \<Longrightarrow> starts_outside v b \<Longrightarrow> starts_outside v (a @ b)"
proof (induction a)
  case (Cons c a)
  then show ?case using comparable_shorter [of "c # a" b v "[]"] by auto
qed simp

lemma starts_outside_longer: "starts_outside v u \<Longrightarrow> starts_outside (v @ t) u"
proof (induction u)
  case (Cons c u)
  then show ?case using comparable_shorter [of "c # u" "[]" v t] by auto
qed simp

lemma lines_apart_outside: "lines_apart v ls \<Longrightarrow> starts_outside v (py_join [LF] ls)"
proof (induction v ls rule: lines_apart.induct)
  case (3 v l l' ls)
  then show ?case using starts_outside_append [of v "l @ [LF]" "py_join [LF] (l' # ls)"] by simp
qed simp_all

lemma py_join_Cons: "\<exists>t. py_join sep (v # vs) = v @ t"
  by (cases vs) simp_all

lemma overlap_comparable:
  assumes "p @ w @ s = u @ v @ t" and "length p \<le> length u" and "length u < length (p @ w)"
  shows "\<exists>k < length w. comparable (drop k w) v"
proof -
  obtain k where k: "length u = length p + k" using assms(2) by (metis le_Suc_ex)
  then have "drop k w @ s = v @ t"
    using arg_cong [OF assms(1), of "drop (length u)"] assms(3) by simp
  then have "comparable (drop k w) v" by (rule comparable_append)
  then show ?thesis using k assms(3) by auto
qed

lemma spares_lines:
  assumes "lines_apart v (w # ws)" and "lines_apart w (v # vs)"
  shows "spares (py_join [LF] (v # vs)) (py_join [LF] (w # ws))"
proof -
  obtain t where "py_join [LF] (v # vs) = v @ t" using py_join_Cons by blast
  moreover obtain t' where "py_join [LF] (w # ws) = w @ t'" using py_join_Cons by blast
  ultimately show ?thesis unfolding spares_def
    using starts_outside_longer [OF lines_apart_outside [OF assms(1)]]
      starts_outside_longer [OF lines_apart_outside [OF assms(2)]] by metis
qed

text \<open>The same where the first lines agree: the two first lines are taken together.\<close>

lemma starts_outside_free: "c \<notin> set u \<Longrightarrow> starts_outside (c # v) u"
  by (induction u) auto

lemma lines_apart_two:
  assumes "starts_outside (v @ LF # v2) (w @ LF # w2 @ [LF])" and "lines_apart (v @ LF # v2) (w3 # ws)"
  shows "starts_outside (py_join [LF] (v # v2 # vs)) (py_join [LF] (w # w2 # w3 # ws))"
proof -
  obtain t where t: "py_join [LF] (v2 # vs) = v2 @ t" using py_join_Cons by blast
  have "starts_outside (v @ LF # v2) ((w @ LF # w2 @ [LF]) @ py_join [LF] (w3 # ws))"
    by (rule starts_outside_append [OF assms(1) lines_apart_outside [OF assms(2)]])
  from starts_outside_longer [OF this, of t] show ?thesis by (simp add: t)
qed

lemma spared_kept:
  assumes sp: "spares old w" and w: "sublist w (u @ old @ v)" and old: "old \<noteq> []"
  shows "sublist w (u @ new @ v)"
proof -
  obtain p s where ps: "p @ w @ s = u @ old @ v" using w by (auto simp: sublist_def)
  consider (before) "length (p @ w) \<le> length u" | (after) "length (u @ old) \<le> length p"
    | (left) "length p \<le> length u" "length u < length (p @ w)"
    | (right) "length u \<le> length p" "length p < length (u @ old)" by linarith
  then show ?thesis
  proof cases
    case before
    then have "take (length (p @ w)) u = p @ w"
      using arg_cong [OF ps, of "take (length (p @ w))"] by simp
    then have "prefix (p @ w) u" by (metis take_is_prefix)
    then obtain z where "u = p @ w @ z" by (auto simp: prefix_def)
    then show ?thesis by (metis append.assoc sublist_appendI)
  next
    case after
    then have "drop (length p - length (u @ old)) v = w @ s"
      using arg_cong [OF ps, of "drop (length p)"] by simp
    then have "suffix (w @ s) v" by (metis suffix_drop)
    then obtain z where "v = z @ w @ s" by (auto simp: suffix_def)
    then have "u @ new @ v = (u @ new @ z) @ w @ s" by simp
    then show ?thesis by (metis sublist_appendI)
  next
    case left
    from overlap_comparable [OF ps left] show ?thesis
      using sp starts_outside_drop by (auto simp: spares_def)
  next
    case right
    from overlap_comparable [OF ps [symmetric] right] show ?thesis
      using sp starts_outside_drop by (auto simp: spares_def)
  qed
qed

section \<open>Runs of replacements\<close>

definition independent :: "(string \<times> string \<times> string) list \<Rightarrow> bool" where
  "independent ps \<longleftrightarrow> list_all (\<lambda>(_, old, _). old \<noteq> []) ps \<and>
     sorted_wrt (\<lambda>(p, _, new) (p', old', new'). p = p' \<longrightarrow> spares old' new) ps"

text \<open>Every replacement is in its file.\<close>

definition all_applied :: "(string \<times> string \<times> string) list \<Rightarrow> files \<Rightarrow> bool" where
  "all_applied ps fs \<longleftrightarrow> list_all (\<lambda>(p, _, new). case fs p of None \<Rightarrow> False | Some t \<Rightarrow> sublist new t) ps"

lemma patch_file_ok:
  "patch_file p old new fs = (None, fs') \<longleftrightarrow>
     (\<exists>t t'. fs p = Some t \<and> patch_text old new t = Some t' \<and> fs' = fs(p \<mapsto> t'))"
  by (auto simp: patch_file_def split: option.splits)

lemma patch_text_keeps:
  assumes "spares old w" and "old \<noteq> []" and "sublist w t" and "patch_text old new t = Some t'"
  shows "sublist w t'"
  using assms replace_first_at [of old t new] spared_kept [of old w _ _ new]
  by (auto simp: patch_text_def split: if_splits)

lemma patch_files_keep:
  assumes "patch_files ps fs = (None, fs')" and "fs p = Some t" and "sublist w t"
    and "list_all (\<lambda>(p', old, new). old \<noteq> [] \<and> (p = p' \<longrightarrow> spares old w)) ps"
  shows "\<exists>t'. fs' p = Some t' \<and> sublist w t'"
  using assms
proof (induction ps arbitrary: fs t)
  case (Cons a ps)
  obtain p' old new where a: "a = (p', old, new)" by (cases a)
  obtain fs1 where s: "patch_file p' old new fs = (None, fs1)" "patch_files ps fs1 = (None, fs')"
    using Cons.prems(1) a by (auto split: prod.splits option.splits)
  then obtain u u' where u: "fs p' = Some u" "patch_text old new u = Some u'" "fs1 = fs(p' \<mapsto> u')"
    unfolding patch_file_ok by blast
  have "\<exists>t1. fs1 p = Some t1 \<and> sublist w t1"
  proof (cases "p = p'")
    case True
    then have "sublist w u'" using Cons.prems(2,3,4) a u(1,2) by (auto intro: patch_text_keeps [of old w t new])
    then show ?thesis using True u(3) by simp
  next
    case False
    then show ?thesis using Cons.prems(2,3) u(3) by simp
  qed
  then show ?case using Cons.IH [OF s(2)] Cons.prems(4) by auto
qed auto

lemma patch_files_applied:
  assumes "independent ps" and "patch_files ps fs = (None, fs')"
  shows "all_applied ps fs'"
  using assms
proof (induction ps arbitrary: fs)
  case Nil
  then show ?case by (simp add: all_applied_def)
next
  case (Cons a ps)
  obtain p old new where a: "a = (p, old, new)" by (cases a)
  obtain fs1 where s: "patch_file p old new fs = (None, fs1)" "patch_files ps fs1 = (None, fs')"
    using Cons.prems(2) a by (auto split: prod.splits option.splits)
  then obtain u u' where u: "fs p = Some u" "patch_text old new u = Some u'" "fs1 = fs(p \<mapsto> u')"
    unfolding patch_file_ok by blast
  have old: "old \<noteq> []" "independent ps"
    "list_all (\<lambda>(p', old, new'). old \<noteq> [] \<and> (p = p' \<longrightarrow> spares old new)) ps"
    using Cons.prems(1) a by (auto simp: independent_def list_all_iff)
  have "\<exists>t'. fs' p = Some t' \<and> sublist new t'"
    using patch_files_keep [OF s(2) _ patch_text_contains [OF old(1) u(2)] old(3)] u(3) by simp
  then show ?case using Cons.IH [OF old(2) s(2)] a by (auto simp: all_applied_def)
qed

lemma patch_files_again: "all_applied ps fs \<Longrightarrow> patch_files ps fs = (None, fs)"
proof (induction ps)
  case (Cons a ps)
  obtain p old new where a: "a = (p, old, new)" by (cases a)
  with Cons.prems obtain t where t: "fs p = Some t" "sublist new t"
    by (auto simp: all_applied_def split: option.splits)
  then have "patch_file p old new fs = (None, fs)" by (simp add: patch_file_def patch_text_def fun_upd_idem)
  then show ?case using Cons a by (simp add: all_applied_def)
qed simp

text \<open>Only the listed files can change, also when the run fails.\<close>

lemma patch_files_frame:
  "patch_files ps fs = (r, fs') \<Longrightarrow> p \<notin> fst ` set ps \<Longrightarrow> fs' p = fs p"
proof (induction ps arbitrary: fs)
  case (Cons a ps)
  obtain q old new where a: "a = (q, old, new)" by (cases a)
  obtain e fs1 where s: "patch_file q old new fs = (e, fs1)" by fastforce
  have "fs1 p = fs p" using s Cons.prems(2) a by (auto simp: patch_file_def split: option.splits)
  then show ?case using Cons s a by (cases e) auto
qed simp

text \<open>Paths below a root.\<close>

definition below :: "string \<Rightarrow> (string \<times> string \<times> string) list \<Rightarrow> (string \<times> string \<times> string) list" where
  "below root = map (\<lambda>(p, old, new). (root @ ''/'' @ p, old, new))"

lemma independent_below: "independent ps \<Longrightarrow> independent (below root ps)"
  by (auto simp: independent_def below_def list_all_iff sorted_wrt_map case_prod_unfold)

lemma patch_files_append:
  "patch_files (ps @ qs) fs = (case patch_files ps fs of (None, fs') \<Rightarrow> patch_files qs fs' | (Some e, fs') \<Rightarrow> (Some e, fs'))"
  by (induction ps arbitrary: fs) (auto split: prod.splits option.splits)

text \<open>Rules that take a run apart into pairs of texts of one file.\<close>

lemma independent_Nil: "independent []"
  by (simp add: independent_def)

lemma independent_Cons:
  assumes "old \<noteq> []" and "list_all (\<lambda>(p', old', _). p = p' \<longrightarrow> spares old' new) ps" and "independent ps"
  shows "independent ((p, old, new) # ps)"
  using assms by (auto simp: independent_def list_all_iff)

lemma independent_append:
  assumes "independent ps" and "independent qs" and "\<forall>p \<in> fst ` set ps. p \<notin> fst ` set qs"
  shows "independent (ps @ qs)"
proof -
  have "fst a \<noteq> fst b" if "a \<in> set ps" "b \<in> set qs" for a b using assms(3) that by auto
  then show ?thesis using assms(1,2) by (simp add: independent_def sorted_wrt_append case_prod_unfold)
qed

lemma spared_Cons:
  assumes "spares old new" and "list_all (\<lambda>(p', old', _). p = p' \<longrightarrow> spares old' new) ps"
  shows "list_all (\<lambda>(p', old', _). p = p' \<longrightarrow> spares old' new) ((p', old, n) # ps)"
  using assms by simp

lemma spared_Nil: "list_all (\<lambda>(p', old', _). p = p' \<longrightarrow> spares old' new) []"
  by simp

lemma py_join_lines: "l \<noteq> [] \<Longrightarrow> py_join [LF] (l # ls) \<noteq> []"
  by (cases ls) auto

lemmas independent_rules = independent_Nil independent_Cons spared_Cons spared_Nil spares_lines py_join_lines

end
