(* ===== verification/NaclBackend.thy ===== *)
theory NaclBackend
  imports BackendPatch
begin

text \<open>
  \<^verbatim>\<open>backends/rlbox_nacl/apply_backend.py\<close>: the textual patches of the pinned NaCl backend, file
  by file in the order of the script, and the script itself, which checks the two checked-out
  revisions against the manifest before it touches a file.
\<close>

section \<open>The patches\<close>

definition nacl_header_patches :: "(string \<times> string \<times> string) list" where
  \<open>nacl_header_patches =
  [(''include/rlbox_nacl_sandbox.hpp'',
   py_join [LF]
    [''#include <cstdint>'',
     ''#include <iostream>''],
   py_join [LF]
    [''#include <cstdint>'',
     ''#include <cstring>'',
     ''#include <iostream>'']),
   (''include/rlbox_nacl_sandbox.hpp'',
   py_join [LF]
    [''namespace rlbox {'',
     '''',
     ''namespace detail {''],
   py_join [LF]
    [''namespace rlbox {'',
     '''',
     ''using std::memcpy;'',
     '''',
     ''namespace detail {'']),
   (''include/rlbox_nacl_sandbox.hpp'',
   py_join [LF]
    [''  using T_PointerType = uint32_t;'',
     ''  using T_ShortType = short;'',
     '''',
     ''private:''],
   py_join [LF]
    [''  using T_PointerType = uint32_t;'',
     ''  using T_ShortType = short;'',
     '''',
     ''  T_PointerType reserve_typed_arena(size_t size)'',
     ''  {'',
     ''    return static_cast<T_PointerType>(reserveTypedArena(sandbox, size));'',
     ''  }'',
     '''',
     ''  T_PointerType sandbox_address(const void* ptr) const'',
     ''  {'',
     ''    return static_cast<T_PointerType>('',
     ''      getSandboxedAddress(sandbox, reinterpret_cast<uintptr_t>(ptr)));'',
     ''  }'',
     '''',
     ''  uintptr_t callback_program_counter() const'',
     ''  {'',
     ''    /* P7a authorizes the instruction that returns from this syscall. */'',
     ''    return getCallbackNewProgramCounter(sandbox);'',
     ''  }'',
     '''',
     ''  uintptr_t callback_new_program_counter() const'',
     ''  {'',
     ''    return getCallbackNewProgramCounter(sandbox);'',
     ''  }'',
     '''',
     ''  uint32_t callback_slot_for_key(const void* key) const'',
     ''  {'',
     ''    RLBOX_ACQUIRE_SHARED_GUARD(lock, callback_mutex);'',
     ''    for (uint32_t i = 0; i < MAX_CALLBACKS; ++i) {'',
     ''      if (callback_unique_keys[i] == key) return i;'',
     ''    }'',
     ''    return std::numeric_limits<uint32_t>::max();'',
     ''  }'',
     '''',
     ''  uintptr_t lookup_symbol_address(const char* name)'',
     ''  {'',
     ''    return reinterpret_cast<uintptr_t>(impl_lookup_symbol(name));'',
     ''  }'',
     '''',
     ''private:''])]\<close>

definition sel_ldr_patches :: "(string \<times> string \<times> string) list" where
  \<open>sel_ldr_patches =
  [(''nacl_rlbox/native_client/src/trusted/service_runtime/sel_ldr.h'',
   py_join [LF]
    [''  uintptr_t                 break_addr;   /* user addr */'',
     ''  /* data_end <= break_addr is an invariant */''],
   py_join [LF]
    [''  uintptr_t                 break_addr;   /* user addr */'',
     ''  /* data_end <= break_addr is an invariant */'',
     '''',
     ''  /* T-managed arena that remains readable/writable by U. */'',
     ''  uintptr_t                 typed_arena_start;'',
     ''  size_t                    typed_arena_size;''])]\<close>

definition dyn_header_patches :: "(string \<times> string \<times> string) list" where
  \<open>dyn_header_patches =
  [(''nacl_rlbox/native_client/src/trusted/dyn_ldr/dyn_ldr_lib.h'',
   py_join [LF]
    [[HT] @ ''size_t callbackParamsAlreadyRead;'',
     ''''],
   py_join [LF]
    [[HT] @ ''size_t callbackParamsAlreadyRead;'',
     [HT] @ ''/* Trusted NaCl execution state captured at callback syscall entry. */'',
     [HT] @ ''uintptr_t callbackProgramCounter;'',
     [HT] @ ''uintptr_t callbackNewProgramCounter;'',
     '''']),
   (''nacl_rlbox/native_client/src/trusted/dyn_ldr/dyn_ldr_lib.h'',
   py_join [LF]
    [''unsigned long getSandboxMemoryBase(NaClSandbox* sandbox);'',
     '''',
     ''void* mallocInSandbox''],
   py_join [LF]
    [''unsigned long getSandboxMemoryBase(NaClSandbox* sandbox);'',
     ''uintptr_t reserveTypedArena(NaClSandbox* sandbox, size_t size);'',
     ''uintptr_t getCallbackProgramCounter(NaClSandbox* sandbox);'',
     ''uintptr_t getCallbackNewProgramCounter(NaClSandbox* sandbox);'',
     '''',
     ''void* mallocInSandbox''])]\<close>

definition dyn_source_patches :: "(string \<times> string \<times> string) list" where
  \<open>dyn_source_patches =
  [(''nacl_rlbox/native_client/src/trusted/dyn_ldr/dyn_ldr_lib.c'',
   py_join [LF]
    [''  threadData->callbackParamsAlreadyRead = 0;'',
     ''''],
   py_join [LF]
    [''  threadData->callbackParamsAlreadyRead = 0;'',
     ''  threadData->callbackProgramCounter = 0;'',
     ''  threadData->callbackNewProgramCounter = 0;'',
     '''']),
   (''nacl_rlbox/native_client/src/trusted/dyn_ldr/dyn_ldr_lib.c'',
   py_join [LF]
    [''unsigned long getSandboxMemoryBase(NaClSandbox* sandbox)'',
     ''{'',
     ''  return sandbox->nap->mem_start;'',
     ''}'',
     '''',
     ''/********************** "Function call stub" helpers *****************************/''],
   py_join [LF]
    [''unsigned long getSandboxMemoryBase(NaClSandbox* sandbox)'',
     ''{'',
     ''  return sandbox->nap->mem_start;'',
     ''}'',
     '''',
     ''uintptr_t reserveTypedArena(NaClSandbox* sandbox, size_t size)'',
     ''{'',
     ''  if (size == 0 || sandbox->nap->typed_arena_size != 0) return 0;'',
     '''',
     ''  size = NaClRoundAllocPage(size);'',
     ''  uintptr_t addr = (uintptr_t) NaClSysMmapIntern('',
     ''    sandbox->nap,'',
     ''    (void *) sandbox->nap->data_start,'',
     ''    size,'',
     ''    NACL_ABI_PROT_READ | NACL_ABI_PROT_WRITE,'',
     ''    NACL_ABI_MAP_ANONYMOUS | NACL_ABI_MAP_PRIVATE,'',
     ''    -1,'',
     ''    0);'',
     '''',
     ''  if ((void *) addr == NACL_ABI_MAP_FAILED || NaClPtrIsNegErrno(&addr)) return 0;'',
     '''',
     ''  sandbox->nap->typed_arena_start = addr;'',
     ''  sandbox->nap->typed_arena_size = size;'',
     ''  return addr;'',
     ''}'',
     '''',
     ''/********************** "Function call stub" helpers *****************************/'']),
   (''nacl_rlbox/native_client/src/trusted/dyn_ldr/dyn_ldr_lib.c'',
   py_join [LF]
    [''NaClSandbox_Thread* callbackParamsBegin(NaClSandbox* sandbox)'',
     ''''],
   py_join [LF]
    [''uintptr_t getCallbackProgramCounter(NaClSandbox* sandbox)'',
     ''{'',
     ''  NaClSandbox_Thread* threadData = getThreadData(sandbox);'',
     ''  return threadData ? threadData->callbackProgramCounter : 0;'',
     ''}'',
     '''',
     ''uintptr_t getCallbackNewProgramCounter(NaClSandbox* sandbox)'',
     ''{'',
     ''  NaClSandbox_Thread* threadData = getThreadData(sandbox);'',
     ''  return threadData ? threadData->callbackNewProgramCounter : 0;'',
     ''}'',
     '''',
     ''NaClSandbox_Thread* callbackParamsBegin(NaClSandbox* sandbox)'',
     ''''])]\<close>

definition syscall_patches :: "(string \<times> string \<times> string) list" where
  \<open>syscall_patches =
  [(''nacl_rlbox/native_client/src/trusted/service_runtime/nacl_syscall_common.c'',
   py_join [LF]
    [''#include "native_client/src/trusted/dyn_ldr/datastructures/ds_stack.h"'',
     ''''],
   py_join [LF]
    [''#include "native_client/src/trusted/dyn_ldr/datastructures/ds_stack.h"'',
     ''#include "native_client/src/trusted/dyn_ldr/dyn_ldr_lib.h"'',
     '''']),
   (''nacl_rlbox/native_client/src/trusted/service_runtime/nacl_syscall_common.c'',
   py_join [LF]
    [''  if(callbackSlotNumber < CALLBACK_SLOTS_AVAILABLE && natp->nap->callbackSlot[callbackSlotNumber] != 0)'',
     ''  {'',
     ''    typedef void (*RegPtrPtrFunc)(uintptr_t, void*, uint64_t*);''],
   py_join [LF]
    [''  if(callbackSlotNumber < CALLBACK_SLOTS_AVAILABLE && natp->nap->callbackSlot[callbackSlotNumber] != 0)'',
     ''  {'',
     ''    typedef void (*RegPtrPtrFunc)(uintptr_t, void*, uint64_t*);'',
     ''    NaClSandbox_Thread* interspecThreadData ='',
     ''      (NaClSandbox_Thread*) natp->custom_app_state;'',
     ''    if (interspecThreadData != NULL) {'',
     ''      interspecThreadData->callbackProgramCounter = natp->user.prog_ctr;'',
     ''      interspecThreadData->callbackNewProgramCounter = natp->user.new_prog_ctr;'',
     ''    }''])]\<close>

definition sys_memory_patches :: "(string \<times> string \<times> string) list" where
  \<open>sys_memory_patches =
  [(''nacl_rlbox/native_client/src/trusted/service_runtime/sys_memory.c'',
   py_join [LF]
    [''static INLINE size_t  size_min(size_t a, size_t b) {'',
     ''  return (a < b) ? a : b;'',
     ''}'',
     ''''],
   py_join [LF]
    [''static INLINE size_t  size_min(size_t a, size_t b) {'',
     ''  return (a < b) ? a : b;'',
     ''}'',
     '''',
     ''static int TypedArenaOverlaps(struct NaClApp *nap,'',
     ''                              uintptr_t start, size_t length) {'',
     ''  if (nap->typed_arena_size == 0 || length == 0) return 0;'',
     '''',
     ''  uintptr_t end = start + length;'',
     ''  if (end < start) return 1;'',
     ''  end = NaClRoundAllocPage(end);'',
     ''  if (end < start) return 1;'',
     '''',
     ''  const uintptr_t arena_end ='',
     ''      nap->typed_arena_start + nap->typed_arena_size;'',
     ''  return start < arena_end && nap->typed_arena_start < end;'',
     ''}'',
     '''']),
   (''nacl_rlbox/native_client/src/trusted/service_runtime/sys_memory.c'',
   py_join [LF]
    [''                    uint32_t              offp) {'',
     ''  struct NaClApp  *nap = natp->nap;'',
     ''  nacl_abi_off_t  offset;''],
   py_join [LF]
    [''                    uint32_t              offp) {'',
     ''  struct NaClApp  *nap = natp->nap;'',
     ''  nacl_abi_off_t  offset;'',
     '''',
     ''  if ((flags & NACL_ABI_MAP_FIXED) &&'',
     ''      TypedArenaOverlaps(nap, start, length)) {'',
     ''    return -NACL_ABI_EINVAL;'',
     ''  }'']),
   (''nacl_rlbox/native_client/src/trusted/service_runtime/sys_memory.c'',
   py_join [LF]
    [''int32_t NaClSysMunmap(struct NaClAppThread  *natp,'',
     ''                      uint32_t              start,'',
     ''                      uint32_t              length) {'',
     ''  struct NaClApp *nap = natp->nap;''],
   py_join [LF]
    [''int32_t NaClSysMunmap(struct NaClAppThread  *natp,'',
     ''                      uint32_t              start,'',
     ''                      uint32_t              length) {'',
     ''  struct NaClApp *nap = natp->nap;'',
     '''',
     ''  if (TypedArenaOverlaps(nap, start, length)) return -NACL_ABI_EINVAL;'']),
   (''nacl_rlbox/native_client/src/trusted/service_runtime/sys_memory.c'',
   py_join [LF]
    [''int32_t NaClSysMprotect(struct NaClAppThread  *natp,'',
     ''                        uint32_t              start,'',
     ''                        size_t                length,'',
     ''                        int                   prot) {'',
     ''  struct NaClApp  *nap = natp->nap;''],
   py_join [LF]
    [''int32_t NaClSysMprotect(struct NaClAppThread  *natp,'',
     ''                        uint32_t              start,'',
     ''                        size_t                length,'',
     ''                        int                   prot) {'',
     ''  struct NaClApp  *nap = natp->nap;'',
     '''',
     ''  if (TypedArenaOverlaps(nap, start, length)) return -NACL_ABI_EINVAL;''])]\<close>

section \<open>The script\<close>

definition nacl_patches :: "(string \<times> string \<times> string) list" where
  "nacl_patches = nacl_header_patches @ sel_ldr_patches @ dyn_header_patches @ dyn_source_patches @
     syscall_patches @ sys_memory_patches"

definition check_nacl_heads :: "(string \<Rightarrow> string option) \<Rightarrow> manifest \<Rightarrow> string \<Rightarrow> patch_error + unit" where
  "check_nacl_heads git manifest root =
     res_bind (manifest_commit manifest ''rlbox_nacl_sandbox'') (\<lambda>expected.
     res_bind (require_head git root expected) (\<lambda>_.
     res_bind (manifest_commit manifest ''nacl_sandbox_compiler'') (\<lambda>expected.
     require_head git (root @ ''/nacl_rlbox/native_client'') expected)))"

definition apply_nacl_backend ::
    "(string \<Rightarrow> string option) \<Rightarrow> manifest \<Rightarrow> string \<Rightarrow> files \<Rightarrow> patch_error option \<times> files" where
  "apply_nacl_backend git manifest root fs =
     (case check_nacl_heads git manifest root of
        Inl e \<Rightarrow> (Some e, fs)
      | Inr _ \<Rightarrow> patch_files (below root nacl_patches) fs)"

section \<open>The patches of one file do not disturb each other\<close>

lemma nacl_header_independent: "independent nacl_header_patches"
  unfolding nacl_header_patches_def by (intro independent_rules; code_simp)

lemma sel_ldr_independent: "independent sel_ldr_patches"
  unfolding sel_ldr_patches_def by (intro independent_rules; code_simp)

lemma dyn_header_independent: "independent dyn_header_patches"
  unfolding dyn_header_patches_def by (intro independent_rules; code_simp)

lemma dyn_source_independent: "independent dyn_source_patches"
  unfolding dyn_source_patches_def by (intro independent_rules; code_simp)

lemma syscall_independent: "independent syscall_patches"
  unfolding syscall_patches_def by (intro independent_rules; code_simp)

lemma sys_memory_independent: "independent sys_memory_patches"
  unfolding sys_memory_patches_def by (intro independent_rules; code_simp)

lemma nacl_paths:
  "fst ` set nacl_header_patches = {''include/rlbox_nacl_sandbox.hpp''}"
  "fst ` set sel_ldr_patches = {''nacl_rlbox/native_client/src/trusted/service_runtime/sel_ldr.h''}"
  "fst ` set dyn_header_patches = {''nacl_rlbox/native_client/src/trusted/dyn_ldr/dyn_ldr_lib.h''}"
  "fst ` set dyn_source_patches = {''nacl_rlbox/native_client/src/trusted/dyn_ldr/dyn_ldr_lib.c''}"
  "fst ` set syscall_patches = {''nacl_rlbox/native_client/src/trusted/service_runtime/nacl_syscall_common.c''}"
  "fst ` set sys_memory_patches = {''nacl_rlbox/native_client/src/trusted/service_runtime/sys_memory.c''}"
  unfolding nacl_header_patches_def sel_ldr_patches_def dyn_header_patches_def dyn_source_patches_def
    syscall_patches_def sys_memory_patches_def
  by (simp_all only: list.set image_insert image_empty fst_conv insert_absorb2)

lemma nacl_independent: "independent nacl_patches"
  unfolding nacl_patches_def
  by (intro independent_append nacl_header_independent sel_ldr_independent dyn_header_independent
      dyn_source_independent syscall_independent sys_memory_independent)
     (simp_all add: image_Un nacl_paths)

section \<open>Properties\<close>

text \<open>
  Property C26. Applying the NaCl backend twice is applying it once: if the script succeeds,
  every patch is in its file, no other file has changed, and running it again succeeds and
  changes nothing, so no patch destroys the text of an earlier one.
\<close>

theorem nacl_backend_again:
  assumes "apply_nacl_backend git manifest root fs = (None, fs')"
  shows "all_applied (below root nacl_patches) fs' \<and> apply_nacl_backend git manifest root fs' = (None, fs') \<and>
    {p. fs' p \<noteq> fs p} \<subseteq> fst ` set (below root nacl_patches)"
proof -
  have run: "patch_files (below root nacl_patches) fs = (None, fs')"
    and heads: "\<exists>u. check_nacl_heads git manifest root = Inr u"
    using assms by (auto simp: apply_nacl_backend_def split: sum.splits)
  have "all_applied (below root nacl_patches) fs'"
    by (rule patch_files_applied [OF independent_below [OF nacl_independent] run])
  then show ?thesis using heads patch_files_again patch_files_frame [OF run]
    by (auto simp: apply_nacl_backend_def)
qed

text \<open>
  A tree on which the script has something to do: one header is as it was fetched, the other
  files are patched already.
\<close>

definition sel_ldr_path :: string where
  "sel_ldr_path = ''r/nacl_rlbox/native_client/src/trusted/service_runtime/sel_ldr.h''"

definition nacl_git :: "string \<Rightarrow> string option" where
  "nacl_git = map_of
     [(''r'', ''0dd15342c86c0625c7c2ed7762a13feb524252d7'' @ [LF]),
      (''r/nacl_rlbox/native_client'', ''f274515ab22441ea6b4e937e519ace851fac308f'' @ [LF])]"

definition nacl_manifest :: manifest where
  "nacl_manifest = map_of
     [(''rlbox_nacl_sandbox'', ''0dd15342c86c0625c7c2ed7762a13feb524252d7''),
      (''nacl_sandbox_compiler'', ''f274515ab22441ea6b4e937e519ace851fac308f'')]"

definition nacl_tree :: files where
  "nacl_tree p = (if p = sel_ldr_path then Some (fst (snd (hd sel_ldr_patches)))
     else Some (concat (map (\<lambda>(q, _, new). if ''r/'' @ q = p then new else []) nacl_patches)))"

lemma nacl_heads: "check_nacl_heads nacl_git nacl_manifest ''r'' = Inr ()"
  by code_simp

lemma sel_ldr_edit:
  "sel_ldr_patches = [(tl (tl sel_ldr_path), fst (snd (hd sel_ldr_patches)), snd (snd (hd sel_ldr_patches)))]"
  "length (fst (snd (hd sel_ldr_patches))) < length (snd (snd (hd sel_ldr_patches)))"
  "fst (snd (hd sel_ldr_patches)) \<noteq> []"
  by (simp_all add: sel_ldr_patches_def sel_ldr_path_def)

lemma nacl_tree_patched:
  assumes "set ps \<subseteq> set nacl_patches" and "\<forall>p \<in> fst ` set ps. ''r/'' @ p \<noteq> sel_ldr_path"
    and "\<forall>p. p \<noteq> sel_ldr_path \<longrightarrow> fs p = nacl_tree p"
  shows "all_applied (below ''r'' ps) fs"
proof -
  have "sublist new (concat (map (\<lambda>(q, _, new). if ''r/'' @ q = ''r/'' @ p then new else []) nacl_patches))"
    if elem: "(p, old, new) \<in> set nacl_patches" for p old new
  proof -
    obtain ys zs where split: "nacl_patches = ys @ (p, old, new) # zs" using split_list [OF elem] by blast
    show ?thesis unfolding split by simp
  qed
  note copy = this
  have "\<exists>t. fs (''r/'' @ p) = Some t \<and> sublist new t" if elem: "(p, old, new) \<in> set ps" for p old new
  proof -
    have "p \<in> fst ` set ps" using elem by (metis fst_conv image_eqI)
    then have path: "''r/'' @ p \<noteq> sel_ldr_path" using assms(2) by blast
    have "(p, old, new) \<in> set nacl_patches" using elem assms(1) by blast
    from copy [OF this] path assms(3) show ?thesis unfolding nacl_tree_def by metis
  qed
  then show ?thesis unfolding all_applied_def below_def list_all_iff by (auto split: option.splits) fastforce+
qed

lemma nacl_tree_run:
  "apply_nacl_backend nacl_git nacl_manifest ''r'' nacl_tree =
     (None, nacl_tree(sel_ldr_path \<mapsto> snd (snd (hd sel_ldr_patches))))"
proof -
  let ?B = "dyn_header_patches @ dyn_source_patches @ syscall_patches @ sys_memory_patches"
  let ?fs = "nacl_tree(sel_ldr_path \<mapsto> snd (snd (hd sel_ldr_patches)))"
  have "all_applied (below ''r'' nacl_header_patches) nacl_tree"
    by (rule nacl_tree_patched) (auto simp: nacl_patches_def nacl_paths sel_ldr_path_def)
  moreover have "all_applied (below ''r'' ?B) ?fs"
    by (rule nacl_tree_patched) (auto simp: nacl_patches_def image_Un ball_Un nacl_paths sel_ldr_path_def)
  moreover have "patch_files (below ''r'' sel_ldr_patches) nacl_tree = (None, ?fs)"
  proof -
    let ?old = "fst (snd (hd sel_ldr_patches))" and ?new = "snd (snd (hd sel_ldr_patches))"
    have "\<not> sublist ?new ?old" using sel_ldr_edit(2) sublist_length_le by (metis not_le)
    moreover have "py_replace_first ?old ?new ?old = ?new"
      using sel_ldr_edit(3) by (cases ?old) simp_all
    ultimately have "patch_text ?old ?new ?old = Some ?new" by (simp add: patch_text_def)
    moreover have "nacl_tree sel_ldr_path = Some ?old" by (simp add: nacl_tree_def)
    moreover have "''r'' @ ''/'' @ tl (tl sel_ldr_path) = sel_ldr_path" by (simp add: sel_ldr_path_def)
    ultimately show ?thesis
      by (subst sel_ldr_edit(1), cases "snd (hd sel_ldr_patches)")
         (simp add: below_def patch_file_def del: append.simps append_Cons)
  qed
  ultimately have "patch_files (below ''r'' nacl_header_patches @ below ''r'' sel_ldr_patches @ below ''r'' ?B) nacl_tree =
      (None, ?fs)"
    by (simp add: patch_files_append patch_files_again)
  then show ?thesis by (simp add: apply_nacl_backend_def nacl_heads nacl_patches_def below_def)
qed

theorem nacl_backend_again_witness:
  "apply_nacl_backend nacl_git nacl_manifest ''r'' (nacl_tree(sel_ldr_path \<mapsto> snd (snd (hd sel_ldr_patches)))) =
     (None, nacl_tree(sel_ldr_path \<mapsto> snd (snd (hd sel_ldr_patches))))"
  using nacl_backend_again [OF nacl_tree_run] by blast

text \<open>
  The NaCl script touches only its own files, and only in a checkout whose two
  revisions are those of the manifest; otherwise it fails before it writes anything.
\<close>

lemma nacl_backend_frame:
  assumes "apply_nacl_backend git manifest root fs = (r, fs')"
  shows "{p. fs' p \<noteq> fs p} \<subseteq> fst ` set (below root nacl_patches) \<and>
    (fs' = fs \<and> r \<noteq> None \<or>
     manifest ''rlbox_nacl_sandbox'' = map_option py_strip (git root) \<and> git root \<noteq> None \<and>
     manifest ''nacl_sandbox_compiler'' = map_option py_strip (git (root @ ''/nacl_rlbox/native_client'')) \<and>
     git (root @ ''/nacl_rlbox/native_client'') \<noteq> None)"
proof (cases "check_nacl_heads git manifest root")
  case (Inl e)
  then show ?thesis using assms by (auto simp: apply_nacl_backend_def)
next
  case (Inr u)
  then have run: "patch_files (below root nacl_patches) fs = (r, fs')" using assms by (simp add: apply_nacl_backend_def)
  have "manifest ''rlbox_nacl_sandbox'' = map_option py_strip (git root) \<and> git root \<noteq> None \<and>
     manifest ''nacl_sandbox_compiler'' = map_option py_strip (git (root @ ''/nacl_rlbox/native_client'')) \<and>
     git (root @ ''/nacl_rlbox/native_client'') \<noteq> None"
    using Inr by (auto simp: check_nacl_heads_def res_bind_Inr manifest_commit_def require_head_def Let_def
        split: option.splits if_splits)
  then show ?thesis using patch_files_frame [OF run] by blast
qed

end
