(* ===== verification/Wasm2cBackend.thy ===== *)
theory Wasm2cBackend
  imports BackendPatch
begin

text \<open>
  \<^verbatim>\<open>backends/rlbox_wasm2c/apply_backend.py\<close>: the patches of the pinned wasm2c backend, two of
  which put the revisions of the manifest into the build file, and the script.  The script
  looks the second revision up only after the first patch is written.
\<close>

section \<open>The patches\<close>

definition rlbox_pin :: "string \<Rightarrow> string \<times> string \<times> string" where
  \<open>rlbox_pin commit =
  (''CMakeLists.txt'',
   py_join [LF]
    [''FetchContent_Declare('',
     ''  rlbox'',
     ''  GIT_REPOSITORY https://github.com/PLSysSec/rlbox.git'',
     ''  GIT_TAG main)''],
   py_join [LF]
    [''FetchContent_Declare('',
     ''  rlbox'',
     ''  GIT_REPOSITORY https://github.com/PLSysSec/rlbox.git'',
     ''  GIT_TAG '' @ commit @ '')''])\<close>

definition wabt_pin :: "string \<Rightarrow> string \<times> string \<times> string" where
  \<open>wabt_pin commit =
  (''CMakeLists.txt'',
   py_join [LF]
    [''FetchContent_Declare('',
     ''  wasm2c_compiler'',
     ''  GIT_REPOSITORY https://github.com/WebAssembly/wabt/'',
     ''  GIT_TAG main)''],
   py_join [LF]
    [''FetchContent_Declare('',
     ''  wasm2c_compiler'',
     ''  GIT_REPOSITORY https://github.com/WebAssembly/wabt/'',
     ''  GIT_TAG '' @ commit @ '')''])\<close>

definition mem_header_patch :: "string \<times> string \<times> string" where
  \<open>mem_header_patch =
  (''include/wasm2c_rt_mem.h'',
   py_join [LF]
    [''  typedef struct w2c_env'',
     ''  {'',
     ''    wasm_rt_memory_t* sandbox_memory_info;'',
     ''    wasm_rt_funcref_table_t* sandbox_callback_table;'',
     ''  } w2c_env;''],
   py_join [LF]
    [''  typedef uint32_t (*interspec_wasm_alloc_fn)(void*, uint32_t, uint32_t);'',
     ''  typedef uint32_t (*interspec_wasm_release_fn)(void*, uint32_t);'',
     ''  typedef uint32_t (*interspec_wasm_size_fn)(void*, uint32_t);'',
     ''  typedef uint32_t (*interspec_wasm_reallocate_fn)(void*, uint32_t, uint32_t);'',
     '''',
     ''  typedef struct w2c_env'',
     ''  {'',
     ''    wasm_rt_memory_t* sandbox_memory_info;'',
     ''    wasm_rt_funcref_table_t* sandbox_callback_table;'',
     ''    void* interspec_context;'',
     ''    interspec_wasm_alloc_fn interspec_allocate;'',
     ''    interspec_wasm_release_fn interspec_release;'',
     ''    interspec_wasm_size_fn interspec_size;'',
     ''    interspec_wasm_reallocate_fn interspec_reallocate;'',
     ''  } w2c_env;''])\<close>

definition wasm2c_header_patch :: "string \<times> string \<times> string" where
  \<open>wasm2c_header_patch =
  (''include/rlbox_wasm2c_sandbox.hpp'',
   py_join [LF]
    [''  using T_PointerType = uint32_t;'',
     ''  using T_ShortType = int16_t;'',
     '''',
     ''private:''],
   py_join [LF]
    [''  using T_PointerType = uint32_t;'',
     ''  using T_ShortType = int16_t;'',
     '''',
     ''  T_PointerType reserve_typed_arena(size_t size)'',
     ''  {'',
     ''    return impl_malloc_in_sandbox(size);'',
     ''  }'',
     '''',
     ''  T_PointerType sandbox_address(const void* ptr) const'',
     ''  {'',
     ''    return impl_get_sandboxed_pointer<void*>(ptr);'',
     ''  }'',
     '''',
     ''  void set_interspec_runtime(void* context,'',
     ''                             ::interspec_wasm_alloc_fn allocate,'',
     ''                             ::interspec_wasm_release_fn release,'',
     ''                             ::interspec_wasm_size_fn size,'',
     ''                             ::interspec_wasm_reallocate_fn reallocate)'',
     ''  {'',
     ''    sandbox_memory_env.interspec_context = context;'',
     ''    sandbox_memory_env.interspec_allocate = allocate;'',
     ''    sandbox_memory_env.interspec_release = release;'',
     ''    sandbox_memory_env.interspec_size = size;'',
     ''    sandbox_memory_env.interspec_reallocate = reallocate;'',
     ''  }'',
     '''',
     ''private:''])\<close>

section \<open>The script\<close>

definition apply_wasm2c_backend ::
    "(string \<Rightarrow> string option) \<Rightarrow> manifest \<Rightarrow> string \<Rightarrow> files \<Rightarrow> patch_error option \<times> files" where
  "apply_wasm2c_backend git manifest root fs =
     (case res_bind (manifest_commit manifest ''rlbox_wasm2c_sandbox'') (require_head git root) of
        Inl e \<Rightarrow> (Some e, fs)
      | Inr _ \<Rightarrow>
     (case manifest_commit manifest ''rlbox'' of
        Inl e \<Rightarrow> (Some e, fs)
      | Inr rlbox \<Rightarrow>
     (case patch_files (below root [rlbox_pin rlbox]) fs of
        (Some e, fs1) \<Rightarrow> (Some e, fs1)
      | (None, fs1) \<Rightarrow>
     (case manifest_commit manifest ''wabt'' of
        Inl e \<Rightarrow> (Some e, fs1)
      | Inr wabt \<Rightarrow> patch_files (below root [wabt_pin wabt, mem_header_patch, wasm2c_header_patch]) fs1))))"

definition wasm2c_patches :: "string \<Rightarrow> string \<Rightarrow> (string \<times> string \<times> string) list" where
  "wasm2c_patches rlbox wabt = [rlbox_pin rlbox, wabt_pin wabt, mem_header_patch, wasm2c_header_patch]"

text \<open>The manifest of the repository.\<close>

definition wasm2c_manifest :: manifest where
  "wasm2c_manifest = map_of
     [(''rlbox_wasm2c_sandbox'', ''c4f18c48cea47421617f72ba5edc95c68aa85671''),
      (''rlbox'', ''b0157dc84f86ffbe4549e32ed5cbdfad79c17f43''),
      (''wabt'', ''974221b1ef82f6393d004e5da6116f2ad3e44005'')]"

section \<open>The patches do not disturb each other\<close>

definition is_commit :: "string \<Rightarrow> bool" where
  "is_commit c \<longleftrightarrow> list_all (\<lambda>x. is_digit x \<or> 97 \<le> code_point x \<and> code_point x \<le> 102) c"

lemma commit_free: "is_commit c \<Longrightarrow> CHR ''F'' \<notin> set c"
  by (auto simp: is_commit_def list_all_iff is_digit_def code_point_def)

lemma pins_apart:
  assumes "is_commit rlbox"
  shows "spares (fst (snd (wabt_pin wabt))) (snd (snd (rlbox_pin rlbox)))"
proof -
  have "starts_outside (CHR ''F'' # v) (''  GIT_TAG '' @ rlbox @ '')'')" for v
    using commit_free [OF assms] by (intro starts_outside_free) simp
  then have "lines_apart (''FetchContent_Declare('' @ LF # ''  wasm2c_compiler'')
      [''  GIT_REPOSITORY https://github.com/PLSysSec/rlbox.git'', ''  GIT_TAG '' @ rlbox @ '')'']"
    by simp (code_simp)
  moreover have "lines_apart (''FetchContent_Declare('' @ LF # ''  rlbox'')
      [''  GIT_REPOSITORY https://github.com/WebAssembly/wabt/'', ''  GIT_TAG main)'']" by code_simp
  moreover have "starts_outside (''FetchContent_Declare('' @ LF # ''  rlbox'')
      (''FetchContent_Declare('' @ LF # ''  wasm2c_compiler'' @ [LF])" by code_simp
  moreover have "starts_outside (''FetchContent_Declare('' @ LF # ''  wasm2c_compiler'')
      (''FetchContent_Declare('' @ LF # ''  rlbox'' @ [LF])" by code_simp
  ultimately show ?thesis unfolding spares_def rlbox_pin_def wabt_pin_def fst_conv snd_conv
    by (intro conjI lines_apart_two)
qed

lemma wasm2c_independent:
  assumes "is_commit rlbox" shows "independent (wasm2c_patches rlbox wabt)"
proof -
  have "fst (snd p) \<noteq> []" if "p \<in> {rlbox_pin rlbox, wabt_pin wabt, mem_header_patch, wasm2c_header_patch}" for p
    using that by (auto simp: rlbox_pin_def wabt_pin_def mem_header_patch_def wasm2c_header_patch_def)
  moreover have "fst (rlbox_pin rlbox) = ''CMakeLists.txt''" "fst (wabt_pin wabt) = ''CMakeLists.txt''"
    "fst mem_header_patch = ''include/wasm2c_rt_mem.h''" "fst wasm2c_header_patch = ''include/rlbox_wasm2c_sandbox.hpp''"
    by (simp_all add: rlbox_pin_def wabt_pin_def mem_header_patch_def wasm2c_header_patch_def)
  ultimately show ?thesis using pins_apart [OF assms, of wabt]
    by (simp add: wasm2c_patches_def independent_def case_prod_unfold)
qed

section \<open>Properties\<close>

lemma apply_wasm2c_ok:
  "apply_wasm2c_backend git manifest root fs = (None, fs') \<longleftrightarrow>
     (\<exists>u. res_bind (manifest_commit manifest ''rlbox_wasm2c_sandbox'') (require_head git root) = Inr u) \<and>
     (\<exists>rlbox wabt. manifest ''rlbox'' = Some rlbox \<and> manifest ''wabt'' = Some wabt \<and>
        patch_files (below root (wasm2c_patches rlbox wabt)) fs = (None, fs'))"
proof -
  have split: "below root (wasm2c_patches rlbox wabt) =
      below root [rlbox_pin rlbox] @ below root [wabt_pin wabt, mem_header_patch, wasm2c_header_patch]" for rlbox wabt
    by (simp add: below_def wasm2c_patches_def)
  show ?thesis unfolding split patch_files_append
    by (auto simp: apply_wasm2c_backend_def manifest_commit_def simp del: patch_files.simps
        split: sum.splits option.splits prod.splits)
qed

text \<open>
  Property C27. Applying the wasm2c backend twice is applying it once: if the script succeeds
  with hexadecimal revisions in the manifest, every patch is in its file, no other file has
  changed, and running it again succeeds and changes nothing.
\<close>

theorem wasm2c_backend_again:
  assumes "apply_wasm2c_backend git manifest root fs = (None, fs')"
    and "manifest ''rlbox'' = Some rlbox" and "manifest ''wabt'' = Some wabt" and "is_commit rlbox"
  shows "all_applied (below root (wasm2c_patches rlbox wabt)) fs' \<and>
    apply_wasm2c_backend git manifest root fs' = (None, fs') \<and>
    {p. fs' p \<noteq> fs p} \<subseteq> fst ` set (below root (wasm2c_patches rlbox wabt))"
proof -
  have run: "patch_files (below root (wasm2c_patches rlbox wabt)) fs = (None, fs')"
    and heads: "\<exists>u. res_bind (manifest_commit manifest ''rlbox_wasm2c_sandbox'') (require_head git root) = Inr u"
    using assms by (auto simp: apply_wasm2c_ok)
  have applied: "all_applied (below root (wasm2c_patches rlbox wabt)) fs'"
    by (rule patch_files_applied [OF independent_below [OF wasm2c_independent [OF assms(4)]] run])
  then have "apply_wasm2c_backend git manifest root fs' = (None, fs')"
    using heads patch_files_again [OF applied] assms(2,3) by (simp add: apply_wasm2c_ok)
  then show ?thesis using applied patch_files_frame [OF run] by auto
qed

text \<open>A checkout as it is fetched: the four patched texts, unpatched.\<close>

definition wasm2c_git :: "string \<Rightarrow> string option" where
  "wasm2c_git = map_of [(''r'', ''c4f18c48cea47421617f72ba5edc95c68aa85671'' @ [LF])]"

definition wasm2c_tree :: files where
  "wasm2c_tree = map_of
     [(''r/CMakeLists.txt'', fst (snd (rlbox_pin [])) @ [LF] @ fst (snd (wabt_pin []))),
      (''r/include/wasm2c_rt_mem.h'', fst (snd mem_header_patch)),
      (''r/include/rlbox_wasm2c_sandbox.hpp'', fst (snd wasm2c_header_patch))]"

lemma wasm2c_tree_run: "fst (apply_wasm2c_backend wasm2c_git wasm2c_manifest ''r'' wasm2c_tree) = None"
  by code_simp

lemma wasm2c_manifest_commits:
  "wasm2c_manifest ''rlbox'' = Some ''b0157dc84f86ffbe4549e32ed5cbdfad79c17f43''"
  "wasm2c_manifest ''wabt'' = Some ''974221b1ef82f6393d004e5da6116f2ad3e44005''"
  "is_commit ''b0157dc84f86ffbe4549e32ed5cbdfad79c17f43''"
  by code_simp+

theorem wasm2c_backend_again_witness:
  "\<exists>fs. apply_wasm2c_backend wasm2c_git wasm2c_manifest ''r'' wasm2c_tree = (None, fs) \<and>
     apply_wasm2c_backend wasm2c_git wasm2c_manifest ''r'' fs = (None, fs)"
proof -
  obtain fs where "apply_wasm2c_backend wasm2c_git wasm2c_manifest ''r'' wasm2c_tree = (None, fs)"
    using wasm2c_tree_run by (metis prod.collapse)
  from this wasm2c_backend_again [OF this wasm2c_manifest_commits] show ?thesis by blast
qed

text \<open>
  The wasm2c script touches only its three files, and only in a checkout whose
  revision is that of the manifest; otherwise it fails before it writes anything.
\<close>

lemma wasm2c_backend_frame:
  assumes "apply_wasm2c_backend git manifest root fs = (r, fs')"
  shows "{p. fs' p \<noteq> fs p} \<subseteq> fst ` set (below root (wasm2c_patches [] [])) \<and>
    (fs' = fs \<and> r \<noteq> None \<or>
     manifest ''rlbox_wasm2c_sandbox'' = map_option py_strip (git root) \<and> git root \<noteq> None)"
proof (cases "res_bind (manifest_commit manifest ''rlbox_wasm2c_sandbox'') (require_head git root)")
  case (Inl e)
  then show ?thesis using assms by (auto simp: apply_wasm2c_backend_def)
next
  case (Inr u)
  let ?rest = "\<lambda>wabt. [wabt_pin wabt, mem_header_patch, wasm2c_header_patch]"
  have paths: "fst ` set (below root [rlbox_pin rlbox]) \<subseteq> fst ` set (below root (wasm2c_patches [] []))"
    "fst ` set (below root (?rest wabt)) \<subseteq> fst ` set (below root (wasm2c_patches [] []))" for rlbox wabt
    by (simp_all add: below_def wasm2c_patches_def rlbox_pin_def wabt_pin_def mem_header_patch_def
        wasm2c_header_patch_def del: py_join.simps)
  have "{p. fs' p \<noteq> fs p} \<subseteq> fst ` set (below root (wasm2c_patches [] []))"
  proof (cases "manifest_commit manifest ''rlbox''")
    case (Inl e)
    then show ?thesis using Inr assms by (auto simp: apply_wasm2c_backend_def)
  next
    case (Inr rlbox)
    obtain e fs1 where run1: "patch_files (below root [rlbox_pin rlbox]) fs = (e, fs1)" by fastforce
    then have fs1: "{p. fs1 p \<noteq> fs p} \<subseteq> fst ` set (below root (wasm2c_patches [] []))"
      using patch_files_frame paths(1) by blast
    consider "fs' = fs1" | wabt where "patch_files (below root (?rest wabt)) fs1 = (r, fs')"
      using assms Inr run1 \<open>res_bind _ _ = Inr u\<close> unfolding apply_wasm2c_backend_def
      by (cases e; cases "manifest_commit manifest ''wabt''") (auto simp del: patch_files.simps)
    then show ?thesis
    proof cases
      case 2
      then have "{p. fs' p \<noteq> fs1 p} \<subseteq> fst ` set (below root (wasm2c_patches [] []))"
        using patch_files_frame paths(2) by blast
      moreover have "{p. fs' p \<noteq> fs p} \<subseteq> {p. fs' p \<noteq> fs1 p} \<union> {p. fs1 p \<noteq> fs p}" by auto
      ultimately show ?thesis using fs1 by blast
    qed (use fs1 in simp)
  qed
  moreover have "manifest ''rlbox_wasm2c_sandbox'' = map_option py_strip (git root) \<and> git root \<noteq> None"
    using Inr by (auto simp: res_bind_Inr manifest_commit_def require_head_def Let_def split: option.splits if_splits)
  ultimately show ?thesis by blast
qed

end
