(* ===== verification/PyFloat.thy ===== *)
theory PyFloat
  imports Complex_Main "HOL-Library.Multiset"
begin

text \<open>
  Python floats as rational numbers.  Every operation returns the exact result rounded to 53
  significant bits, ties to even.  The exponent range is unbounded here, so overflow,
  subnormal numbers, infinities and NaN are outside the model; the tools that use this divide
  and average timings.
\<close>

section \<open>Rounding\<close>

fun bit_count :: "nat \<Rightarrow> nat" where
  "bit_count n = (if n = 0 then 0 else Suc (bit_count (n div 2)))"

declare bit_count.simps [simp del]

text \<open>The exponent of a positive number: \<open>2 ^ e \<le> q < 2 ^ (e + 1)\<close>.\<close>

definition exponent :: "rat \<Rightarrow> int" where
  "exponent q = (let (n, d) = quotient_of q; e = int (bit_count (nat n)) - int (bit_count (nat d))
     in if 2 powi e \<le> q then e else e - 1)"

definition round_half_even :: "rat \<Rightarrow> int" where
  "round_half_even q = (let n = \<lfloor>q\<rfloor>; r = q - of_int n in
     if r < 1 / 2 then n else if r > 1 / 2 then n + 1 else if even n then n else n + 1)"

definition round_positive :: "rat \<Rightarrow> rat" where
  "round_positive q = (let u = 2 powi (exponent q - 52) in of_int (round_half_even (q / u)) * u)"

definition fl :: "rat \<Rightarrow> rat" where
  "fl q = (if q = 0 then 0 else if q < 0 then - round_positive (- q) else round_positive q)"

text \<open>For evaluation, the number of bits on integers, whose numerals are binary.\<close>

function int_bits :: "int \<Rightarrow> nat" where
  "int_bits i = (if i \<le> 0 then 0 else Suc (int_bits (i div 2)))"
  by auto

termination
  by (relation "measure nat") auto

declare int_bits.simps [simp del]

lemma int_bits: "int_bits i = bit_count (nat i)"
proof (induction i rule: int_bits.induct)
  case (1 i)
  then show ?case
    using bit_count.simps [of "nat i"] by (auto simp: int_bits.simps [of i] bit_count.simps [of 0] nat_div_distrib)
qed

definition two_powi :: "int \<Rightarrow> rat" where
  "two_powi e = (if 0 \<le> e then of_int (2 ^ nat e) else 1 / of_int (2 ^ nat (- e)))"

lemma two_powi: "2 powi e = two_powi e"
  by (simp add: two_powi_def power_int_def field_simps)

lemma exponent_code [code]:
  "exponent q = (let (n, d) = quotient_of q; e = int (int_bits n) - int (int_bits d)
     in if two_powi e \<le> q then e else e - 1)"
  by (simp add: exponent_def int_bits two_powi)

lemma round_positive_code [code]:
  "round_positive q = (let u = two_powi (exponent q - 52) in of_int (round_half_even (q / u)) * u)"
  by (simp add: round_positive_def two_powi)

section \<open>Facts on rounding\<close>

lemma bit_count_bounds: "0 < n \<Longrightarrow> 2 ^ (bit_count n - 1) \<le> n \<and> n < 2 ^ bit_count n"
proof (induction n rule: bit_count.induct)
  case (1 n)
  show ?case
  proof (cases "n = 1")
    case True
    have "bit_count 1 = 1" by (simp add: bit_count.simps)
    then show ?thesis using True by simp
  next
    case False
    then have "0 < n div 2" "n \<noteq> 0" using 1(2) by simp_all
    then have IH: "2 ^ (bit_count (n div 2) - 1) \<le> n div 2" "n div 2 < 2 ^ bit_count (n div 2)"
      and pos: "bit_count (n div 2) \<noteq> 0"
      using 1(1) by (auto simp: bit_count.simps [of "n div 2"])
    have "bit_count n = Suc (bit_count (n div 2))" using \<open>n \<noteq> 0\<close> by (simp add: bit_count.simps [of n])
    moreover have "2 * 2 ^ (bit_count (n div 2) - 1) = (2 :: nat) ^ bit_count (n div 2)"
      using pos by (cases "bit_count (n div 2)") simp_all
    moreover have "2 * (n div 2) \<le> n" "n < 2 * (n div 2) + 2" by linarith+
    ultimately show ?thesis using IH by (simp only: diff_Suc_1 power_Suc) linarith
  qed
qed

lemma powi_two_pos [simp]: "(0 :: rat) < 2 powi e"
  by simp

lemma powi_two_Suc: "(2 :: rat) powi (e + 1) = 2 * 2 powi e"
  by (simp add: power_int_add)

lemma powi_two_mono: "d \<le> e \<Longrightarrow> (2 :: rat) powi d \<le> 2 powi e"
  by (simp add: power_int_increasing)

lemma powi_two_add: "(2 :: rat) powi a * 2 powi b = 2 powi (a + b)"
  by (simp add: power_int_add)

lemma exponent_bounds:
  assumes "0 < q" shows "2 powi exponent q \<le> q" and "q < 2 powi (exponent q + 1)"
proof -
  obtain n d where nd: "quotient_of q = (n, d)" by fastforce
  have d: "0 < d" and q: "q = of_int n / of_int d"
    using quotient_of_denom_pos [OF nd] quotient_of_div [OF nd] by simp_all
  then have n: "0 < n" using assms by (simp add: zero_less_divide_iff)
  let ?a = "bit_count (nat n)" and ?b = "bit_count (nat d)"
  have nb: "2 ^ (?a - 1) \<le> nat n" "nat n < 2 ^ ?a" and db: "2 ^ (?b - 1) \<le> nat d" "nat d < 2 ^ ?b"
    using bit_count_bounds [of "nat n"] bit_count_bounds [of "nat d"] n d by simp_all
  have pos: "0 < ?a" "0 < ?b" using n d by (auto simp: bit_count.simps [of "nat n"] bit_count.simps [of "nat d"])
  have N: "2 powi (int ?a - 1) \<le> (of_int n :: rat)" "(of_int n :: rat) < 2 powi int ?a"
  proof -
    have "(2 :: rat) powi (int ?a - 1) = 2 ^ (?a - 1)"
      using pos power_int_of_nat [of "2 :: rat" "?a - 1"] by (simp add: of_nat_diff)
    also have "\<dots> \<le> of_nat (nat n)" using nb(1) by (metis of_nat_le_iff of_nat_numeral of_nat_power)
    finally show "2 powi (int ?a - 1) \<le> (of_int n :: rat)" using n by simp
    have "(of_nat (nat n) :: rat) < 2 ^ ?a" using nb(2) by (metis of_nat_less_iff of_nat_numeral of_nat_power)
    then show "(of_int n :: rat) < 2 powi int ?a" using n by simp
  qed
  have D: "2 powi (int ?b - 1) \<le> (of_int d :: rat)" "(of_int d :: rat) < 2 powi int ?b"
  proof -
    have "(2 :: rat) powi (int ?b - 1) = 2 ^ (?b - 1)"
      using pos power_int_of_nat [of "2 :: rat" "?b - 1"] by (simp add: of_nat_diff)
    also have "\<dots> \<le> of_nat (nat d)" using db(1) by (metis of_nat_le_iff of_nat_numeral of_nat_power)
    finally show "2 powi (int ?b - 1) \<le> (of_int d :: rat)" using d by simp
    have "(of_nat (nat d) :: rat) < 2 ^ ?b" using db(2) by (metis of_nat_less_iff of_nat_numeral of_nat_power)
    then show "(of_int d :: rat) < 2 powi int ?b" using d by simp
  qed
  let ?e = "int ?a - int ?b"
  have dpos: "0 < (of_int d :: rat)" using d by simp
  have "2 powi (?e - 1) * of_int d < 2 powi (?e - 1) * (2 powi int ?b :: rat)"
    using D(2) by (intro mult_strict_left_mono) simp_all
  also have "\<dots> = 2 powi (int ?a - 1)" unfolding powi_two_add by (rule arg_cong [of _ _ "power_int 2"]) simp
  also have "\<dots> \<le> of_int n" by (rule N)
  finally have low: "2 powi (?e - 1) \<le> q" unfolding q using dpos by (simp add: pos_le_divide_eq)
  have "of_int n < (2 :: rat) powi int ?a" by (rule N)
  also have "\<dots> = 2 powi (?e + 1) * 2 powi (int ?b - 1)" unfolding powi_two_add by (rule arg_cong [of _ _ "power_int 2"]) simp
  also have "\<dots> \<le> 2 powi (?e + 1) * of_int d" using D(1) by (intro mult_left_mono) simp_all
  finally have high: "q < 2 powi (?e + 1)" unfolding q using dpos by (simp add: pos_divide_less_eq)
  show "2 powi exponent q \<le> q" "q < 2 powi (exponent q + 1)"
    using low high by (simp_all add: exponent_def nd Let_def)
qed

lemma exponent_unique:
  assumes "2 powi e \<le> q" and "q < 2 powi (e + 1)" shows "exponent q = e"
proof -
  have "0 < q" using assms(1) powi_two_pos less_le_trans by blast
  note b = exponent_bounds [OF this]
  have "\<not> exponent q + 1 \<le> e" using powi_two_mono [of "exponent q + 1" e] b assms by linarith
  moreover have "\<not> e + 1 \<le> exponent q" using powi_two_mono [of "e + 1" "exponent q"] b assms by linarith
  ultimately show ?thesis by linarith
qed

lemma exponent_mono: "0 < q \<Longrightarrow> q \<le> r \<Longrightarrow> exponent q \<le> exponent r"
proof (rule ccontr)
  assume q: "0 < q" "q \<le> r" and "\<not> exponent q \<le> exponent r"
  then have "2 powi (exponent r + 1) \<le> (2 :: rat) powi exponent q" by (intro powi_two_mono) simp
  then show False using exponent_bounds(1) [OF q(1)] exponent_bounds(2) [of r] q by linarith
qed

lemma round_half_even_int [simp]: "round_half_even (of_int n) = n"
  by (simp add: round_half_even_def Let_def)

lemma round_half_even_mono: "q \<le> r \<Longrightarrow> round_half_even q \<le> round_half_even r"
proof -
  assume qr: "q \<le> r"
  have near: "\<lfloor>x\<rfloor> \<le> round_half_even x \<and> round_half_even x \<le> \<lfloor>x\<rfloor> + 1" for x
    by (simp add: round_half_even_def Let_def)
  have "\<lfloor>q\<rfloor> \<le> \<lfloor>r\<rfloor>" using qr by (rule floor_mono)
  then consider "\<lfloor>q\<rfloor> = \<lfloor>r\<rfloor>" | "\<lfloor>q\<rfloor> + 1 \<le> \<lfloor>r\<rfloor>" by linarith
  then show ?thesis
  proof cases
    case 1
    then show ?thesis using qr by (auto simp: round_half_even_def Let_def)
  next
    case 2
    then show ?thesis using near [of q] near [of r] by linarith
  qed
qed

lemma exponent_scaled:
  "(2 :: rat) powi exponent q = of_int (2 ^ 52) * 2 powi (exponent q - 52)"
  "(2 :: rat) powi (exponent q + 1) = of_int (2 ^ 53) * 2 powi (exponent q - 52)"
  using power_int_add [of "2 :: rat" 52 "exponent q - 52"] power_int_add [of "2 :: rat" 53 "exponent q - 52"]
  by (simp_all add: add.commute)

lemma significand:
  assumes "0 < q"
  shows "2 ^ 52 \<le> round_half_even (q / 2 powi (exponent q - 52))"
    and "round_half_even (q / 2 powi (exponent q - 52)) \<le> 2 ^ 53"
proof -
  let ?u = "2 powi (exponent q - 52) :: rat"
  have "of_int (2 ^ 52) \<le> q / ?u" "q / ?u \<le> of_int (2 ^ 53)"
    using exponent_bounds [OF assms] unfolding exponent_scaled [of q] by (simp_all add: pos_le_divide_eq pos_divide_le_eq)
  from round_half_even_mono [OF this(1)] round_half_even_mono [OF this(2)]
  show "2 ^ 52 \<le> round_half_even (q / ?u)" "round_half_even (q / ?u) \<le> 2 ^ 53"
    by (simp_all only: round_half_even_int)
qed

lemma round_positive_bounds:
  assumes "0 < q" shows "2 powi exponent q \<le> round_positive q" and "round_positive q \<le> 2 powi (exponent q + 1)"
proof -
  show "2 powi exponent q \<le> round_positive q" "round_positive q \<le> 2 powi (exponent q + 1)"
    unfolding exponent_scaled round_positive_def Let_def using significand [OF assms]
    by (intro mult_right_mono; simp only: of_int_le_iff powi_two_pos less_imp_le)+
qed

lemma round_positive_pos: "0 < q \<Longrightarrow> 0 < round_positive q"
  using round_positive_bounds(1) [of q] powi_two_pos [of "exponent q"] by linarith

lemma round_positive_mono:
  assumes "0 < q" and "q \<le> r" shows "round_positive q \<le> round_positive r"
proof (cases "exponent q = exponent r")
  case True
  let ?u = "2 powi (exponent r - 52) :: rat"
  have "q / ?u \<le> r / ?u" using assms(2) by (intro divide_right_mono) simp_all
  from round_half_even_mono [OF this] show ?thesis
    unfolding round_positive_def Let_def True by (intro mult_right_mono) simp_all
next
  case False
  then have "exponent q + 1 \<le> exponent r" using exponent_mono [OF assms] by simp
  from powi_two_mono [OF this] show ?thesis
    using round_positive_bounds(2) [OF assms(1)] round_positive_bounds(1) [of r] assms by linarith
qed

lemma fl_mono: "q \<le> r \<Longrightarrow> fl q \<le> fl r"
proof -
  assume qr: "q \<le> r"
  consider "0 < q" | "q \<le> 0" "0 \<le> r" | "r < 0" by linarith
  then show ?thesis
  proof cases
    case 1
    then show ?thesis using qr round_positive_mono [of q r] by (simp add: fl_def)
  next
    case 2
    have "fl q \<le> 0" using 2 round_positive_pos [of "- q"] by (auto simp: fl_def)
    moreover have "0 \<le> fl r" using 2 round_positive_pos [of r] by (auto simp: fl_def)
    ultimately show ?thesis by linarith
  next
    case 3
    then show ?thesis using qr round_positive_mono [of "- r" "- q"] by (simp add: fl_def)
  qed
qed

lemma fl_zero [simp]: "fl 0 = 0"
  by (simp add: fl_def)

lemma exponent_double: "0 < q \<Longrightarrow> exponent (2 * q) = exponent q + 1"
  using exponent_bounds [of q] powi_two_Suc [of "exponent q"] powi_two_Suc [of "exponent q + 1"]
  by (intro exponent_unique) linarith+

lemma fl_double: "fl (2 * q) = 2 * fl q"
proof -
  have *: "round_positive (2 * q) = 2 * round_positive q" if "0 < q" for q
  proof -
    have u: "(2 :: rat) powi (exponent (2 * q) - 52) = 2 * 2 powi (exponent q - 52)"
      using powi_two_Suc [of "exponent q - 52"] exponent_double [OF that] by (simp add: algebra_simps)
    show ?thesis unfolding round_positive_def Let_def u by simp
  qed
  show ?thesis using * [of q] * [of "- q"] by (simp add: fl_def)
qed

lemma fl_half: "fl (q / 2) = fl q / 2"
  using fl_double [of "q / 2"] by simp

text \<open>The floats are the rounded numbers.\<close>

definition is_float :: "rat \<Rightarrow> bool" where
  "is_float x \<longleftrightarrow> fl x = x"

lemma round_positive_again:
  assumes "0 < q" shows "round_positive (round_positive q) = round_positive q"
proof -
  let ?m = "round_half_even (q / 2 powi (exponent q - 52))" and ?u = "2 powi (exponent q - 52) :: rat"
  have r: "round_positive q = of_int ?m * ?u" by (simp add: round_positive_def Let_def)
  show ?thesis
  proof (cases "?m = 2 ^ 53")
    case True
    have v: "round_positive q = 2 powi (exponent q + 1)" unfolding r exponent_scaled True ..
    then have e: "exponent (round_positive q) = exponent q + 1"
      using powi_two_Suc [of "exponent q + 1"] by (intro exponent_unique) simp_all
    have "round_positive q / 2 powi (exponent q + 1 - 52) = of_int (2 ^ 52)"
      unfolding v using powi_two_add [of 52 "exponent q + 1 - 52"] by (simp add: field_simps)
    then have "round_positive (round_positive q) = of_int (2 ^ 52) * 2 powi (exponent q + 1 - 52)"
      unfolding round_positive_def [of "round_positive q"] Let_def e by (simp only: round_half_even_int)
    also have "\<dots> = 2 powi (exponent q + 1)" using powi_two_add [of 52 "exponent q + 1 - 52"] by (simp add: add.commute)
    finally show ?thesis using v by simp
  next
    case False
    then have "?m + 1 \<le> 2 ^ 53" using significand(2) [OF assms] by linarith
    then have "round_positive q < 2 powi (exponent q + 1)"
      unfolding r exponent_scaled by (intro mult_strict_right_mono) (simp_all only: of_int_less_iff powi_two_pos)
    with round_positive_bounds(1) [OF assms] have e: "exponent (round_positive q) = exponent q"
      by (rule exponent_unique)
    have "round_positive q / ?u = of_int ?m" unfolding r by simp
    then show ?thesis unfolding round_positive_def [of "round_positive q"] Let_def e
      by (simp only: round_half_even_int r)
  qed
qed

lemma is_float_fl [simp]: "is_float (fl q)"
  using round_positive_again [of q] round_positive_again [of "- q"] round_positive_pos [of q] round_positive_pos [of "- q"]
  by (auto simp: is_float_def fl_def)

section \<open>Means and medians\<close>

text \<open>\<open>math.fsum\<close>, \<open>statistics.fmean\<close> and \<open>statistics.median\<close>, whose two middle values are averaged.\<close>

definition py_fsum :: "rat list \<Rightarrow> rat" where
  "py_fsum xs = fl (sum_list (map fl xs))"

definition py_fmean :: "rat list \<Rightarrow> rat" where
  "py_fmean xs = fl (py_fsum xs / of_nat (length xs))"

definition float_average :: "rat \<Rightarrow> rat \<Rightarrow> rat" where
  "float_average a b = fl (fl (a + b) / 2)"

definition py_median :: "rat list \<Rightarrow> rat" where
  "py_median xs = (let s = sort xs; n = length xs in
     if odd n then s ! (n div 2) else float_average (s ! (n div 2 - 1)) (s ! (n div 2)))"

lemma float_average_between:
  assumes "a \<le> b" and "is_float a" and "is_float b"
  shows "a \<le> float_average a b" and "float_average a b \<le> b"
proof -
  have "fl (2 * a) \<le> fl (a + b)" "fl (a + b) \<le> fl (2 * b)" using assms(1) by (intro fl_mono; simp)+
  then have "a \<le> fl (a + b) / 2" "fl (a + b) / 2 \<le> b" using assms(2,3) by (simp_all add: fl_double is_float_def)
  from fl_mono [OF this(1)] fl_mono [OF this(2)]
  show "a \<le> float_average a b" and "float_average a b \<le> b"
    using assms(2,3) by (simp_all add: is_float_def float_average_def)
qed

lemma py_median_between:
  assumes "xs \<noteq> []" and "\<forall>x \<in> set xs. is_float x"
  shows "Min (set xs) \<le> py_median xs" and "py_median xs \<le> Max (set xs)"
proof -
  let ?s = "sort xs" and ?n = "length xs"
  have n: "0 < ?n" "?n div 2 < ?n" using assms(1) by (auto simp: div_less_dividend)
  have mem: "Min (set xs) \<le> ?s ! k \<and> ?s ! k \<le> Max (set xs) \<and> is_float (?s ! k)" if "k < ?n" for k
  proof -
    have "?s ! k \<in> set xs" using that by (metis length_sort nth_mem set_sort)
    then show ?thesis using assms(2) by simp
  qed
  have "Min (set xs) \<le> py_median xs \<and> py_median xs \<le> Max (set xs)"
  proof (cases "odd ?n")
    case True
    then show ?thesis using mem [OF n(2)] by (simp add: py_median_def Let_def)
  next
    case False
    let ?a = "?s ! (?n div 2 - 1)" and ?b = "?s ! (?n div 2)"
    have "?n div 2 - 1 < ?n" using n by linarith
    note a = mem [OF this] and b = mem [OF n(2)]
    have "?a \<le> ?b" using n(2) by (intro sorted_nth_mono) simp_all
    with float_average_between [of ?a ?b] a b False show ?thesis
      by (auto simp: py_median_def Let_def)
  qed
  then show "Min (set xs) \<le> py_median xs" and "py_median xs \<le> Max (set xs)" by blast+
qed

text \<open>All of them depend on the multiset of their data only.\<close>

lemma py_fmean_perm: "mset xs = mset ys \<Longrightarrow> py_fmean xs = py_fmean ys"
proof -
  assume m: "mset xs = mset ys"
  then have "sum_list (map fl xs) = sum_list (map fl ys)" by (metis mset_map sum_mset_sum_list)
  moreover have "length xs = length ys" using m by (rule mset_eq_length)
  ultimately show ?thesis by (simp add: py_fmean_def py_fsum_def)
qed

lemma py_median_perm: "mset xs = mset ys \<Longrightarrow> py_median xs = py_median ys"
proof -
  assume m: "mset xs = mset ys"
  then have "sort xs = sort ys" by (intro properties_for_sort) simp_all
  then show ?thesis using mset_eq_length [OF m] by (simp add: py_median_def Let_def)
qed

end
