(* ===== verification/Summaries.thy ===== *)
theory Summaries
  imports PyFloat PyInt PolicyData "HOL-Library.Product_Lexorder"
begin

text \<open>
  The three tools that summarise timing measurements:
  \<^verbatim>\<open>tools/summarize_p8_application.py\<close>, \<^verbatim>\<open>tools/summarize_p8_performance.py\<close> and
  \<^verbatim>\<open>tools/summarize_p9a_application.py\<close>.  A sample is a measurement of one workload in one
  mode and repetition.  The tools group the samples by workload and mode, pair those of one
  repetition, and compute medians, means and relative overheads.  Rows of a CSV file are
  dictionaries from column to field; a summary row is a dictionary from column to cell.
\<close>

datatype summary_error =
    Unexpected_csv
  | Missing_column string
  | Bad_number string
  | Unknown_mode string
  | Duplicate_sample string int
  | Missing_mode string
  | Incomplete_group string
  | Zero_division
  | Non_positive_sample
  | No_complete_group string
  | Duplicate_repetitions string

datatype cell = Text string | Count nat | Flt rat

type_synonym summary_row = "(string \<times> cell) list"

record 'v sample =
  sm_name :: string      \<comment> \<open>workload or boundary\<close>
  sm_mode :: string
  sm_repetition :: int
  sm_value :: 'v

section \<open>Reading\<close>

definition column :: "(string \<times> string) list \<Rightarrow> string \<Rightarrow> summary_error + string" where
  "column row name = (case map_of row name of None \<Rightarrow> Inl (Missing_column name) | Some v \<Rightarrow> Inr v)"

definition int_column :: "(string \<times> string) list \<Rightarrow> string \<Rightarrow> summary_error + int" where
  "int_column row name =
     res_bind (column row name) (\<lambda>s. case py_int s of None \<Rightarrow> Inl (Bad_number s) | Some i \<Rightarrow> Inr i)"

text \<open>\<open>load\<close> of the two application tools, from the rows of \<open>csv.DictReader\<close>.\<close>

definition load_application :: "(string \<times> string) list list \<Rightarrow> summary_error + int sample list" where
  "load_application rows =
     (if rows = [] \<or> fst ` set (hd rows) \<noteq> {''workload'', ''mode'', ''repetition'', ''total_ns''}
      then Inl Unexpected_csv
      else res_map (\<lambda>row.
        res_bind (column row ''workload'') (\<lambda>workload.
        res_bind (column row ''mode'') (\<lambda>mode.
        res_bind (int_column row ''repetition'') (\<lambda>repetition.
        res_bind (int_column row ''total_ns'') (\<lambda>total_ns.
        Inr \<lparr>sm_name = workload, sm_mode = mode, sm_repetition = repetition, sm_value = total_ns\<rparr>))))) rows)"

text \<open>The P9a tool has a copy of it.\<close>

definition load_p9a :: "(string \<times> string) list list \<Rightarrow> summary_error + int sample list" where
  "load_p9a rows = load_application rows"

section \<open>Grouping\<close>

text \<open>The dictionaries of the first loop: values by workload and mode, and groups by workload
  and repetition.  \<open>defaultdict\<close> supplies the empty list or dictionary.\<close>

type_synonym 'v groups = "((string \<times> string) \<times> 'v list) list \<times> ((string \<times> int) \<times> (string \<times> 'v) list) list"

definition dict_default :: "('k \<times> 'v list) list \<Rightarrow> 'k \<Rightarrow> 'v list" where
  "dict_default d k = (case map_of d k of None \<Rightarrow> [] | Some v \<Rightarrow> v)"

definition add_sample :: "string list \<Rightarrow> 'v sample \<Rightarrow> 'v groups \<Rightarrow> summary_error + 'v groups" where
  "add_sample modes s = (\<lambda>(by_mode, groups).
     if sm_mode s \<notin> set modes then Inl (Unknown_mode (sm_mode s))
     else
       (let mkey = (sm_name s, sm_mode s);
            by_mode' = dict_set mkey (dict_default by_mode mkey @ [sm_value s]) by_mode;
            key = (sm_name s, sm_repetition s);
            entry = dict_default groups key
        in if map_of entry (sm_mode s) \<noteq> None then Inl (Duplicate_sample (sm_name s) (sm_repetition s))
           else Inr (by_mode', dict_set key (dict_set (sm_mode s) (sm_value s) entry) groups)))"

definition collect_samples :: "string list \<Rightarrow> 'v sample list \<Rightarrow> summary_error + 'v groups" where
  "collect_samples modes samples = res_fold (add_sample modes) samples ([], [])"

text \<open>\<open>sorted({sample[...] for sample in samples})\<close>\<close>

definition sample_names :: "'v sample list \<Rightarrow> string list" where
  "sample_names samples = sort (remdups (map sm_name samples))"

text \<open>Whether a group has a value for every mode, \<open>set(values) == MODES\<close>.\<close>

definition complete_group :: "string list \<Rightarrow> (string \<times> 'v) list \<Rightarrow> bool" where
  "complete_group modes values \<longleftrightarrow> fst ` set values = set modes"

definition group_value :: "(string \<times> 'v) list \<Rightarrow> string \<Rightarrow> 'v" where
  "group_value values mode = the (map_of values mode)"

section \<open>Floats of integers\<close>

text \<open>\<open>statistics.median\<close> of integers is an integer, or the float half of a sum, and is divided
  by \<open>1e6\<close>; \<open>statistics.fmean\<close> converts the integers.\<close>

definition median_ms :: "int list \<Rightarrow> rat" where
  "median_ms xs = (let s = sort xs; n = length xs;
       m = (if odd n then of_int (s ! (n div 2)) else of_int (s ! (n div 2 - 1) + s ! (n div 2)) / 2)
     in fl (fl m / 1000000))"

definition mean_ms :: "int list \<Rightarrow> rat" where
  "mean_ms xs = fl (py_fmean (map of_int xs) / 1000000)"

text \<open>\<open>(numerator / denominator - 1.0) * 100.0\<close>\<close>

definition overhead_pct :: "rat \<Rightarrow> rat \<Rightarrow> rat" where
  "overhead_pct numerator denominator = fl (fl (fl (numerator / denominator) - 1) * 100)"

text \<open>The four columns of a list of overheads.\<close>

definition overhead_cells :: "string \<Rightarrow> rat list \<Rightarrow> summary_row" where
  "overhead_cells p values =
     [(p @ ''_median_pct'', Flt (py_median values)), (p @ ''_mean_pct'', Flt (py_fmean values)),
      (p @ ''_min_pct'', Flt (Min (set values))), (p @ ''_max_pct'', Flt (Max (set values)))]"

section \<open>The pairs of P8\<close>

definition p8_modes :: "string list" where
  "p8_modes = [''tracked_no_check'', ''extended_sp3'']"

definition pair_overhead :: "string \<Rightarrow> ('v \<Rightarrow> rat) \<Rightarrow> (string \<times> 'v) list \<Rightarrow> summary_error + rat" where
  "pair_overhead name num values =
     (if \<not> complete_group p8_modes values then Inl (Incomplete_group name)
      else let extended = num (group_value values ''extended_sp3''); baseline = num (group_value values ''tracked_no_check'')
      in if baseline = 0 then Inl Zero_division else Inr (overhead_pct extended baseline))"

text \<open>The loop over the groups of one workload, in their insertion order.\<close>

definition groups_of :: "string \<Rightarrow> ((string \<times> int) \<times> (string \<times> 'v) list) list \<Rightarrow> (int \<times> (string \<times> 'v) list) list" where
  "groups_of name groups = map (\<lambda>((_, r), values). (r, values)) (filter (\<lambda>((n, _), _). n = name) groups)"

definition p8_application_row :: "int groups \<Rightarrow> string \<Rightarrow> summary_error + summary_row" where
  "p8_application_row = (\<lambda>(by_mode, pairs) workload.
     let baseline = dict_default by_mode (workload, ''tracked_no_check'');
         extended = dict_default by_mode (workload, ''extended_sp3'')
     in if baseline = [] \<or> extended = [] then Inl (Missing_mode workload)
        else res_bind (res_map (\<lambda>(_, values). pair_overhead workload of_int values) (groups_of workload pairs)) (\<lambda>overheads.
          Inr ([(''workload'', Text workload), (''repetitions'', Count (length overheads)),
                (''baseline_median_ms'', Flt (median_ms baseline)), (''extended_median_ms'', Flt (median_ms extended)),
                (''baseline_mean_ms'', Flt (mean_ms baseline)), (''extended_mean_ms'', Flt (mean_ms extended))] @
               overhead_cells ''paired_overhead'' overheads)))"

definition p8_application :: "int sample list \<Rightarrow> summary_error + summary_row list" where
  "p8_application samples =
     res_bind (collect_samples p8_modes samples) (\<lambda>groups.
     res_map (p8_application_row groups) (sample_names samples))"

text \<open>The performance tool works on floats (\<open>ns_per_op\<close>), and reports nanoseconds.\<close>

definition p8_performance_row :: "rat groups \<Rightarrow> string \<Rightarrow> summary_error + summary_row" where
  "p8_performance_row = (\<lambda>(grouped, paired) boundary.
     let modes = snd ` fst ` {g \<in> set grouped. fst (fst g) = boundary};
         baseline_values = dict_default grouped (boundary, ''tracked_no_check'');
         extended_values = dict_default grouped (boundary, ''extended_sp3'')
     in if modes \<noteq> set p8_modes then Inl (Missing_mode boundary)
        else res_bind (res_map (\<lambda>(_, values). pair_overhead boundary id values) (groups_of boundary paired)) (\<lambda>overheads.
          Inr ([(''boundary'', Text boundary), (''repetitions'', Count (length overheads)),
                (''baseline_median_ns'', Flt (py_median baseline_values)), (''extended_median_ns'', Flt (py_median extended_values)),
                (''baseline_mean_ns'', Flt (py_fmean baseline_values)), (''extended_mean_ns'', Flt (py_fmean extended_values))] @
               overhead_cells ''paired_overhead'' overheads)))"

definition p8_performance :: "rat sample list \<Rightarrow> summary_error + summary_row list" where
  "p8_performance samples =
     res_bind (collect_samples p8_modes samples) (\<lambda>groups.
     res_map (p8_performance_row groups) (sample_names samples))"

section \<open>The triples of P9a\<close>

definition p9a_modes :: "string list" where
  "p9a_modes = [''rlbox_only'', ''tracked_no_check'', ''extended_sp3'']"

definition p9a_overhead :: "int \<Rightarrow> int \<Rightarrow> summary_error + rat" where
  "p9a_overhead numerator denominator =
     (if denominator \<le> 0 then Inl Non_positive_sample
      else Inr (overhead_pct (of_int numerator) (of_int denominator)))"

definition triple_overheads :: "string \<Rightarrow> (string \<times> int) list \<Rightarrow> summary_error + rat \<times> rat \<times> rat" where
  "triple_overheads workload values =
     (if \<not> complete_group p9a_modes values then Inl (Incomplete_group workload)
      else
        res_bind (p9a_overhead (group_value values ''tracked_no_check'') (group_value values ''rlbox_only'')) (\<lambda>tracking.
        res_bind (p9a_overhead (group_value values ''extended_sp3'') (group_value values ''tracked_no_check'')) (\<lambda>validation.
        res_bind (p9a_overhead (group_value values ''extended_sp3'') (group_value values ''rlbox_only'')) (\<lambda>total.
        Inr (tracking, validation, total)))))"

definition p9a_mode_cells :: "((string \<times> string) \<times> int list) list \<Rightarrow> string \<Rightarrow> summary_row" where
  "p9a_mode_cells by_mode workload =
     concat (map (\<lambda>(mode, p). let values = dict_default by_mode (workload, mode) in
         [(p @ ''_median_ms'', Flt (median_ms values)), (p @ ''_mean_ms'', Flt (mean_ms values))])
       [(''rlbox_only'', ''rlbox''), (''tracked_no_check'', ''tracked''), (''extended_sp3'', ''extended'')])"

definition p9a_row :: "int groups \<Rightarrow> string \<Rightarrow> summary_error + summary_row" where
  "p9a_row = (\<lambda>(by_mode, triples) workload.
     if \<exists>mode \<in> set p9a_modes. dict_default by_mode (workload, mode) = [] then Inl (Missing_mode workload)
     else
       (let items = groups_of workload (sort_key fst triples) in
        res_bind (res_map (\<lambda>(_, values). triple_overheads workload values) items) (\<lambda>overheads.
        let repetitions = map fst items in
        if repetitions = [] then Inl (No_complete_group workload)
        else if length (remdups repetitions) \<noteq> length repetitions then Inl (Duplicate_repetitions workload)
        else Inr ([(''workload'', Text workload), (''repetitions'', Count (length repetitions))] @
               p9a_mode_cells by_mode workload @
               overhead_cells ''tracking_overhead'' (map fst overheads) @
               overhead_cells ''validation_overhead'' (map (fst \<circ> snd) overheads) @
               overhead_cells ''total_overhead'' (map (snd \<circ> snd) overheads)))))"

definition p9a_application :: "int sample list \<Rightarrow> summary_error + summary_row list" where
  "p9a_application samples =
     res_bind (collect_samples p9a_modes samples) (\<lambda>groups.
     res_map (p9a_row groups) (sample_names samples))"

end
