(* ===== verification/PyFormat.thy ===== *)
theory PyFormat
  imports PyFloat PyInt SourceEdit
begin

text \<open>
  Text forms of Python numbers and tables: \<open>float(s)\<close>, the formats \<^verbatim>\<open>.1f\<close> to \<^verbatim>\<open>.6f\<close>, and
  \<open>csv.DictWriter\<close> with its default dialect.  A float read from text keeps its sign bit beside
  its value, because a negative zero is printed with its sign.
\<close>

section \<open>Reading floats\<close>

type_synonym signed_float = "bool \<times> rat"   \<comment> \<open>the sign bit and the value\<close>

text \<open>The digits of a float literal with single underscores between them; the result is the
  number, the count of digits and the rest.  The flag says that an underscore may not come next.\<close>

fun float_digits :: "nat \<Rightarrow> nat \<Rightarrow> bool \<Rightarrow> string \<Rightarrow> (nat \<times> nat \<times> string) option" where
  "float_digits acc k gap [] = (if gap \<and> 0 < k then None else Some (acc, k, []))"
| "float_digits acc k gap (c # cs) =
     (if is_digit c then float_digits (acc * 10 + (code_point c - 48)) (k + 1) False cs
      else if c = CHR ''_'' \<and> \<not> gap then float_digits acc k True cs
      else if gap \<and> 0 < k then None
      else Some (acc, k, c # cs))"

text \<open>The exponent of a literal, and the end of it.\<close>

definition float_exponent :: "string \<Rightarrow> int option" where
  "float_exponent s =
     (case s of
        [] \<Rightarrow> Some 0
      | c # cs \<Rightarrow>
          if c = CHR ''e'' \<or> c = CHR ''E''
          then with_sign (\<lambda>t. case float_digits 0 0 True t of
                 Some (n, k, rest) \<Rightarrow> if k = 0 \<or> rest \<noteq> [] then None else Some n
               | None \<Rightarrow> None) cs
          else None)"

definition float_magnitude :: "string \<Rightarrow> rat option" where
  "float_magnitude s =
     (case float_digits 0 0 True s of
        None \<Rightarrow> None
      | Some (whole, k, rest) \<Rightarrow>
          (case (if rest \<noteq> [] \<and> hd rest = CHR ''.'' then float_digits whole 0 True (tl rest) else Some (whole, 0, rest)) of
             None \<Rightarrow> None
           | Some (digits, places, rest') \<Rightarrow>
               if k + places = 0 then None
               else map_option (\<lambda>e. of_nat digits * 10 powi (e - int places)) (float_exponent rest')))"

text \<open>The names of infinities and NaN are not accepted by this reading.\<close>

definition py_float :: "string \<Rightarrow> signed_float option" where
  "py_float s =
     (case strip_blanks s of
        [] \<Rightarrow> None
      | c # cs \<Rightarrow>
          if c = CHR ''-'' then map_option (\<lambda>q. (True, - fl q)) (float_magnitude cs)
          else map_option (\<lambda>q. (False, fl q)) (float_magnitude (if c = CHR ''+'' then cs else c # cs)))"

text \<open>The difference of two floats; a zero is negative only for \<open>-0.0 - 0.0\<close>.\<close>

definition float_minus :: "signed_float \<Rightarrow> signed_float \<Rightarrow> signed_float" where
  "float_minus a b =
     (let d = fl (snd a - snd b)
      in (if d = 0 then snd a = 0 \<and> fst a \<and> \<not> fst b else d < 0, d))"

section \<open>Fixed-point formats\<close>

definition zero_padded :: "nat \<Rightarrow> nat \<Rightarrow> string" where
  "zero_padded width n = (let s = nat_str n in replicate (width - length s) (CHR ''0'') @ s)"

definition fixed_magnitude :: "nat \<Rightarrow> nat \<Rightarrow> string" where
  "fixed_magnitude digits n = nat_str (n div 10 ^ digits) @ ''.'' @ zero_padded digits (n mod 10 ^ digits)"

text \<open>\<open>f"{x:.{digits}f}"\<close> for positive \<open>digits\<close>: the exact decimal expansion, rounded half to even.\<close>

definition fixed_format :: "nat \<Rightarrow> signed_float \<Rightarrow> string" where
  "fixed_format digits x =
     (if fst x then ''-'' else '''') @ fixed_magnitude digits (nat (round_half_even (abs (snd x) * 10 ^ digits)))"

section \<open>CSV tables\<close>

definition csv_special :: "char \<Rightarrow> bool" where
  "csv_special c \<longleftrightarrow> c = CHR '','' \<or> c = DQ \<or> c = CR \<or> c = LF"

definition csv_field :: "string \<Rightarrow> string" where
  "csv_field s = (if list_ex csv_special s
     then [DQ] @ concat (map (\<lambda>c. if c = DQ then [DQ, DQ] else [c]) s) @ [DQ] else s)"

text \<open>A row of more than one field.\<close>

definition csv_row :: "string list \<Rightarrow> string" where
  "csv_row cols = py_join '','' (map csv_field cols) @ [CR, LF]"

text \<open>\<open>DictWriter\<close>: the header, then the rows; a key that is no field raises, a field that is
  missing is written empty.\<close>

definition dict_row :: "string list \<Rightarrow> (string \<times> string) list \<Rightarrow> string list + string" where
  "dict_row cols row =
     (let extra = filter (\<lambda>k. k \<notin> set cols) (map fst row)
      in if extra \<noteq> [] then Inl extra
         else Inr (csv_row (map (\<lambda>f. case map_of row f of None \<Rightarrow> '''' | Some v \<Rightarrow> v) cols)))"

definition dict_table :: "string list \<Rightarrow> (string \<times> string) list list \<Rightarrow> string list + string" where
  "dict_table cols rows =
     res_bind (res_map (dict_row cols) rows) (\<lambda>ls. Inr (csv_row cols @ concat ls))"

end
