(* ===== verification/Reports.thy ===== *)
theory Reports
  imports PyFormat PolicyData
begin

text \<open>
  The integration report (\<^verbatim>\<open>tools/p7c_report.py\<close>) and the P8 report built on it
  (\<^verbatim>\<open>tools/build_p8_report.py\<close>).  JSON documents are records: an optional key is an option
  field, a key read with a default is a field that holds the default.  The files under the
  repository root are a map from relative path to parsed document.
\<close>

section \<open>Documents\<close>

text \<open>What the report reads of a policy or boundary file; a helper is its optional role.\<close>

record report_doc =
  rd_allocations :: "alloc_entry list"
  rd_uses :: "use_entry list"
  rd_helpers :: "string option list"

record boundary_entry =
  be_name :: string
  be_role :: "string option"
  be_status :: string
  be_pointer_shapes :: "string list"
  be_policy :: "string option"
  be_boundary_policy :: "string option"
  be_source_revision :: "string option"
  be_adversarial :: "string list"

record integration_manifest =
  mf_boundaries :: "boundary_entry list"
  mf_required_pointer_shapes :: "string list"
  mf_required_new_boundaries :: int
  mf_schema_version :: int

text \<open>The keys that only a complete result has.\<close>

record boundary_counts =
  bc_allocation_sites :: nat
  bc_inferred_allocation_sites :: nat
  bc_precise_source_allocation_sites :: nat
  bc_precise_source_fraction :: rat
  bc_trusted_uses :: nat
  bc_helper_sites :: nat
  bc_integration_helper_sites :: nat
  bc_adversarial_helper_sites :: nat
  bc_adversarial :: "string list"
  bc_source_revision :: string

record boundary_metric =
  bm_name :: string
  bm_role :: string
  bm_status :: string
  bm_pointer_shapes :: "string list"
  bm_missing :: "string list"                   \<comment> \<open>\<open>"missing"\<close>, when it is not complete\<close>
  bm_counts :: "boundary_counts option"         \<comment> \<open>\<open>Some\<close> exactly when \<open>"complete"\<close> is true\<close>

record integration_report =
  ir_schema_version :: int
  ir_complete :: bool
  ir_required_new_boundaries :: int
  ir_completed_new_boundaries :: nat
  ir_required_pointer_shapes :: "string list"
  ir_covered_pointer_shapes :: "string list"
  ir_missing_pointer_shapes :: "string list"
  ir_boundaries :: "boundary_metric list"

section \<open>\<open>p7c_report\<close>\<close>

text \<open>The truth value of an optional string.\<close>

definition truthy :: "string option \<Rightarrow> bool" where
  "truthy s \<longleftrightarrow> s \<noteq> None \<and> s \<noteq> Some []"

definition is_file :: "(string \<rightharpoonup> report_doc) \<Rightarrow> string option \<Rightarrow> bool" where
  "is_file files path \<longleftrightarrow> (case path of None \<Rightarrow> False | Some p \<Rightarrow> files p \<noteq> None)"

definition load_json :: "(string \<rightharpoonup> report_doc) \<Rightarrow> string option \<Rightarrow> report_doc" where
  "load_json files path = the (files (the path))"

text \<open>Division of counts, \<open>0.0\<close> for an empty total.\<close>

definition fraction :: "nat \<Rightarrow> nat \<Rightarrow> rat" where
  "fraction part whole = (if whole = 0 then 0 else fl (of_nat part / of_nat whole))"

definition helper_role :: "string option \<Rightarrow> string" where
  "helper_role r = (case r of None \<Rightarrow> ''integration'' | Some s \<Rightarrow> s)"

definition missing_parts :: "(string \<rightharpoonup> report_doc) \<Rightarrow> boundary_entry \<Rightarrow> string list" where
  "missing_parts files entry =
     (if \<not> truthy (be_policy entry) \<or> \<not> is_file files (be_policy entry) then [''policy''] else []) @
     (if truthy (be_boundary_policy entry) \<and> \<not> is_file files (be_boundary_policy entry) then [''boundary_policy''] else []) @
     (if \<not> truthy (be_source_revision entry) then [''source_revision''] else [])"

definition boundary_metrics :: "(string \<rightharpoonup> report_doc) \<Rightarrow> boundary_entry \<Rightarrow> boundary_metric" where
  "boundary_metrics files entry =
     (let incomplete = (\<lambda>missing. \<lparr>bm_name = be_name entry,
            bm_role = (case be_role entry of None \<Rightarrow> ''p7c'' | Some r \<Rightarrow> r), bm_status = be_status entry,
            bm_pointer_shapes = be_pointer_shapes entry, bm_missing = missing, bm_counts = None\<rparr>);
          missing = missing_parts files entry
      in if be_status entry \<noteq> ''full'' then incomplete [''full integration'']
         else if missing \<noteq> [] then incomplete missing
         else
           (let policy_doc = load_json files (be_policy entry);
                allocations = rd_allocations policy_doc;
                precise = filter (\<lambda>a. ae_site a \<noteq> None) allocations;
                uses = rd_uses policy_doc;
                helpers = (if truthy (be_boundary_policy entry)
                           then rd_helpers (load_json files (be_boundary_policy entry)) else []);
                integration_helpers = filter (\<lambda>h. helper_role h = ''integration'') helpers;
                adversarial_helpers = filter (\<lambda>h. helper_role h = ''adversarial'') helpers;
                unknown_roles = filter (\<lambda>h. helper_role h \<notin> {''integration'', ''adversarial''}) helpers
            in if unknown_roles \<noteq> [] then incomplete [''valid helper-site role'']
               else (incomplete [])\<lparr>bm_counts := Some
                 \<lparr>bc_allocation_sites = length allocations + length helpers,
                  bc_inferred_allocation_sites = length allocations,
                  bc_precise_source_allocation_sites = length precise,
                  bc_precise_source_fraction = fraction (length precise) (length allocations),
                  bc_trusted_uses = length uses,
                  bc_helper_sites = length helpers,
                  bc_integration_helper_sites = length integration_helpers,
                  bc_adversarial_helper_sites = length adversarial_helpers,
                  bc_adversarial = be_adversarial entry,
                  bc_source_revision = the (be_source_revision entry)\<rparr>\<rparr>))"

definition bm_complete :: "boundary_metric \<Rightarrow> bool" where
  "bm_complete m \<longleftrightarrow> bm_counts m \<noteq> None"

definition sorted_set :: "string list \<Rightarrow> string list" where
  "sorted_set xs = sort (remdups xs)"

definition build_report :: "(string \<rightharpoonup> report_doc) \<Rightarrow> integration_manifest \<Rightarrow> integration_report" where
  "build_report files m =
     (let metrics = map (boundary_metrics files) (mf_boundaries m);
          p7c = filter (\<lambda>b. bm_role b = ''p7c'') metrics;
          full_p7c = filter bm_complete p7c;
          shapes = sorted_set (concat (map bm_pointer_shapes full_p7c));
          required_shapes = sort (mf_required_pointer_shapes m);
          missing_shapes = sorted_set (filter (\<lambda>s. s \<notin> set shapes) required_shapes);
          required_count = mf_required_new_boundaries m;
          is_complete = (int (length full_p7c) \<ge> required_count \<and> missing_shapes = [] \<and> list_all bm_complete p7c)
      in \<lparr>ir_schema_version = mf_schema_version m, ir_complete = is_complete,
          ir_required_new_boundaries = required_count, ir_completed_new_boundaries = length full_p7c,
          ir_required_pointer_shapes = required_shapes, ir_covered_pointer_shapes = shapes,
          ir_missing_pointer_shapes = missing_shapes, ir_boundaries = metrics\<rparr>)"

section \<open>\<open>build_p8_report\<close>\<close>

datatype report_error = No_cases | Security_schema

record p8_report =
  pr_deterministic_complete :: bool
  pr_case_count :: nat
  pr_passed :: nat
  pr_failed_cases :: "string list"
  pr_generalization :: integration_report
  pr_boundary_count :: nat
  pr_inferred_allocation_sites :: nat
  pr_precise_source_allocation_sites :: nat
  pr_integration_helper_sites :: nat
  pr_adversarial_excluded :: nat
  pr_trusted_uses :: nat
  pr_source_derived_fraction :: rat
  pr_missing_source_revision :: "string list"
  pr_without_trusted_uses :: "string list"
  pr_without_adversarial :: "string list"

text \<open>A row of the security CSV, whose keys are those of the first row.\<close>

definition security_field :: "string \<Rightarrow> (string \<times> string) list \<Rightarrow> string" where
  "security_field name row = (case map_of row name of None \<Rightarrow> [] | Some v \<Rightarrow> v)"

definition load_security_csv :: "(string \<times> string) list list \<Rightarrow> report_error + (string \<times> string) list list" where
  "load_security_csv rows =
     (if rows = [] then Inl No_cases
      else if fst ` set (hd rows) \<noteq> {''case'', ''expected'', ''actual'', ''result''} then Inl Security_schema
      else Inr rows)"

text \<open>\<open>b.get(key, default)\<close> of a key that only complete results have.\<close>

definition count_of :: "(boundary_counts \<Rightarrow> 'a) \<Rightarrow> 'a \<Rightarrow> boundary_metric \<Rightarrow> 'a" where
  "count_of field absent b = (case bm_counts b of None \<Rightarrow> absent | Some c \<Rightarrow> field c)"

definition build_p8 ::
    "(string \<rightharpoonup> report_doc) \<Rightarrow> (string \<times> string) list list \<Rightarrow> integration_manifest \<Rightarrow> report_error + p8_report" where
  "build_p8 files security_rows m =
     res_bind (load_security_csv security_rows) (\<lambda>security.
     let failed = map (security_field ''case'') (filter (\<lambda>row. security_field ''result'' row \<noteq> ''pass'') security);
         generalization = build_report files m;
         boundaries = ir_boundaries generalization;
         real_boundaries = filter (\<lambda>b. bm_role b \<in> {''baseline'', ''p7c''}) boundaries;
         missing_revision = map bm_name (filter (\<lambda>b. count_of bc_source_revision [] b = []) real_boundaries);
         no_uses = map bm_name (filter (\<lambda>b. count_of bc_trusted_uses 0 b < 1) real_boundaries);
         no_adversarial = map bm_name (filter (\<lambda>b. count_of bc_adversarial [] b = []) real_boundaries);
         is_complete = (failed = [] \<and> ir_complete generalization \<and> missing_revision = [] \<and>
                        no_uses = [] \<and> no_adversarial = []);
         tally = (\<lambda>field. sum_list (map (count_of field 0) real_boundaries));
         inferred = tally bc_inferred_allocation_sites;
         integration_helpers = tally bc_integration_helper_sites
     in Inr \<lparr>pr_deterministic_complete = is_complete, pr_case_count = length security,
          pr_passed = length security - length failed, pr_failed_cases = failed,
          pr_generalization = generalization, pr_boundary_count = length real_boundaries,
          pr_inferred_allocation_sites = inferred,
          pr_precise_source_allocation_sites = tally bc_precise_source_allocation_sites,
          pr_integration_helper_sites = integration_helpers,
          pr_adversarial_excluded = tally bc_adversarial_helper_sites,
          pr_trusted_uses = tally bc_trusted_uses,
          pr_source_derived_fraction = fraction inferred (inferred + integration_helpers),
          pr_missing_source_revision = missing_revision, pr_without_trusted_uses = no_uses,
          pr_without_adversarial = no_adversarial\<rparr>)"

text \<open>\<open>write_automation_csv\<close>: the row of a boundary, and the table.\<close>

definition automation_fields :: "string list" where
  "automation_fields =
     [''boundary'', ''role'', ''status'', ''source_revision'',
      ''inferred_allocation_sites'', ''precise_source_allocation_sites'',
      ''integration_helper_sites'', ''adversarial_helper_sites'',
      ''trusted_uses'', ''pointer_shapes'', ''adversarial'']"

definition automation_row :: "boundary_metric \<Rightarrow> (string \<times> string) list" where
  "automation_row b =
     [(''boundary'', bm_name b), (''role'', bm_role b), (''status'', bm_status b),
      (''source_revision'', count_of bc_source_revision [] b),
      (''inferred_allocation_sites'', nat_str (count_of bc_inferred_allocation_sites 0 b)),
      (''precise_source_allocation_sites'', nat_str (count_of bc_precise_source_allocation_sites 0 b)),
      (''integration_helper_sites'', nat_str (count_of bc_integration_helper_sites 0 b)),
      (''adversarial_helper_sites'', nat_str (count_of bc_adversarial_helper_sites 0 b)),
      (''trusted_uses'', nat_str (count_of bc_trusted_uses 0 b)),
      (''pointer_shapes'', py_join '';'' (bm_pointer_shapes b)),
      (''adversarial'', py_join '';'' (count_of bc_adversarial [] b))]"

definition write_automation_csv :: "boundary_metric list \<Rightarrow> string list + string" where
  "write_automation_csv boundaries = dict_table automation_fields (map automation_row boundaries)"

end
