(* ===== verification/Render.thy ===== *)
theory Render
  imports Summaries Reports
begin

text \<open>
  \<^verbatim>\<open>tools/render_p8_results.py\<close> and \<^verbatim>\<open>tools/render_p9a_results.py\<close>: the result pages in
  Markdown, from the rows of the CSV files and, for P8, the deterministic report.  Rows are
  dictionaries from column to field, as the CSV reader returns them.
\<close>

section \<open>Numbers\<close>

definition signed_column :: "(string \<times> string) list \<Rightarrow> string \<Rightarrow> summary_error + signed_float" where
  "signed_column row name =
     res_bind (column row name) (\<lambda>s. case py_float s of None \<Rightarrow> Inl (Bad_number s) | Some x \<Rightarrow> Inr x)"

definition percent :: "signed_float \<Rightarrow> string" where
  "percent x = fixed_format 1 x @ ''%''"

definition pct :: "(string \<times> string) list \<Rightarrow> string \<Rightarrow> summary_error + string" where
  "pct row name = res_bind (signed_column row name) (\<lambda>x. Inr (percent x))"

definition num :: "nat \<Rightarrow> (string \<times> string) list \<Rightarrow> string \<Rightarrow> summary_error + string" where
  "num digits row name = res_bind (signed_column row name) (\<lambda>x. Inr (fixed_format digits x))"

text \<open>A row of a Markdown table.\<close>

definition table_row :: "string list \<Rightarrow> string" where
  "table_row cells = ''| '' @ py_join '' | '' cells @ '' |''"

section \<open>The P9a page\<close>

definition p9a_heading :: "string \<Rightarrow> string \<Rightarrow> string list" where
  \<open>p9a_heading reference_commit environment_note =
    [''# P9a RLBox-Only Baseline Results'',
     '''',
     ''This file is mechanically rendered from the P9a three-way rsync measurement artifact. The '' @
     ''values are a reproducible CI reference; final publication timings should be regenerated on '' @
     ''controlled hardware.'',
     '''',
     ''Reference implementation commit:'',
     '''',
     ''```text'',
     reference_commit,
     ''```'',
     '''',
     ''Reference environment:'',
     '''',
     ''```text'',
     py_strip environment_note,
     ''```'',
     '''',
     ''## Three-way application comparison'',
     '''',
     ''`rlbox_only` uses the same pinned RLBox + NaCl sandbox and rsync/popt API bridge, but ordinary '' @
     ''sandbox allocation is used and the trusted bridge does not reserve the typed arena, instantiate '' @
     ''PolicyRuntime, register allocation provenance/lifetime callbacks, or execute Extended-SP3 '' @
     ''validation. `tracked_no_check` enables typed allocation/provenance but bypasses final pointer '' @
     ''acceptance. `extended_sp3` enables the complete mechanism.'',
     '''',
     ''| Workload | RLBox only median (ms) | Tracked/no-check median (ms) | Extended SP3 median (ms) | '' @
     ''Tracking/provenance overhead | Validation overhead | Total Extended-SP3 overhead |'',
     ''| --- | ---: | ---: | ---: | ---: | ---: | ---: |'']\<close>

definition p9a_table_row :: "(string \<times> string) list \<Rightarrow> summary_error + string" where
  "p9a_table_row row =
     res_bind (column row ''workload'') (\<lambda>workload.
     res_bind (num 3 row ''rlbox_median_ms'') (\<lambda>rlbox.
     res_bind (num 3 row ''tracked_median_ms'') (\<lambda>tracked.
     res_bind (num 3 row ''extended_median_ms'') (\<lambda>extended.
     res_bind (pct row ''tracking_overhead_median_pct'') (\<lambda>tracking.
     res_bind (pct row ''validation_overhead_median_pct'') (\<lambda>validation.
     res_bind (pct row ''total_overhead_median_pct'') (\<lambda>total_overhead.
     Inr (table_row [workload, rlbox, tracked, extended, tracking, validation, total_overhead]))))))))"

definition p9a_closing :: "string list" where
  \<open>p9a_closing =
    ['''',
     ''The decomposition is intentionally paired within each repetition: tracking/provenance is '' @
     ''`tracked_no_check / rlbox_only`, validation is `extended_sp3 / tracked_no_check`, and total '' @
     ''mechanism overhead is `extended_sp3 / rlbox_only`. Percentages should not be added because the '' @
     ''denominators differ.'',
     '''',
     ''This P9a baseline removes InterSpec from the measured rsync/popt runtime path but still uses '' @
     ''the same NaCl backend build containing dormant InterSpec support code. No typed arena or '' @
     ''InterSpec callbacks are activated in `rlbox_only`. P9b remains responsible for reproducing the '' @
     ''final paper experiment on the wasm2c backend used by the existing InterSpec evaluation.'',
     '''']\<close>

definition render_p9a :: "(string \<times> string) list list \<Rightarrow> string \<Rightarrow> string \<Rightarrow> summary_error + string" where
  "render_p9a rows reference_commit environment_note =
     res_bind (res_map p9a_table_row rows) (\<lambda>table.
     Inr (py_join [LF] (p9a_heading reference_commit environment_note @ table @ p9a_closing)))"

section \<open>The P8 page\<close>

definition selected_runtime_row :: "(string \<times> string) list \<Rightarrow> summary_error + bool" where
  "selected_runtime_row row =
     res_bind (column row ''metric'') (\<lambda>metric.
     if metric \<notin> {''check_live'', ''remaining_bytes''} then Inr False
     else res_bind (int_column row ''threads'') (\<lambda>threads.
       if threads \<noteq> 1 then Inr False
       else res_bind (int_column row ''population'') (\<lambda>population.
         Inr (population \<in> {1, 256, 4096, 16384}))))"

text \<open>The columns of the selected rows are there, so the sort key cannot raise.\<close>

definition runtime_key :: "(string \<times> string) list \<Rightarrow> int \<times> string" where
  "runtime_key row = (the (py_int (the (map_of row ''population''))), the (map_of row ''metric''))"

definition selected_runtime_rows :: "(string \<times> string) list list \<Rightarrow> summary_error + (string \<times> string) list list" where
  "selected_runtime_rows rows =
     res_bind (res_map selected_runtime_row rows) (\<lambda>keep.
     Inr (sort_key runtime_key (map fst (filter snd (zip rows keep)))))"

definition p8_heading :: "p8_report \<Rightarrow> string \<Rightarrow> string \<Rightarrow> string list" where
  \<open>p8_heading r reference_commit environment_note =
    [''# P8 Representative Results'',
     '''',
     ''This file is mechanically rendered from P8 machine-readable evaluation artifacts. The '' @
     ''performance values below are a reproducible CI reference, not controlled-hardware publication '' @
     ''numbers. Final paper timings should be regenerated with the same artifact formats on a '' @
     ''dedicated machine.'',
     '''',
     ''Reference implementation commit:'',
     '''',
     ''```text'',
     reference_commit,
     ''```'',
     '''',
     ''Reference environment:'',
     '''',
     ''```text'',
     py_strip environment_note,
     ''```'',
     '''',
     ''## 1. Security'',
     '''',
     ''The deterministic runtime security matrix passed **'' @ nat_str (pr_passed r) @ ''/'' @ nat_str (pr_case_count r) @ ''** cases. The real RLBox + NaCl boundary regression additionally exercises valid behavior and '' @
     ''wrong-type, untracked same-domain, and spatial-overflow rejection where applicable.'',
     '''',
     ''## 2. Automation and policy composition'',
     '''',
     ''Across **'' @ nat_str (pr_boundary_count r) @ ''** real boundaries, the integration allocation policy contains **'' @ nat_str (pr_inferred_allocation_sites r) @ '' source-derived allocation sites** and **'' @ nat_str (pr_integration_helper_sites r) @ '' explicit integration helper sites**. The source-derived fraction is **'' @ percent (False, fl (100 * pr_source_derived_fraction r)) @ ''**. The report separately excludes **'' @ nat_str (pr_adversarial_excluded r) @ ''** test-only helper sites from that denominator.'',
     '''',
     ''| Boundary | Source-derived sites | Integration helpers | Trusted uses | Pointer shape |'',
     ''| --- | ---: | ---: | ---: | --- |'']\<close>

definition automation_table_row :: "(string \<times> string) list \<Rightarrow> summary_error + string" where
  "automation_table_row row =
     res_bind (column row ''boundary'') (\<lambda>boundary_name.
     res_bind (column row ''inferred_allocation_sites'') (\<lambda>inferred.
     res_bind (column row ''integration_helper_sites'') (\<lambda>helpers.
     res_bind (column row ''trusted_uses'') (\<lambda>uses.
     res_bind (column row ''pointer_shapes'') (\<lambda>shapes.
     Inr (table_row [boundary_name, inferred, helpers, uses, py_replace '';'' '', '' shapes]))))))"

definition p8_helpers_note :: "string list" where
  \<open>p8_helpers_note =
    ['''',
     ''The explicit helpers for PCRE and libyaml correspond to real allocator abstractions '' @
     ''(`pcre_malloc` and `YAML_MALLOC`) rather than direct `malloc` syntax. They are reported as '' @
     ''explicit policy rather than being counted as source-derived direct-allocation inference.'']\<close>

definition p8_runtime_heading :: "string list" where
  \<open>p8_runtime_heading =
    ['''',
     ''## 3. Trusted metadata runtime cost'',
     '''',
     ''The low-level runtime benchmark measures trusted metadata operations without a sandbox '' @
     ''crossing. The selected rows below show how containing-allocation lookup scales with the number '' @
     ''of live allocations.'',
     '''',
     ''| Live allocations | Operation | ns/op |'',
     ''| ---: | --- | ---: |'']\<close>

definition runtime_table_row :: "(string \<times> string) list \<Rightarrow> summary_error + string" where
  "runtime_table_row row =
     res_bind (column row ''population'') (\<lambda>population.
     res_bind (column row ''metric'') (\<lambda>metric.
     res_bind (num 2 row ''ns_per_op'') (\<lambda>ns.
     Inr (table_row [population, metric, ns]))))"

definition p8_boundary_heading :: "string \<Rightarrow> string list" where
  \<open>p8_boundary_heading boundary_section =
    ['''',
     boundary_section,
     '''',
     ''These measurements keep the real U object, sandbox, typed allocation/provenance, and copy '' @
     ''behavior fixed. `tracked_no_check` bypasses only the final T-side Extended-SP3 acceptance '' @
     ''check. Thus the overhead is **incremental validation overhead**, not total overhead over plain '' @
     ''RLBox. Because the no-check operation itself is only a few nanoseconds, percentage changes can '' @
     ''look large; the absolute added nanoseconds are therefore shown explicitly.'',
     '''',
     ''| Boundary | Baseline median (ns) | Extended SP3 median (ns) | Added median time (ns) | Paired '' @
     ''median overhead |'',
     ''| --- | ---: | ---: | ---: | ---: |'']\<close>

text \<open>The rows of the two timing tables: baseline, extended, their difference and the overhead.\<close>

definition timing_table_row :: "nat \<Rightarrow> string \<Rightarrow> string \<Rightarrow> string \<Rightarrow> (string \<times> string) list \<Rightarrow> summary_error + string" where
  "timing_table_row digits name_column baseline_column extended_column row =
     res_bind (signed_column row baseline_column) (\<lambda>baseline.
     res_bind (signed_column row extended_column) (\<lambda>extended.
     res_bind (column row name_column) (\<lambda>name.
     res_bind (pct row ''paired_overhead_median_pct'') (\<lambda>overhead.
     Inr (table_row [name, fixed_format digits baseline, fixed_format digits extended,
            fixed_format digits (float_minus extended baseline), overhead])))))"

definition p8_app_heading :: "string \<Rightarrow> string list" where
  \<open>p8_app_heading app_section =
    ['''',
     app_section,
     '''',
     ''The complete pinned rsync executable is rebuilt twice from the same object files and linked '' @
     ''against the same NaCl module. The measurement-only variant changes only the final trusted '' @
     ''pointer validation in the popt bridge.'',
     '''',
     ''| Workload | Baseline median (ms) | Extended SP3 median (ms) | Median-time delta (ms) | Paired '' @
     ''median overhead |'',
     ''| --- | ---: | ---: | ---: | ---: |'']\<close>

definition p8_closing :: "string \<Rightarrow> string list" where
  \<open>p8_closing interpretation_section =
    ['''',
     interpretation_section,
     '''',
     ''P8 separates three performance questions rather than collapsing them into one number: the '' @
     ''runtime benchmark characterizes trusted metadata operations, the real-boundary benchmark '' @
     ''isolates final pointer-validation cost, and the complete-rsync pair measures that validation '' @
     ''change at the application level. None of these is a total RLBox-only-versus-Extended-SP3 '' @
     ''comparison because typed allocation/provenance remains enabled in the paired baseline.'',
     '''',
     ''The security claim remains limited to liveness, expected trusted allocation type, and spatial '' @
     ''containment of the requested extent. It does not establish general CFI, U object-content '' @
     ''integrity, intended-object identity among simultaneous same-type allocations, or temporal '' @
     ''identity under physical address reuse.'',
     '''']\<close>

definition render_p8 ::
    "p8_report \<Rightarrow> (string \<times> string) list list \<Rightarrow> (string \<times> string) list list \<Rightarrow> (string \<times> string) list list \<Rightarrow>
     string \<Rightarrow> string \<Rightarrow> (string \<times> string) list list \<Rightarrow> summary_error + string" where
  "render_p8 r automation_rows boundary_rows app_rows reference_commit environment_note runtime_rows =
     res_bind (res_map automation_table_row automation_rows) (\<lambda>automation.
     res_bind (if runtime_rows = [] then Inr []
               else res_bind (selected_runtime_rows runtime_rows) (\<lambda>rows.
                 res_bind (res_map runtime_table_row rows) (\<lambda>table. Inr (p8_runtime_heading @ table)))) (\<lambda>runtime_part.
     let (boundary_section, app_section, interpretation_section) =
       (if runtime_rows \<noteq> []
        then (''## 4. Incremental validation cost at real boundaries'', ''## 5. Complete rsync paired measurement'',
              ''## 6. Interpretation and limitations'')
        else (''## 3. Incremental validation cost at real boundaries'', ''## 4. Complete rsync paired measurement'',
              ''## 5. Interpretation and limitations''))
     in res_bind (res_map (timing_table_row 2 ''boundary'' ''baseline_median_ns'' ''extended_median_ns'') boundary_rows) (\<lambda>boundaries.
        res_bind (res_map (timing_table_row 3 ''workload'' ''baseline_median_ms'' ''extended_median_ms'') app_rows) (\<lambda>apps.
        Inr (py_join [LF] (p8_heading r reference_commit environment_note @ automation @ p8_helpers_note @
               runtime_part @ p8_boundary_heading boundary_section @ boundaries @
               p8_app_heading app_section @ apps @ p8_closing interpretation_section))))))"

end
