(* ===== verification/SummaryFacts.thy ===== *)
theory SummaryFacts
  imports Summaries
begin

text \<open>
  The summaries depend on the measurements and not on the order in which the CSV lists them,
  and their minimum, median and maximum columns are in order.  The grouping is characterised
  once, and the order independence of the three tools is one locale with three interpretations.
\<close>

section \<open>Loops up to order\<close>

lemma res_map_as_map: "res_map f xs = Inr ys \<longleftrightarrow> map f xs = map Inr ys"
  by (induction xs arbitrary: ys) (auto simp: res_simps Cons_eq_map_conv)

lemma res_map_perm:
  assumes "res_map f xs = Inr zs" and "mset (map f xs) = mset (map f ys)"
  obtains ws where "res_map f ys = Inr ws" and "mset ws = mset zs"
proof -
  have fx: "map f xs = map Inr zs" using assms(1) by (simp add: res_map_as_map)
  have m: "mset (map f ys) = image_mset Inr (mset zs)" using assms(2) fx by (metis mset_map)
  have *: "f y = Inr (projr (f y))" if "y \<in> set ys" for y
  proof -
    have "f y \<in># image_mset Inr (mset zs)" using that m [symmetric] by simp
    then show ?thesis by auto
  qed
  let ?ws = "map (projr \<circ> f) ys"
  have fy: "map f ys = map Inr ?ws" using * by simp
  have "mset ?ws = image_mset projr (mset (map f ys))" by (simp add: image_mset.compositionality)
  also have "\<dots> = mset zs" unfolding m by (simp add: image_mset.compositionality o_def)
  finally have "mset ?ws = mset zs" .
  with fy show thesis by (intro that [of ?ws]) (simp_all only: res_map_as_map)
qed

section \<open>What the grouping holds\<close>

definition sample_key :: "'v sample \<Rightarrow> (string \<times> int) \<times> string" where
  "sample_key s = ((sm_name s, sm_repetition s), sm_mode s)"

text \<open>The contents of the two dictionaries after a list of samples.\<close>

definition groups_hold :: "'v sample list \<Rightarrow> 'v groups \<Rightarrow> bool" where
  "groups_hold samples g \<longleftrightarrow>
     (\<forall>n m. dict_default (fst g) (n, m) = map sm_value (filter (\<lambda>s. sm_name s = n \<and> sm_mode s = m) samples)) \<and>
     fst ` set (fst g) = (\<lambda>s. (sm_name s, sm_mode s)) ` set samples \<and>
     (\<forall>k m. map_of (dict_default (snd g) k) m = map_of (map (\<lambda>s. (sample_key s, sm_value s)) samples) (k, m)) \<and>
     fst ` set (snd g) = (fst \<circ> sample_key) ` set samples \<and> distinct (map fst (snd g))"

lemma dict_default_set [simp]:
  "dict_default (dict_set k v d) k' = (if k' = k then v else dict_default d k')"
  by (simp add: dict_default_def)

lemma add_sample_holds:
  assumes h: "groups_hold samples g" and a: "add_sample modes s g = Inr g'"
  shows "groups_hold (samples @ [s]) g'" and "sm_mode s \<in> set modes" and "sample_key s \<notin> sample_key ` set samples"
proof -
  obtain by_mode groups where g: "g = (by_mode, groups)" by fastforce
  let ?m = "(sm_name s, sm_mode s)" and ?k = "(sm_name s, sm_repetition s)"
  have new: "map_of (dict_default groups ?k) (sm_mode s) = None" and m: "sm_mode s \<in> set modes"
    and g': "g' = (dict_set ?m (dict_default by_mode ?m @ [sm_value s]) by_mode,
                   dict_set ?k (dict_set (sm_mode s) (sm_value s) (dict_default groups ?k)) groups)"
    using a by (auto simp: g add_sample_def Let_def split: if_splits)
  show "sm_mode s \<in> set modes" by (rule m)
  have k: "sample_key s = (?k, sm_mode s)" by (simp add: sample_key_def)
  have "map_of (map (\<lambda>s. (sample_key s, sm_value s)) samples) (sample_key s) = None"
    using h new unfolding k by (simp add: groups_hold_def g)
  then show fresh: "sample_key s \<notin> sample_key ` set samples" by (simp add: map_of_eq_None_iff image_image)
  have app: "map_of (map (\<lambda>s. (sample_key s, sm_value s)) (samples @ [s])) q =
      (if q = sample_key s then Some (sm_value s) else map_of (map (\<lambda>s. (sample_key s, sm_value s)) samples) q)" for q
    using fresh map_of_eq_None_iff [of "map (\<lambda>s. (sample_key s, sm_value s)) samples" "sample_key s"]
    by (auto simp: map_add_def image_image split: option.split)
  have C: "map_of (dict_default (snd g') k) m = map_of (map (\<lambda>s. (sample_key s, sm_value s)) (samples @ [s])) (k, m)" for k m
  proof -
    have "map_of (dict_default groups k) m = map_of (map (\<lambda>s. (sample_key s, sm_value s)) samples) (k, m)"
      using h unfolding groups_hold_def g fst_conv snd_conv by blast
    then show ?thesis unfolding app g' k snd_conv by auto
  qed
  have D: "dict_default (fst g') (n, m) = map sm_value (filter (\<lambda>s. sm_name s = n \<and> sm_mode s = m) (samples @ [s]))" for n m
    using h by (auto simp: groups_hold_def g g')
  have E: "fst ` set (fst g') = (\<lambda>s. (sm_name s, sm_mode s)) ` set (samples @ [s])"
    and F: "fst ` set (snd g') = (fst \<circ> sample_key) ` set (samples @ [s])" and G: "distinct (map fst (snd g'))"
    using h by (simp_all add: groups_hold_def g g' dict_set_keys dict_set_distinct sample_key_def)
  show "groups_hold (samples @ [s]) g'" unfolding groups_hold_def using C D E F G by blast
qed

lemma collect_samples_holds:
  "collect_samples modes samples = Inr g \<Longrightarrow>
     groups_hold samples g \<and> (\<forall>s \<in> set samples. sm_mode s \<in> set modes) \<and> distinct (map sample_key samples)"
proof (induction samples arbitrary: g rule: rev_induct)
  case Nil
  then show ?case by (auto simp: collect_samples_def groups_hold_def dict_default_def)
next
  case (snoc s samples)
  then obtain g0 where g0: "collect_samples modes samples = Inr g0" "add_sample modes s g0 = Inr g"
    by (auto simp: collect_samples_def res_fold_append res_simps)
  from snoc.IH [OF g0(1)] add_sample_holds [OF _ g0(2)] show ?case by auto
qed

lemma collect_samples_succeeds:
  assumes "\<forall>s \<in> set samples. sm_mode s \<in> set modes" and "distinct (map sample_key samples)"
  shows "\<exists>g. collect_samples modes samples = Inr g"
  using assms
proof (induction samples rule: rev_induct)
  case Nil
  show ?case by (simp add: collect_samples_def)
next
  case (snoc s samples)
  then obtain by_mode groups where g: "collect_samples modes samples = Inr (by_mode, groups)" by auto
  have "map_of (map (\<lambda>s. (sample_key s, sm_value s)) samples) (sample_key s) = None"
    using snoc.prems by (auto simp: map_of_eq_None_iff)
  then have "map_of (dict_default groups (sm_name s, sm_repetition s)) (sm_mode s) = None"
    using collect_samples_holds [OF g] by (simp add: groups_hold_def sample_key_def)
  then have "add_sample modes s (by_mode, groups) \<noteq> Inl e" for e
    using snoc.prems by (simp add: add_sample_def Let_def)
  then obtain g' where "add_sample modes s (by_mode, groups) = Inr g'"
    by (cases "add_sample modes s (by_mode, groups)") auto
  with g show ?case by (simp add: collect_samples_def res_fold_append)
qed

section \<open>Groups that differ in order only\<close>

definition same_groups :: "'v groups \<Rightarrow> 'v groups \<Rightarrow> bool" where
  "same_groups g h \<longleftrightarrow>
     (\<forall>k. mset (dict_default (fst g) k) = mset (dict_default (fst h) k)) \<and> fst ` set (fst g) = fst ` set (fst h) \<and>
     mset (map (\<lambda>(k, v). (k, map_of v)) (snd g)) = mset (map (\<lambda>(k, v). (k, map_of v)) (snd h))"

lemma contents_mset:
  assumes "distinct (map fst d)"
  shows "mset (map (\<lambda>(k, v). (k, map_of v)) d) =
     image_mset (\<lambda>k. (k, map_of (dict_default d k))) (mset_set (fst ` set d))"
proof -
  have "map (\<lambda>(k, v). (k, map_of v)) d = map (\<lambda>k. (k, map_of (dict_default d k))) (map fst d)"
    using assms by (auto simp: dict_default_def)
  moreover have "mset (map fst d) = mset_set (fst ` set d)" using assms by (metis mset_set_set set_map)
  ultimately show ?thesis by (metis mset_map)
qed

lemma collect_samples_perm:
  assumes g: "collect_samples modes samples = Inr g" and p: "mset samples' = mset samples"
  obtains h where "collect_samples modes samples' = Inr h" and "same_groups g h"
proof -
  note old = collect_samples_holds [OF g]
  have s: "set samples' = set samples" using p by (rule mset_eq_setD)
  have pk: "mset (map sample_key samples') = mset (map sample_key samples)" by (simp add: p)
  then have dk: "distinct (map sample_key samples')" using old mset_eq_imp_distinct_iff by blast
  then obtain h where h: "collect_samples modes samples' = Inr h"
    using collect_samples_succeeds [of samples' modes] old s by auto
  note new = collect_samples_holds [OF h]
  let ?c = "map (\<lambda>s. (sample_key s, sm_value s))"
  have "map_of (?c samples') = map_of (?c samples)"
  proof (rule map_of_eqI)
    show "set (map fst (?c samples')) = set (map fst (?c samples))" by (simp add: s image_image)
    have "map_of (?c samples') q = map_of (?c samples) q" for q
    proof (cases "map_of (?c samples) q")
      case None
      then have "map_of (?c samples') q = None" unfolding map_of_eq_None_iff by (simp add: image_image s)
      with None show ?thesis by simp
    next
      case (Some v)
      from map_of_SomeD [OF this] have "(q, v) \<in> set (?c samples')" by (simp only: set_map s)
      moreover have "distinct (map fst (?c samples'))" using dk by (simp add: o_def)
      ultimately have "map_of (?c samples') q = Some v" by (rule map_of_is_SomeI [rotated])
      with Some show ?thesis by (simp only:)
    qed
    then show "\<forall>q \<in> set (map fst (?c samples')). map_of (?c samples') q = map_of (?c samples) q" by blast
  qed
  then have "map_of (dict_default (snd g) k) m = map_of (dict_default (snd h) k) m" for k m
    using old new unfolding groups_hold_def by metis
  then have "map_of (dict_default (snd g) k) = map_of (dict_default (snd h) k)" for k by (rule ext)
  moreover have "fst ` set (snd g) = fst ` set (snd h)" using old new by (simp add: groups_hold_def s)
  ultimately have "mset (map (\<lambda>(k, v). (k, map_of v)) (snd g)) = mset (map (\<lambda>(k, v). (k, map_of v)) (snd h))"
    using contents_mset [of "snd g"] contents_mset [of "snd h"] old new by (simp add: groups_hold_def)
  moreover have "mset (dict_default (fst g) k) = mset (dict_default (fst h) k)" for k
    using old new by (cases k) (simp add: groups_hold_def p)
  moreover have "fst ` set (fst g) = fst ` set (fst h)" using old new by (simp add: groups_hold_def s)
  ultimately have "same_groups g h" by (simp add: same_groups_def)
  with h show thesis by (rule that)
qed

section \<open>Rows of groups that differ in order only\<close>

text \<open>The loops over the groups of a workload see a group through its lookups.\<close>

lemma groups_of_perm:
  assumes "same_groups g h"
  shows "mset (map (\<lambda>(r, v). (r, map_of v)) (groups_of n (snd g))) =
    mset (map (\<lambda>(r, v). (r, map_of v)) (groups_of n (snd h)))"
proof -
  have *: "mset (map (\<lambda>(r, v). (r, map_of v)) (groups_of n d)) =
      image_mset (\<lambda>((_, r), l). (r, l)) (filter_mset (\<lambda>((m, _), _). m = n) (mset (map (\<lambda>(k, v). (k, map_of v)) d)))"
    for d :: "((string \<times> int) \<times> (string \<times> 'b) list) list"
    by (induction d) (auto simp: groups_of_def)
  show ?thesis using assms unfolding * same_groups_def by simp
qed

lemma groups_of_results:
  assumes "same_groups g h" and "res_map f (groups_of n (snd g)) = Inr zs"
    and f: "\<And>r v w. map_of v = map_of w \<Longrightarrow> f (r, v) = f (r, w)"
  obtains ws where "res_map f (groups_of n (snd h)) = Inr ws" and "mset ws = mset zs"
proof -
  let ?F = "\<lambda>(r, l). f (r, SOME v. map_of v = l)"
  have "f (r, v) = ?F (r, map_of v)" for r v
  proof -
    have "map_of (SOME w. map_of w = map_of v) = map_of v" by (rule someI) (rule refl)
    then show ?thesis unfolding prod.case by (intro f) (rule sym)
  qed
  then obtain F where F: "f (r, v) = F (r, map_of v)" for r v by blast
  have *: "mset (map f d) = image_mset F (mset (map (\<lambda>(r, v). (r, map_of v)) d))" for d
    by (induction d) (auto simp: F)
  have "mset (map f (groups_of n (snd g))) = mset (map f (groups_of n (snd h)))"
    unfolding * groups_of_perm [OF assms(1)] ..
  from res_map_perm [OF assms(2) this] show thesis using that .
qed

lemma complete_group_dom: "complete_group modes v \<longleftrightarrow> dom (map_of v) = set modes"
  by (simp add: complete_group_def dom_map_of_conv_image_fst)

lemma mset_eq_Nil: "mset xs = mset ys \<Longrightarrow> xs = [] \<longleftrightarrow> ys = []"
  by (metis mset_zero_iff)

text \<open>Every statistic of a list is one of its multiset.\<close>

lemma median_ms_perm: "mset xs = mset ys \<Longrightarrow> median_ms xs = median_ms ys"
proof -
  assume m: "mset xs = mset ys"
  then have "sort xs = sort ys" by (intro properties_for_sort) simp_all
  then show ?thesis using mset_eq_length [OF m] by (simp add: median_ms_def Let_def)
qed

lemma mean_ms_perm: "mset xs = mset ys \<Longrightarrow> mean_ms xs = mean_ms ys"
  unfolding mean_ms_def by (subst py_fmean_perm) simp_all

lemma overhead_cells_perm: "mset xs = mset ys \<Longrightarrow> overhead_cells p xs = overhead_cells p ys"
  using py_median_perm [of xs ys] py_fmean_perm [of xs ys] mset_eq_setD [of xs ys] by (simp add: overhead_cells_def)

lemmas statistics_perm = median_ms_perm mean_ms_perm overhead_cells_perm py_median_perm py_fmean_perm

section \<open>Order independence\<close>

text \<open>A summariser groups the samples and makes a row per name; its row must not depend on
  the order of the groups.\<close>

locale summariser =
  fixes modes :: "string list" and row :: "'v groups \<Rightarrow> string \<Rightarrow> summary_error + summary_row"
  assumes row_same: "same_groups g h \<Longrightarrow> row g n = Inr r \<Longrightarrow> row h n = Inr r"
begin

lemma order_irrelevant:
  assumes "res_bind (collect_samples modes samples) (\<lambda>g. res_map (row g) (sample_names samples)) = Inr rows"
    and p: "mset samples' = mset samples"
  shows "res_bind (collect_samples modes samples') (\<lambda>g. res_map (row g) (sample_names samples')) = Inr rows"
proof -
  obtain g where g: "collect_samples modes samples = Inr g" "res_map (row g) (sample_names samples) = Inr rows"
    using assms(1) by (auto simp: res_simps)
  obtain h where h: "collect_samples modes samples' = Inr h" "same_groups g h"
    by (rule collect_samples_perm [OF g(1) p])
  have "set (map sm_name samples') = set (map sm_name samples)" using mset_eq_setD [OF p] by simp
  then have "sample_names samples' = sample_names samples"
    by (simp add: sample_names_def flip: sorted_list_of_set_sort_remdups)
  moreover have "res_map (row h) (sample_names samples) = Inr rows"
    using g(2) row_same [OF h(2)] unfolding res_map_Inr by (rule list_all2_mono)
  ultimately show ?thesis using h(1) by simp
qed

end

text \<open>The overheads of one repetition read its group through the lookups only.\<close>

lemma pair_overhead_cong: "map_of v = map_of w \<Longrightarrow> pair_overhead n num v = pair_overhead n num w"
  by (simp add: pair_overhead_def complete_group_dom group_value_def)

lemma triple_overheads_cong: "map_of v = map_of w \<Longrightarrow> triple_overheads n v = triple_overheads n w"
  by (simp add: triple_overheads_def complete_group_dom group_value_def)

lemma dict_default_same:
  assumes "same_groups g h"
  shows "mset (dict_default (fst g) k) = mset (dict_default (fst h) k)"
    and "dict_default (fst g) k = [] \<longleftrightarrow> dict_default (fst h) k = []"
proof -
  show m: "mset (dict_default (fst g) k) = mset (dict_default (fst h) k)"
    using assms unfolding same_groups_def by blast
  show "dict_default (fst g) k = [] \<longleftrightarrow> dict_default (fst h) k = []" using m by (rule mset_eq_Nil)
qed

text \<open>When the three tools make a row, and the row.\<close>

lemma p8_application_row_Inr:
  "p8_application_row g n = Inr r \<longleftrightarrow>
     dict_default (fst g) (n, ''tracked_no_check'') \<noteq> [] \<and> dict_default (fst g) (n, ''extended_sp3'') \<noteq> [] \<and>
     (\<exists>zs. res_map (\<lambda>(_, values). pair_overhead n of_int values) (groups_of n (snd g)) = Inr zs \<and>
       r = [(''workload'', Text n), (''repetitions'', Count (length zs)),
            (''baseline_median_ms'', Flt (median_ms (dict_default (fst g) (n, ''tracked_no_check'')))),
            (''extended_median_ms'', Flt (median_ms (dict_default (fst g) (n, ''extended_sp3'')))),
            (''baseline_mean_ms'', Flt (mean_ms (dict_default (fst g) (n, ''tracked_no_check'')))),
            (''extended_mean_ms'', Flt (mean_ms (dict_default (fst g) (n, ''extended_sp3''))))] @
           overhead_cells ''paired_overhead'' zs)"
proof (cases "res_map (\<lambda>(_, values). pair_overhead n of_int values) (groups_of n (snd g))")
  case (Inl e)
  then show ?thesis by (simp add: p8_application_row_def case_prod_beta Let_def)
next
  case (Inr zs)
  then show ?thesis by (auto simp add: p8_application_row_def case_prod_beta Let_def)
qed

lemma p8_performance_row_Inr:
  "p8_performance_row g n = Inr r \<longleftrightarrow>
     snd ` {k \<in> fst ` set (fst g). fst k = n} = set p8_modes \<and>
     (\<exists>zs. res_map (\<lambda>(_, values). pair_overhead n id values) (groups_of n (snd g)) = Inr zs \<and>
       r = [(''boundary'', Text n), (''repetitions'', Count (length zs)),
            (''baseline_median_ns'', Flt (py_median (dict_default (fst g) (n, ''tracked_no_check'')))),
            (''extended_median_ns'', Flt (py_median (dict_default (fst g) (n, ''extended_sp3'')))),
            (''baseline_mean_ns'', Flt (py_fmean (dict_default (fst g) (n, ''tracked_no_check'')))),
            (''extended_mean_ns'', Flt (py_fmean (dict_default (fst g) (n, ''extended_sp3''))))] @
           overhead_cells ''paired_overhead'' zs)"
proof -
  have names: "snd ` fst ` {x \<in> set (fst g). fst (fst x) = n} = snd ` {k \<in> fst ` set (fst g). fst k = n}"
    by force
  show ?thesis
  proof (cases "res_map (\<lambda>(_, values). pair_overhead n id values) (groups_of n (snd g))")
    case (Inl e)
    then show ?thesis unfolding p8_performance_row_def case_prod_beta Let_def names by simp
  next
    case (Inr zs)
    then show ?thesis unfolding p8_performance_row_def case_prod_beta Let_def names by auto
  qed
qed

lemma p9a_row_Inr:
  "p9a_row g n = Inr r \<longleftrightarrow>
     (\<forall>m \<in> set p9a_modes. dict_default (fst g) (n, m) \<noteq> []) \<and>
     groups_of n (snd g) \<noteq> [] \<and> distinct (map fst (groups_of n (snd g))) \<and>
     (\<exists>zs. res_map (\<lambda>(_, values). triple_overheads n values) (groups_of n (sort_key fst (snd g))) = Inr zs \<and>
       r = [(''workload'', Text n), (''repetitions'', Count (length zs))] @ p9a_mode_cells (fst g) n @
           overhead_cells ''tracking_overhead'' (map fst zs) @
           overhead_cells ''validation_overhead'' (map (fst \<circ> snd) zs) @
           overhead_cells ''total_overhead'' (map (snd \<circ> snd) zs))"
proof -
  let ?sorted = "groups_of n (sort_key fst (snd g))"
  have m: "mset ?sorted = mset (groups_of n (snd g))" by (simp add: groups_of_def)
  have ne: "?sorted = [] \<longleftrightarrow> groups_of n (snd g) = []" using m by (rule mset_eq_Nil)
  have "mset (map fst ?sorted) = mset (map fst (groups_of n (snd g)))" unfolding mset_map m ..
  then have d: "distinct (map fst ?sorted) \<longleftrightarrow> distinct (map fst (groups_of n (snd g)))" by (rule mset_eq_imp_distinct_iff)
  have u: "length (remdups xs) = length xs \<longleftrightarrow> distinct xs" for xs :: "int list"
    by simp
  show ?thesis
  proof (cases "res_map (\<lambda>(_, values). triple_overheads n values) ?sorted")
    case (Inl e)
    then show ?thesis unfolding p9a_row_def case_prod_beta Let_def by simp
  next
    case (Inr zs)
    then have z: "res_map (\<lambda>p. triple_overheads n (snd p)) ?sorted = Inr zs" by (simp add: case_prod_unfold)
    have l: "length ?sorted = length zs" using res_map_length [OF z] by simp
    show ?thesis
      unfolding p9a_row_def case_prod_beta Let_def u d length_map map_is_Nil_conv l
      using ne by (auto simp: z)
  qed
qed

text \<open>The three interpretations.\<close>

interpretation p8_application: summariser p8_modes p8_application_row
proof
  fix g h :: "int groups" and n r
  assume s: "same_groups g h" and r: "p8_application_row g n = Inr r"
  obtain zs where z: "res_map (\<lambda>(_, values). pair_overhead n of_int values) (groups_of n (snd g)) = Inr zs"
    using r unfolding p8_application_row_Inr by blast
  obtain ws where w: "res_map (\<lambda>(_, values). pair_overhead n of_int values) (groups_of n (snd h)) = Inr ws"
    and m: "mset ws = mset zs"
    by (rule groups_of_results [OF s z]) (simp only: prod.case, erule pair_overhead_cong, rule that)
  show "p8_application_row h n = Inr r"
    using r unfolding p8_application_row_Inr z w sum.inject dict_default_same(2) [OF s]
      statistics_perm(1,2) [OF dict_default_same(1) [OF s]]
    by (simp add: mset_eq_length [OF m] overhead_cells_perm [OF m])
qed

interpretation p8_performance: summariser p8_modes p8_performance_row
proof
  fix g h :: "rat groups" and n r
  assume s: "same_groups g h" and r: "p8_performance_row g n = Inr r"
  obtain zs where z: "res_map (\<lambda>(_, values). pair_overhead n id values) (groups_of n (snd g)) = Inr zs"
    using r unfolding p8_performance_row_Inr by blast
  obtain ws where w: "res_map (\<lambda>(_, values). pair_overhead n id values) (groups_of n (snd h)) = Inr ws"
    and m: "mset ws = mset zs"
    by (rule groups_of_results [OF s z]) (simp only: prod.case, erule pair_overhead_cong, rule that)
  have keys: "fst ` set (fst g) = fst ` set (fst h)" using s by (simp add: same_groups_def)
  show "p8_performance_row h n = Inr r"
    using r unfolding p8_performance_row_Inr z w sum.inject keys
      statistics_perm(4,5) [OF dict_default_same(1) [OF s]]
    by (simp add: mset_eq_length [OF m] overhead_cells_perm [OF m])
qed

interpretation p9a_application: summariser p9a_modes p9a_row
proof
  fix g h :: "int groups" and n r
  assume s: "same_groups g h" and r: "p9a_row g n = Inr r"
  let ?sorted = "\<lambda>d. (fst d, sort_key fst (snd d))" and ?f = "\<lambda>(_, values). triple_overheads n values"
  have s': "same_groups (?sorted g) (?sorted h)" using s by (simp add: same_groups_def)
  obtain zs where z: "res_map ?f (groups_of n (sort_key fst (snd g))) = Inr zs"
    using r unfolding p9a_row_Inr by blast
  then have "res_map ?f (groups_of n (snd (?sorted g))) = Inr zs" by simp
  then obtain ws where w: "res_map ?f (groups_of n (snd (?sorted h))) = Inr ws" and m: "mset ws = mset zs"
    by (rule groups_of_results [OF s']) (simp only: prod.case, erule triple_overheads_cong, rule that)
  let ?reps = "\<lambda>d. map fst (groups_of n (snd d))"
  have "image_mset fst (mset (map (\<lambda>(r, v). (r, map_of v)) (groups_of n (snd h)))) =
      image_mset fst (mset (map (\<lambda>(r, v). (r, map_of v)) (groups_of n (snd g))))"
    unfolding groups_of_perm [OF s] ..
  then have reps: "mset (?reps g) = mset (?reps h)" by (simp add: image_mset.compositionality o_def case_prod_unfold)
  have uniq: "distinct (?reps g) \<longleftrightarrow> distinct (?reps h)" using reps by (rule mset_eq_imp_distinct_iff)
  have none: "groups_of n (snd g) = [] \<longleftrightarrow> groups_of n (snd h) = []" using mset_eq_Nil [OF reps] by simp
  have cells: "p9a_mode_cells (fst g) n = p9a_mode_cells (fst h) n"
    unfolding p9a_mode_cells_def Let_def statistics_perm(1,2) [OF dict_default_same(1) [OF s]] ..
  have over: "overhead_cells p (map f ws) = overhead_cells p (map f zs)" for p and f :: "rat \<times> rat \<times> rat \<Rightarrow> rat"
    by (rule overhead_cells_perm) (simp add: m)
  show "p9a_row h n = Inr r"
    using r w unfolding p9a_row_Inr z snd_conv sum.inject dict_default_same(2) [OF s] uniq none cells
    by (simp add: over mset_eq_length [OF m])
qed

section \<open>Ordered columns\<close>

text \<open>The overhead columns of a prefix hold a minimum, a median and a maximum in this order.\<close>

definition ordered_columns :: "summary_row \<Rightarrow> string \<Rightarrow> bool" where
  "ordered_columns row p \<longleftrightarrow>
     (case (map_of row (p @ ''_min_pct''), map_of row (p @ ''_median_pct''), map_of row (p @ ''_max_pct'')) of
        (Some (Flt lo), Some (Flt m), Some (Flt hi)) \<Rightarrow> lo \<le> m \<and> m \<le> hi
      | _ \<Rightarrow> False)"

lemma triple_overheads_floats:
  "triple_overheads n v = Inr (a, b, c) \<Longrightarrow> is_float a \<and> is_float b \<and> is_float c"
  by (auto simp: triple_overheads_def p9a_overhead_def overhead_pct_def res_simps)

lemma p9a_row_ordered:
  assumes "p9a_row g n = Inr row" and p: "p \<in> {''tracking_overhead'', ''validation_overhead'', ''total_overhead''}"
  shows "ordered_columns row p"
proof -
  obtain zs where ne: "groups_of n (snd g) \<noteq> []"
    and z: "res_map (\<lambda>(_, v). triple_overheads n v) (groups_of n (sort_key fst (snd g))) = Inr zs"
    and r: "row = [(''workload'', Text n), (''repetitions'', Count (length zs))] @ p9a_mode_cells (fst g) n @
           overhead_cells ''tracking_overhead'' (map fst zs) @
           overhead_cells ''validation_overhead'' (map (fst \<circ> snd) zs) @
           overhead_cells ''total_overhead'' (map (snd \<circ> snd) zs)"
    using assms(1) unfolding p9a_row_Inr by blast
  have "mset (groups_of n (sort_key fst (snd g))) = mset (groups_of n (snd g))" by (simp add: groups_of_def)
  with ne have "zs \<noteq> []" using res_map_length [OF z] mset_eq_length by fastforce
  have "is_float (fst t) \<and> is_float (fst (snd t)) \<and> is_float (snd (snd t))" if "t \<in> set zs" for t
    using z that triple_overheads_floats [of n] unfolding res_map_Inr
    by (cases t) (fastforce simp: list_all2_conv_all_nth in_set_conv_nth case_prod_beta)
  then have floats: "\<forall>x \<in> set (map f zs). is_float x" if "f \<in> {fst, fst \<circ> snd, snd \<circ> snd}" for f
    using that by fastforce
  have between: "Min (set (map f zs)) \<le> py_median (map f zs) \<and> py_median (map f zs) \<le> Max (set (map f zs))"
    if "f \<in> {fst, fst \<circ> snd, snd \<circ> snd}" for f
    using py_median_between [OF _ floats [OF that]] \<open>zs \<noteq> []\<close> by simp
  show ?thesis
    using p between [of fst] between [of "fst \<circ> snd"] between [of "snd \<circ> snd"]
    by (auto simp: r ordered_columns_def overhead_cells_def p9a_mode_cells_def Let_def)
qed

section \<open>A small measurement\<close>

text \<open>One repetition of each mode, for evaluating the tools.\<close>

definition sample_of :: "string \<Rightarrow> string \<Rightarrow> int \<Rightarrow> 'v \<Rightarrow> 'v sample" where
  "sample_of name mode repetition v = \<lparr>sm_name = name, sm_mode = mode, sm_repetition = repetition, sm_value = v\<rparr>"

definition small_application :: "int sample list" where
  "small_application =
     [sample_of ''rsync'' ''tracked_no_check'' 1 2000000, sample_of ''rsync'' ''extended_sp3'' 1 3000000]"

definition small_triple :: "int sample list" where
  "small_triple = sample_of ''rsync'' ''rlbox_only'' 1 1000000 # small_application"

definition small_timings :: "rat sample list" where
  "small_timings = [sample_of ''zlib'' ''tracked_no_check'' 1 2, sample_of ''zlib'' ''extended_sp3'' 1 3]"

definition small_application_row :: summary_row where
  "small_application_row =
     [(''workload'', Text ''rsync''), (''repetitions'', Count 1),
      (''baseline_median_ms'', Flt 2), (''extended_median_ms'', Flt 3),
      (''baseline_mean_ms'', Flt 2), (''extended_mean_ms'', Flt 3)] @ overhead_cells ''paired_overhead'' [50]"

definition small_timings_row :: summary_row where
  "small_timings_row =
     [(''boundary'', Text ''zlib''), (''repetitions'', Count 1),
      (''baseline_median_ns'', Flt 2), (''extended_median_ns'', Flt 3),
      (''baseline_mean_ns'', Flt 2), (''extended_mean_ns'', Flt 3)] @ overhead_cells ''paired_overhead'' [50]"

definition small_triple_row :: summary_row where
  "small_triple_row =
     [(''workload'', Text ''rsync''), (''repetitions'', Count 1),
      (''rlbox_median_ms'', Flt 1), (''rlbox_mean_ms'', Flt 1), (''tracked_median_ms'', Flt 2),
      (''tracked_mean_ms'', Flt 2), (''extended_median_ms'', Flt 3), (''extended_mean_ms'', Flt 3)] @
     overhead_cells ''tracking_overhead'' [100] @ overhead_cells ''validation_overhead'' [50] @
     overhead_cells ''total_overhead'' [200]"

lemma small_application: "p8_application small_application = Inr [small_application_row]"
  by code_simp

lemma small_triple: "p9a_application small_triple = Inr [small_triple_row]"
  by code_simp

lemma small_timings: "p8_performance small_timings = Inr [small_timings_row]"
  by code_simp

section \<open>Properties\<close>

text \<open>
  Property C32.  The summaries of the three tools do not depend on the order of the measurements:
  whenever a tool makes its table, it makes the same table of the same measurements in any other
  order, every mean, median, minimum and maximum equal to the last bit.
\<close>

theorem summaries_order_irrelevant:
  assumes "mset samples' = mset samples" and "mset timings' = mset timings"
    and "p8_application samples = Inr rows8" and "p9a_application samples9 = Inr rows9"
    and "mset samples9' = mset samples9" and "p8_performance timings = Inr rows"
  shows "p8_application samples' = Inr rows8 \<and> p9a_application samples9' = Inr rows9 \<and>
    p8_performance timings' = Inr rows"
  using p8_application.order_irrelevant [of samples rows8 samples'] p9a_application.order_irrelevant [of samples9 rows9 samples9']
    p8_performance.order_irrelevant [of timings rows timings'] assms
  by (simp add: p8_application_def p9a_application_def p8_performance_def)

theorem summaries_order_irrelevant_witness:
  "p8_application (rev small_application) = Inr [small_application_row] \<and>
   p9a_application (rev small_triple) = Inr [small_triple_row] \<and>
   p8_performance (rev small_timings) = Inr [small_timings_row]"
  by (rule summaries_order_irrelevant [OF _ _ small_application small_triple _ small_timings]) simp_all

text \<open>
  Property C33.  In every row of the P9a table, and for each of the three overheads, the median is
  between the minimum and the maximum: the rounding of the average of two middle floats does not
  leave their interval.
\<close>

theorem p9a_overheads_ordered:
  assumes "p9a_application samples = Inr rows" and "row \<in> set rows"
    and "p = ''tracking_overhead'' \<or> p = ''validation_overhead'' \<or> p = ''total_overhead''"
  shows "ordered_columns row p"
proof -
  obtain g n where "p9a_row g n = Inr row"
    using assms(1,2) by (auto simp: p9a_application_def res_simps res_map_Inr list_all2_conv_all_nth in_set_conv_nth)
  then show ?thesis using assms(3) by (intro p9a_row_ordered) auto
qed

theorem p9a_overheads_ordered_witness: "ordered_columns small_triple_row ''validation_overhead''"
  by (rule p9a_overheads_ordered [OF small_triple]) simp_all

end
