(* ===== verification/SummaryTables.thy ===== *)
theory SummaryTables
  imports SummaryFacts PyFormat
begin

text \<open>
  The CSV files around the summaries: \<open>load_samples\<close> of the performance tool, which reads
  floats, and the three \<open>write\<close> functions.  The rows a tool makes have exactly the columns its
  writer knows, so writing never raises and leaves no column empty.
\<close>

section \<open>Reading timings\<close>

definition float_column :: "(string \<times> string) list \<Rightarrow> string \<Rightarrow> summary_error + rat" where
  "float_column row name =
     res_bind (column row name) (\<lambda>s. case py_float s of None \<Rightarrow> Inl (Bad_number s) | Some x \<Rightarrow> Inr (snd x))"

text \<open>The sample keeps the three values the summary uses; the other two columns are only parsed.\<close>

definition load_samples :: "(string \<times> string) list list \<Rightarrow> summary_error + rat sample list" where
  "load_samples rows =
     (if rows = [] \<or> fst ` set (hd rows) \<noteq>
           {''boundary'', ''mode'', ''repetition'', ''iterations'', ''total_ns'', ''ns_per_op''}
      then Inl Unexpected_csv
      else res_map (\<lambda>row.
        res_bind (column row ''boundary'') (\<lambda>boundary_name.
        res_bind (column row ''mode'') (\<lambda>mode.
        res_bind (int_column row ''repetition'') (\<lambda>repetition.
        res_bind (int_column row ''iterations'') (\<lambda>_.
        res_bind (int_column row ''total_ns'') (\<lambda>_.
        res_bind (float_column row ''ns_per_op'') (\<lambda>ns_per_op.
        Inr \<lparr>sm_name = boundary_name, sm_mode = mode, sm_repetition = repetition, sm_value = ns_per_op\<rparr>))))))) rows)"

section \<open>Writing summaries\<close>

definition cell_text :: "cell \<Rightarrow> string" where
  "cell_text c = (case c of Text s \<Rightarrow> s | Count n \<Rightarrow> nat_str n | Flt q \<Rightarrow> fixed_format 6 (q < 0, q))"

definition write_rows :: "string list \<Rightarrow> summary_row list \<Rightarrow> string list + string" where
  "write_rows cols rows = dict_table cols (map (map (\<lambda>(k, v). (k, cell_text v))) rows)"

definition p8_application_fields :: "string list" where
  "p8_application_fields =
     [''workload'', ''repetitions'',
      ''baseline_median_ms'', ''extended_median_ms'',
      ''baseline_mean_ms'', ''extended_mean_ms'',
      ''paired_overhead_median_pct'', ''paired_overhead_mean_pct'',
      ''paired_overhead_min_pct'', ''paired_overhead_max_pct'']"

definition p8_application_write :: "summary_row list \<Rightarrow> string list + string" where
  "p8_application_write = write_rows p8_application_fields"

definition p8_performance_fields :: "string list" where
  "p8_performance_fields =
     [''boundary'', ''repetitions'',
      ''baseline_median_ns'', ''extended_median_ns'',
      ''baseline_mean_ns'', ''extended_mean_ns'',
      ''paired_overhead_median_pct'', ''paired_overhead_mean_pct'',
      ''paired_overhead_min_pct'', ''paired_overhead_max_pct'']"

definition p8_performance_write :: "summary_row list \<Rightarrow> string list + string" where
  "p8_performance_write = write_rows p8_performance_fields"

definition p9a_fields :: "string list" where
  "p9a_fields =
     [''workload'', ''repetitions'',
      ''rlbox_median_ms'', ''tracked_median_ms'', ''extended_median_ms'',
      ''rlbox_mean_ms'', ''tracked_mean_ms'', ''extended_mean_ms'',
      ''tracking_overhead_median_pct'', ''tracking_overhead_mean_pct'',
      ''tracking_overhead_min_pct'', ''tracking_overhead_max_pct'',
      ''validation_overhead_median_pct'', ''validation_overhead_mean_pct'',
      ''validation_overhead_min_pct'', ''validation_overhead_max_pct'',
      ''total_overhead_median_pct'', ''total_overhead_mean_pct'',
      ''total_overhead_min_pct'', ''total_overhead_max_pct'']"

definition p9a_write :: "summary_row list \<Rightarrow> string list + string" where
  "p9a_write = write_rows p9a_fields"

section \<open>Rows and columns\<close>

definition full_row :: "string list \<Rightarrow> summary_row \<Rightarrow> bool" where
  "full_row cols row \<longleftrightarrow> set (map fst row) = set cols"

text \<open>The line of a full row has the text of a cell in every column.\<close>

definition full_line :: "string list \<Rightarrow> summary_row \<Rightarrow> string" where
  "full_line cols row = csv_row (map (\<lambda>f. cell_text (the (map_of row f))) cols)"

lemma map_of_cell_text: "map_of (map (\<lambda>(k, v). (k, cell_text v)) row) f = map_option cell_text (map_of row f)"
  by (induction row) auto

lemma dict_row_full:
  assumes "full_row cols row"
  shows "dict_row cols (map (\<lambda>(k, v). (k, cell_text v)) row) = Inr (full_line cols row)"
proof -
  have keys: "map fst (map (\<lambda>(k, v). (k, cell_text v)) row) = map fst row" by auto
  have found: "map_of row f \<noteq> None" if "f \<in> set cols" for f
    using that assms by (auto simp: full_row_def map_of_eq_None_iff)
  have known: "filter (\<lambda>k. k \<notin> set cols) (map fst row) = []"
    using assms by (auto simp: full_row_def filter_empty_conv)
  have texts: "map (\<lambda>f. case map_of (map (\<lambda>(k, v). (k, cell_text v)) row) f of None \<Rightarrow> '''' | Some v \<Rightarrow> v) cols =
      map (\<lambda>f. cell_text (the (map_of row f))) cols"
  proof (rule map_cong [OF refl])
    fix f assume "f \<in> set cols"
    from found [OF this] show "(case map_of (map (\<lambda>(k, v). (k, cell_text v)) row) f of None \<Rightarrow> '''' | Some v \<Rightarrow> v) =
        cell_text (the (map_of row f))" by (auto simp: map_of_cell_text)
  qed
  show ?thesis unfolding dict_row_def Let_def keys known texts full_line_def by simp
qed

lemma write_rows_full:
  assumes "\<forall>row \<in> set rows. full_row cols row"
  shows "write_rows cols rows = Inr (csv_row cols @ concat (map (full_line cols) rows))"
proof -
  have "res_map (dict_row cols) (map (map (\<lambda>(k, v). (k, cell_text v))) rows) = Inr (map (full_line cols) rows)"
    using assms by (induction rows) (simp_all add: dict_row_full)
  then show ?thesis by (simp add: write_rows_def dict_table_def)
qed

lemma res_map_members:
  assumes "res_map f xs = Inr ys" and "y \<in> set ys" obtains x where "f x = Inr y"
  using assms by (auto simp: res_map_Inr list_all2_conv_all_nth in_set_conv_nth)

text \<open>The three tables.\<close>

lemma p8_application_full: "p8_application samples = Inr rows \<Longrightarrow> row \<in> set rows \<Longrightarrow> full_row p8_application_fields row"
proof -
  assume "p8_application samples = Inr rows" "row \<in> set rows"
  then obtain g n where "p8_application_row g n = Inr row"
    by (auto simp: p8_application_def res_simps elim: res_map_members)
  then show ?thesis
    unfolding p8_application_row_Inr full_row_def p8_application_fields_def overhead_cells_def
    by auto
qed

lemma p8_performance_full: "p8_performance samples = Inr rows \<Longrightarrow> row \<in> set rows \<Longrightarrow> full_row p8_performance_fields row"
proof -
  assume "p8_performance samples = Inr rows" "row \<in> set rows"
  then obtain g n where "p8_performance_row g n = Inr row"
    by (auto simp: p8_performance_def res_simps elim: res_map_members)
  then show ?thesis
    unfolding p8_performance_row_Inr full_row_def p8_performance_fields_def overhead_cells_def
    by auto
qed

lemma p9a_full: "p9a_application samples = Inr rows \<Longrightarrow> row \<in> set rows \<Longrightarrow> full_row p9a_fields row"
proof -
  assume "p9a_application samples = Inr rows" "row \<in> set rows"
  then obtain g n where "p9a_row g n = Inr row"
    by (auto simp: p9a_application_def res_simps elim: res_map_members)
  then have "map fst row =
     [''workload'', ''repetitions'', ''rlbox_median_ms'', ''rlbox_mean_ms'', ''tracked_median_ms'', ''tracked_mean_ms'',
      ''extended_median_ms'', ''extended_mean_ms''] @
     concat (map (\<lambda>p. map (\<lambda>q. p @ q) [''_median_pct'', ''_mean_pct'', ''_min_pct'', ''_max_pct''])
       [''tracking_overhead'', ''validation_overhead'', ''total_overhead''])" (is "_ = ?keys")
    unfolding p9a_row_Inr overhead_cells_def p9a_mode_cells_def Let_def by auto
  moreover have "set ?keys = set p9a_fields" by code_simp
  ultimately show ?thesis unfolding full_row_def by (simp only:)
qed

section \<open>Writing never raises\<close>

text \<open>
  The tables are written without an exception, one line per workload after the header, with the
  text of a cell in every column: the keys of the rows and the field list of the writer, which
  the code states apart and in different orders, are the same.
\<close>

lemma tables_written:
  assumes "p8_application samples = Inr rows8" and "p8_performance timings = Inr rows" and "p9a_application triples = Inr rows9"
  shows "p8_application_write rows8 =
      Inr (csv_row p8_application_fields @ concat (map (full_line p8_application_fields) rows8)) \<and>
    p8_performance_write rows =
      Inr (csv_row p8_performance_fields @ concat (map (full_line p8_performance_fields) rows)) \<and>
    p9a_write rows9 = Inr (csv_row p9a_fields @ concat (map (full_line p9a_fields) rows9))"
  using assms unfolding p8_application_write_def p8_performance_write_def p9a_write_def
  by (intro conjI write_rows_full ballI) (auto intro: p8_application_full p8_performance_full p9a_full)

end
