(* ===== verification/ReportFacts.thy ===== *)
theory ReportFacts
  imports Reports
begin

text \<open>
  What the reports promise, stated on the manifest and the files: when a boundary is fully
  integrated, when the integration report and the P8 report are complete, and the arithmetic of
  the counts.
\<close>

section \<open>A boundary\<close>

text \<open>The full integration of a boundary, read off the manifest entry and the files.\<close>

definition integrated :: "(string \<rightharpoonup> report_doc) \<Rightarrow> boundary_entry \<Rightarrow> bool" where
  "integrated files e \<longleftrightarrow>
     be_status e = ''full'' \<and> truthy (be_policy e) \<and> is_file files (be_policy e) \<and>
     (truthy (be_boundary_policy e) \<longrightarrow> is_file files (be_boundary_policy e) \<and>
        set (rd_helpers (load_json files (be_boundary_policy e)))
          \<subseteq> {None, Some ''integration'', Some ''adversarial''}) \<and>
     truthy (be_source_revision e)"

definition role_of :: "boundary_entry \<Rightarrow> string" where
  "role_of e = (case be_role e of None \<Rightarrow> ''p7c'' | Some r \<Rightarrow> r)"

lemma helper_role_cases:
  "helper_role h \<notin> {''integration'', ''adversarial''} \<longleftrightarrow> h \<notin> {None, Some ''integration'', Some ''adversarial''}"
  by (cases h) (auto simp: helper_role_def)

lemma missing_parts_Nil:
  "missing_parts files e = [] \<longleftrightarrow>
     truthy (be_policy e) \<and> is_file files (be_policy e) \<and>
     (truthy (be_boundary_policy e) \<longrightarrow> is_file files (be_boundary_policy e)) \<and> truthy (be_source_revision e)"
  by (auto simp: missing_parts_def)

lemma metric_identity [simp]:
  "bm_name (boundary_metrics files e) = be_name e"
  "bm_role (boundary_metrics files e) = role_of e"
  "bm_status (boundary_metrics files e) = be_status e"
  "bm_pointer_shapes (boundary_metrics files e) = be_pointer_shapes e"
  by (simp_all add: boundary_metrics_def role_of_def Let_def)

lemma metric_complete: "bm_complete (boundary_metrics files e) \<longleftrightarrow> integrated files e"
proof -
  let ?helpers = "if truthy (be_boundary_policy e) then rd_helpers (load_json files (be_boundary_policy e)) else []"
  have "filter (\<lambda>h. helper_role h \<notin> {''integration'', ''adversarial''}) ?helpers = [] \<longleftrightarrow>
      set ?helpers \<subseteq> {None, Some ''integration'', Some ''adversarial''}"
    unfolding helper_role_cases by (auto simp: filter_empty_conv)
  then show ?thesis
    unfolding bm_complete_def boundary_metrics_def Let_def integrated_def
    by (auto simp: missing_parts_Nil)
qed

text \<open>The counts of a complete result.\<close>

lemma metric_counts:
  assumes "bm_counts (boundary_metrics files e) = Some c"
  shows "bc_source_revision c = the (be_source_revision e)" and "bc_adversarial c = be_adversarial e"
    and "bc_trusted_uses c = length (rd_uses (load_json files (be_policy e)))"
    and "bc_inferred_allocation_sites c = length (rd_allocations (load_json files (be_policy e)))"
    and "bc_precise_source_allocation_sites c \<le> bc_inferred_allocation_sites c"
    and "bc_allocation_sites c = bc_inferred_allocation_sites c + bc_helper_sites c"
    and "bc_integration_helper_sites c + bc_adversarial_helper_sites c = bc_helper_sites c"
    and "bc_precise_source_fraction c =
      fraction (bc_precise_source_allocation_sites c) (bc_inferred_allocation_sites c)"
proof -
  let ?helpers = "if truthy (be_boundary_policy e) then rd_helpers (load_json files (be_boundary_policy e)) else []"
  have u: "filter (\<lambda>h. helper_role h \<notin> {''integration'', ''adversarial''}) ?helpers = []"
    and c: "c = \<lparr>bc_allocation_sites = length (rd_allocations (load_json files (be_policy e))) + length ?helpers,
                  bc_inferred_allocation_sites = length (rd_allocations (load_json files (be_policy e))),
                  bc_precise_source_allocation_sites = length (filter (\<lambda>a. ae_site a \<noteq> None) (rd_allocations (load_json files (be_policy e)))),
                  bc_precise_source_fraction = fraction (length (filter (\<lambda>a. ae_site a \<noteq> None) (rd_allocations (load_json files (be_policy e)))))
                    (length (rd_allocations (load_json files (be_policy e)))),
                  bc_trusted_uses = length (rd_uses (load_json files (be_policy e))),
                  bc_helper_sites = length ?helpers,
                  bc_integration_helper_sites = length (filter (\<lambda>h. helper_role h = ''integration'') ?helpers),
                  bc_adversarial_helper_sites = length (filter (\<lambda>h. helper_role h = ''adversarial'') ?helpers),
                  bc_adversarial = be_adversarial e,
                  bc_source_revision = the (be_source_revision e)\<rparr>"
    using assms unfolding boundary_metrics_def Let_def by (simp_all split: if_splits)
  show "bc_source_revision c = the (be_source_revision e)" "bc_adversarial c = be_adversarial e"
    "bc_trusted_uses c = length (rd_uses (load_json files (be_policy e)))"
    "bc_inferred_allocation_sites c = length (rd_allocations (load_json files (be_policy e)))"
    "bc_precise_source_allocation_sites c \<le> bc_inferred_allocation_sites c"
    "bc_allocation_sites c = bc_inferred_allocation_sites c + bc_helper_sites c"
    "bc_precise_source_fraction c =
      fraction (bc_precise_source_allocation_sites c) (bc_inferred_allocation_sites c)"
    unfolding c by simp_all
  have split: "length (filter (\<lambda>h. helper_role h = ''integration'') hs) +
      length (filter (\<lambda>h. helper_role h = ''adversarial'') hs) = length hs"
    if "filter (\<lambda>h. helper_role h \<notin> {''integration'', ''adversarial''}) hs = []" for hs
    using that by (induction hs) (auto split: if_splits)
  show "bc_integration_helper_sites c + bc_adversarial_helper_sites c = bc_helper_sites c"
    unfolding c using split [OF u] by simp
qed

section \<open>The integration report\<close>

lemma sorted_set_Nil [simp]: "sorted_set xs = [] \<longleftrightarrow> xs = []"
  by (metis set_empty set_remdups set_sort sorted_set_def)

lemma set_sorted_set [simp]: "set (sorted_set xs) = set xs"
  by (simp add: sorted_set_def)

lemma report_complete_iff:
  "ir_complete (build_report files m) \<longleftrightarrow>
     mf_required_new_boundaries m \<le> int (length (filter (\<lambda>e. role_of e = ''p7c'') (mf_boundaries m))) \<and>
     (\<forall>e \<in> set (mf_boundaries m). role_of e = ''p7c'' \<longrightarrow> integrated files e) \<and>
     (\<forall>s \<in> set (mf_required_pointer_shapes m).
        \<exists>e \<in> set (mf_boundaries m). role_of e = ''p7c'' \<and> s \<in> set (be_pointer_shapes e))"
proof -
  let ?p7c = "filter (\<lambda>b. bm_role b = ''p7c'') (map (boundary_metrics files) (mf_boundaries m))"
  have p7c: "?p7c = map (boundary_metrics files) (filter (\<lambda>e. role_of e = ''p7c'') (mf_boundaries m))"
    by (simp add: filter_map o_def)
  have ir: "ir_complete (build_report files m) \<longleftrightarrow>
      mf_required_new_boundaries m \<le> int (length (filter bm_complete ?p7c)) \<and>
      (\<forall>s \<in> set (mf_required_pointer_shapes m). \<exists>b \<in> set (filter bm_complete ?p7c). s \<in> set (bm_pointer_shapes b)) \<and>
      list_all bm_complete ?p7c"
    unfolding build_report_def Let_def by (auto simp: filter_empty_conv)
  have full: "list_all bm_complete ?p7c \<longleftrightarrow>
      (\<forall>e \<in> set (mf_boundaries m). role_of e = ''p7c'' \<longrightarrow> integrated files e)"
    unfolding p7c by (auto simp: list_all_iff metric_complete)
  show ?thesis
  proof (cases "list_all bm_complete ?p7c")
    case True
    then have f: "filter bm_complete ?p7c = ?p7c" unfolding list_all_iff by (rule filter_True)
    show ?thesis unfolding ir f full [symmetric] using True unfolding p7c by auto
  next
    case False
    then show ?thesis unfolding ir full [symmetric] by blast
  qed
qed

section \<open>The P8 report\<close>

lemma fraction_bounds: "part \<le> whole \<Longrightarrow> 0 \<le> fraction part whole \<and> fraction part whole \<le> 1"
proof -
  assume le: "part \<le> whole"
  have "fl 1 = 1" by code_simp
  then show ?thesis
    using fl_mono [of 0 "of_nat part / of_nat whole"] fl_mono [of "of_nat part / of_nat whole" 1] le
    by (auto simp: fraction_def)
qed

lemma truthy_the: "truthy s \<longleftrightarrow> s \<noteq> None \<and> the s \<noteq> []"
  by (cases s) (auto simp: truthy_def)

lemma count_of_metric:
  "count_of bc_source_revision [] (boundary_metrics files e) = [] \<longleftrightarrow> \<not> integrated files e"
  "count_of bc_trusted_uses 0 (boundary_metrics files e) < 1 \<longleftrightarrow>
     \<not> (integrated files e \<and> rd_uses (load_json files (be_policy e)) \<noteq> [])"
  "count_of bc_adversarial [] (boundary_metrics files e) = [] \<longleftrightarrow> \<not> (integrated files e \<and> be_adversarial e \<noteq> [])"
proof -
  let ?m = "boundary_metrics files e"
  have "(count_of bc_source_revision [] ?m = [] \<longleftrightarrow> \<not> integrated files e) \<and>
    (count_of bc_trusted_uses 0 ?m < 1 \<longleftrightarrow> \<not> (integrated files e \<and> rd_uses (load_json files (be_policy e)) \<noteq> [])) \<and>
    (count_of bc_adversarial [] ?m = [] \<longleftrightarrow> \<not> (integrated files e \<and> be_adversarial e \<noteq> []))"
  proof (cases "bm_counts ?m")
    case None
    then have "\<not> integrated files e" using metric_complete [of files e] by (simp add: bm_complete_def)
    with None show ?thesis by (simp add: count_of_def)
  next
    case (Some c)
    then have i: "integrated files e" using metric_complete [of files e] by (simp add: bm_complete_def)
    then have "the (be_source_revision e) \<noteq> []" by (simp add: integrated_def truthy_the)
    with i metric_counts(1-3) [OF Some] Some show ?thesis by (simp add: count_of_def less_Suc_eq_0_disj)
  qed
  then show
    "count_of bc_source_revision [] ?m = [] \<longleftrightarrow> \<not> integrated files e"
    "count_of bc_trusted_uses 0 ?m < 1 \<longleftrightarrow> \<not> (integrated files e \<and> rd_uses (load_json files (be_policy e)) \<noteq> [])"
    "count_of bc_adversarial [] ?m = [] \<longleftrightarrow> \<not> (integrated files e \<and> be_adversarial e \<noteq> [])"
    by blast+
qed

section \<open>Properties\<close>

text \<open>
  Property C34.  The P8 report is complete exactly if every security case passed, enough new
  boundaries are listed, every required pointer shape occurs in a new boundary, and every
  new or baseline boundary is fully integrated: its status is full, its policy (and boundary policy, if it
  names one) exists, its source revision is given and its helpers have known roles; a new or
  baseline boundary also has a trusted use and adversarial cases.
\<close>

theorem p8_complete_iff:
  assumes "build_p8 files rows m = Inr r"
  shows "pr_deterministic_complete r \<longleftrightarrow>
    (\<forall>row \<in> set rows. security_field ''result'' row = ''pass'') \<and>
    mf_required_new_boundaries m \<le> int (length (filter (\<lambda>e. role_of e = ''p7c'') (mf_boundaries m))) \<and>
    (\<forall>s \<in> set (mf_required_pointer_shapes m).
       \<exists>e \<in> set (mf_boundaries m). role_of e = ''p7c'' \<and> s \<in> set (be_pointer_shapes e)) \<and>
    (\<forall>e \<in> set (mf_boundaries m). role_of e \<in> {''baseline'', ''p7c''} \<longrightarrow>
       integrated files e \<and> rd_uses (load_json files (be_policy e)) \<noteq> [] \<and> be_adversarial e \<noteq> [])"
proof -
  let ?real = "filter (\<lambda>b. bm_role b \<in> {''baseline'', ''p7c''}) (map (boundary_metrics files) (mf_boundaries m))"
  have b: "ir_boundaries (build_report files m) = map (boundary_metrics files) (mf_boundaries m)"
    by (simp add: build_report_def Let_def)
  have l: "load_security_csv rows = Inr rows"
  proof (cases "load_security_csv rows")
    case (Inl e)
    with assms show ?thesis by (simp add: build_p8_def)
  qed (simp add: load_security_csv_def split: if_splits)
  have "pr_deterministic_complete r \<longleftrightarrow>
      filter (\<lambda>row. security_field ''result'' row \<noteq> ''pass'') rows = [] \<and> ir_complete (build_report files m) \<and>
      filter (\<lambda>b. count_of bc_source_revision [] b = []) ?real = [] \<and>
      filter (\<lambda>b. count_of bc_trusted_uses 0 b < 1) ?real = [] \<and>
      filter (\<lambda>b. count_of bc_adversarial [] b = []) ?real = []"
    using assms [symmetric] unfolding build_p8_def l res_bind_simps Let_def b sum.inject
    by (simp only: p8_report.select_convs map_is_Nil_conv)
  also have "\<dots> \<longleftrightarrow> (\<forall>row \<in> set rows. security_field ''result'' row = ''pass'') \<and> ir_complete (build_report files m) \<and>
      (\<forall>e \<in> set (mf_boundaries m). role_of e \<in> {''baseline'', ''p7c''} \<longrightarrow>
         integrated files e \<and> rd_uses (load_json files (be_policy e)) \<noteq> [] \<and> be_adversarial e \<noteq> [])"
  proof -
    have real: "filter P ?real = [] \<longleftrightarrow>
        (\<forall>e \<in> set (mf_boundaries m). role_of e \<in> {''baseline'', ''p7c''} \<longrightarrow> \<not> P (boundary_metrics files e))" for P
      unfolding filter_empty_conv by auto
    have cases: "filter (\<lambda>row. security_field ''result'' row \<noteq> ''pass'') rows = [] \<longleftrightarrow>
        (\<forall>row \<in> set rows. security_field ''result'' row = ''pass'')"
      by (auto simp: filter_empty_conv)
    show ?thesis unfolding real count_of_metric cases by blast
  qed
  finally show ?thesis unfolding report_complete_iff by blast
qed

text \<open>A repository with one new and one baseline boundary, for evaluating the reports.\<close>

definition example_files :: "string \<rightharpoonup> report_doc" where
  "example_files =
     [''popt.json'' \<mapsto> \<lparr>rd_allocations = [\<lparr>ae_function = ''f'', ae_type = ''T'', ae_site = None\<rparr>],
        rd_uses = [\<lparr>ue_name = ''u'', ue_type = ''T'', ue_offset = 0, ue_bytes = Some 8, ue_dynamic = False\<rparr>],
        rd_helpers = []\<rparr>,
      ''popt_boundary.json'' \<mapsto> \<lparr>rd_allocations = [], rd_uses = [], rd_helpers = [None, Some ''adversarial'']\<rparr>]"

definition example_entry :: "string option \<Rightarrow> boundary_entry" where
  "example_entry role = \<lparr>be_name = ''popt'', be_role = role, be_status = ''full'',
     be_pointer_shapes = [''struct''], be_policy = Some ''popt.json'', be_boundary_policy = Some ''popt_boundary.json'',
     be_source_revision = Some ''abc'', be_adversarial = [''wrong type'']\<rparr>"

definition example_manifest :: integration_manifest where
  "example_manifest = \<lparr>mf_boundaries = [example_entry None, example_entry (Some ''baseline'')],
     mf_required_pointer_shapes = [''struct''], mf_required_new_boundaries = 1, mf_schema_version = 1\<rparr>"

definition example_security :: "(string \<times> string) list list" where
  "example_security =
     [[(''case'', ''uaf''), (''expected'', ''reject''), (''actual'', ''reject''), (''result'', ''pass'')]]"

lemma example_accepted:
  "build_p8 example_files example_security example_manifest =
     Inr (projr (build_p8 example_files example_security example_manifest))"
  by (simp add: build_p8_def load_security_csv_def example_security_def Let_def insert_commute)

theorem p8_complete_iff_witness:
  "pr_deterministic_complete (projr (build_p8 example_files example_security example_manifest))"
  unfolding p8_complete_iff [OF example_accepted] by code_simp

text \<open>
  Property C35.  The counts of the reports add up: in every boundary result with counts the precise sites are
  among the inferred ones, the allocation sites are the inferred ones and the helpers, and the
  helpers are the integration and the adversarial ones; all fractions lie between 0 and 1, and
  the overall fraction is the one of the sums, from which the adversarial helpers are left out.
\<close>

theorem report_counts:
  assumes "build_p8 files rows m = Inr r" and "b \<in> set (ir_boundaries (pr_generalization r))" and "bm_counts b = Some c"
  shows "bc_precise_source_allocation_sites c \<le> bc_inferred_allocation_sites c \<and>
    bc_allocation_sites c = bc_inferred_allocation_sites c + bc_helper_sites c \<and>
    bc_integration_helper_sites c + bc_adversarial_helper_sites c = bc_helper_sites c \<and>
    0 \<le> bc_precise_source_fraction c \<and> bc_precise_source_fraction c \<le> 1 \<and>
    pr_precise_source_allocation_sites r \<le> pr_inferred_allocation_sites r \<and>
    pr_source_derived_fraction r =
      fraction (pr_inferred_allocation_sites r) (pr_inferred_allocation_sites r + pr_integration_helper_sites r) \<and>
    0 \<le> pr_source_derived_fraction r \<and> pr_source_derived_fraction r \<le> 1 \<and>
    pr_passed r + length (pr_failed_cases r) = pr_case_count r"
proof -
  obtain security where l: "load_security_csv rows = Inr security" using assms(1) by (auto simp: build_p8_def res_simps)
  let ?ms = "map (boundary_metrics files) (mf_boundaries m)"
  have ir: "ir_boundaries (build_report files m) = ?ms" by (simp add: build_report_def Let_def)
  note r = assms(1) [symmetric, unfolded build_p8_def l res_bind_simps Let_def ir sum.inject]
  have "b \<in> set ?ms" using assms(2) unfolding r by (simp add: ir)
  then obtain e where e: "bm_counts (boundary_metrics files e) = Some c" using assms(3) by auto
  have "count_of bc_precise_source_allocation_sites 0 x \<le> count_of bc_inferred_allocation_sites 0 x" if "x \<in> set ?ms" for x
    using that metric_counts(5) by (auto simp: count_of_def split: option.split)
  then have "sum_list (map (count_of bc_precise_source_allocation_sites 0) (filter P ?ms)) \<le>
      sum_list (map (count_of bc_inferred_allocation_sites 0) (filter P ?ms))" for P
    by (intro sum_list_mono) simp
  then have "pr_precise_source_allocation_sites r \<le> pr_inferred_allocation_sites r" unfolding r by simp
  moreover have f: "pr_source_derived_fraction r =
      fraction (pr_inferred_allocation_sites r) (pr_inferred_allocation_sites r + pr_integration_helper_sites r)"
    unfolding r by simp
  moreover have "0 \<le> pr_source_derived_fraction r \<and> pr_source_derived_fraction r \<le> 1"
    unfolding f by (rule fraction_bounds) simp
  moreover have "pr_passed r + length (pr_failed_cases r) = pr_case_count r"
    unfolding r by (simp add: length_filter_le)
  ultimately show ?thesis
    using metric_counts(5-7) [OF e] fraction_bounds [OF metric_counts(5) [OF e]] unfolding metric_counts(8) [OF e] by blast
qed

definition example_counts :: boundary_counts where
  "example_counts = the (bm_counts (boundary_metrics example_files (example_entry None)))"

theorem report_counts_witness:
  "bc_integration_helper_sites example_counts = 1 \<and>
   bc_integration_helper_sites example_counts + bc_adversarial_helper_sites example_counts = bc_helper_sites example_counts"
proof -
  have "Option.is_none (bm_counts (boundary_metrics example_files (example_entry None))) = False" by code_simp
  then have c: "bm_counts (boundary_metrics example_files (example_entry None)) = Some example_counts"
    by (cases "bm_counts (boundary_metrics example_files (example_entry None))") (simp_all add: example_counts_def)
  have one: "bc_integration_helper_sites example_counts = 1" by code_simp
  have "boundary_metrics example_files (example_entry None) \<in>
      set (ir_boundaries (pr_generalization (projr (build_p8 example_files example_security example_manifest))))"
    by code_simp
  from report_counts [OF example_accepted this c] one show ?thesis by blast
qed

end
