(* ===== verification/RenderFacts.thy ===== *)
theory RenderFacts
  imports Render SummaryTables ReportFacts
begin

text \<open>
  The numbers the tables hold are read back by the pages: a fixed-point text is a float literal,
  and its value is the number rounded to its last digit.  So every table the summary tools make
  can be rendered.
\<close>

section \<open>Reading a printed number\<close>

definition printed :: "nat \<Rightarrow> signed_float \<Rightarrow> nat" where
  "printed digits x = nat (round_half_even (abs (snd x) * 10 ^ digits))"

lemma float_digits_run:
  "list_all is_digit s \<Longrightarrow> s \<noteq> [] \<Longrightarrow>
     float_digits acc k gap (s @ t) = float_digits (foldl (\<lambda>a c. a * 10 + (code_point c - 48)) acc s) (k + length s) False t"
proof (induction s arbitrary: acc k gap)
  case (Cons c s)
  then show ?case by (cases "s = []") simp_all
qed simp

lemma foldl_digits:
  "foldl (\<lambda>a c. a * 10 + (code_point c - 48)) acc s =
     acc * 10 ^ length s + foldl (\<lambda>a c. a * 10 + (code_point c - 48)) 0 s" for acc :: nat
proof (induction s arbitrary: acc)
  case (Cons c s)
  show ?case using Cons [of "acc * 10 + (code_point c - 48)"] Cons [of "code_point c - 48"] by (simp add: algebra_simps)
qed simp

lemma foldl_nat_str: "foldl (\<lambda>a c. a * 10 + (code_point c - 48)) 0 (nat_str n) = n"
proof (induction n rule: nat_str.induct)
  case (1 n)
  show ?case
  proof (cases "n < 10")
    case True
    then show ?thesis by (subst nat_str.simps) (simp add: digit_char_code)
  next
    case False
    then show ?thesis using 1 by (subst nat_str.simps) (simp add: digit_char_code)
  qed
qed

lemma length_nat_str: "0 < d \<Longrightarrow> n < 10 ^ d \<Longrightarrow> length (nat_str n) \<le> d"
proof (induction n arbitrary: d rule: nat_str.induct)
  case (1 n)
  show ?case
  proof (cases "n < 10")
    case True
    with 1(2) show ?thesis by (subst nat_str.simps) simp
  next
    case False
    with 1(3) have "d \<noteq> 1" by (auto)
    with 1(2) obtain e where e: "d = Suc e" "0 < e" by (cases d) auto
    then have "n div 10 < 10 ^ e" using 1(3) by (simp add: div_less_iff_less_mult mult.commute)
    from 1(1) [OF False e(2) this] show ?thesis using False e(1) by (subst nat_str.simps) simp
  qed
qed

lemma zero_padded_props:
  assumes "0 < d" and "n < 10 ^ d"
  shows "length (zero_padded d n) = d" and "list_all is_digit (zero_padded d n)" and "zero_padded d n \<noteq> []"
    and "foldl (\<lambda>a c. a * 10 + (code_point c - 48)) 0 (zero_padded d n) = n"
proof -
  show len: "length (zero_padded d n) = d" using length_nat_str [OF assms] by (simp add: zero_padded_def Let_def)
  show "zero_padded d n \<noteq> []" using len assms(1) by auto
  have zero: "is_digit (CHR ''0'')" "code_point (CHR ''0'') = 48" by code_simp+
  show "list_all is_digit (zero_padded d n)"
    using nat_str_digits [of n] zero(1) by (auto simp: zero_padded_def Let_def list_all_iff)
  have "foldl (\<lambda>a c. a * 10 + (code_point c - 48)) 0 (replicate k (CHR ''0'')) = 0" for k
    by (induction k) (simp_all add: zero(2))
  then show "foldl (\<lambda>a c. a * 10 + (code_point c - 48)) 0 (zero_padded d n) = n"
    by (simp add: zero_padded_def Let_def foldl_nat_str)
qed

lemma float_magnitude_fixed:
  assumes "0 < d" shows "float_magnitude (fixed_magnitude d n) = Some (of_nat n / 10 ^ d)"
proof -
  let ?a = "n div 10 ^ d" and ?b = "n mod 10 ^ d"
  note b = zero_padded_props [OF assms, of ?b]
  have a: "list_all is_digit (nat_str ?a)" "nat_str ?a \<noteq> []" using nat_str_digits [of ?a] by simp_all
  have whole: "float_digits 0 0 True (nat_str ?a @ ''.'' @ zero_padded d ?b) =
      Some (?a, length (nat_str ?a), ''.'' @ zero_padded d ?b)"
    unfolding float_digits_run [OF a] foldl_nat_str by (simp add: is_digit_def code_point_def)
  have "?a * 10 ^ d + ?b = n" by (rule div_mult_mod_eq)
  then have frac: "float_digits ?a 0 True (zero_padded d ?b) = Some (n, d, [])"
    using float_digits_run [OF b(2,3), of ?a 0 True "[]"] foldl_digits [of ?a "zero_padded d ?b"] b(1,4) assms by simp
  show ?thesis
    unfolding float_magnitude_def fixed_magnitude_def whole
    by (simp add: frac assms float_exponent_def power_int_minus divide_inverse)
qed

lemma py_float_fixed:
  assumes "0 < d"
  shows "py_float (fixed_format d x) =
    Some (fst x, (if fst x then - 1 else 1) * fl (of_nat (printed d x) / 10 ^ d))"
proof -
  let ?m = "fixed_magnitude d (printed d x)"
  have m: "?m \<noteq> []" "is_digit (hd ?m)" "is_digit (last ?m)"
    using nat_str_ends(1) zero_padded_props [OF assms, of "printed d x mod 10 ^ d"]
    by (auto simp: fixed_magnitude_def list_all_iff hd_append)
  obtain c cs where c: "?m = c # cs" using m(1) by (cases ?m) auto
  then have sign: "c \<noteq> CHR ''-''" "c \<noteq> CHR ''+''" using m(2) by (auto simp: is_digit_def code_point_def)
  have "strip_blanks (fixed_format d x) = fixed_format d x"
    using m by (intro strip_blanks_solid) (auto simp: fixed_format_def printed_def [symmetric] int_blank_digit, simp_all add: int_blank_def code_point_def)
  then show ?thesis
    using float_magnitude_fixed [OF assms, of "printed d x"] c sign
    by (cases "fst x") (simp_all add: py_float_def fixed_format_def printed_def [symmetric])
qed

section \<open>Tables that are read back\<close>

text \<open>The dictionary that the CSV reader returns for a written row, with the columns in file order.\<close>

definition read_back :: "string list \<Rightarrow> summary_row \<Rightarrow> (string \<times> string) list" where
  "read_back cols row = map (\<lambda>f. (f, cell_text (the (map_of row f)))) cols"

definition numeric_row :: "summary_row \<Rightarrow> bool" where
  "numeric_row row \<longleftrightarrow>
     list_all (\<lambda>(k, c). k \<in> {''workload'', ''boundary'', ''repetitions''} \<or> (case c of Flt _ \<Rightarrow> True | _ \<Rightarrow> False)) row"

lemma map_of_read_back: "f \<in> set cols \<Longrightarrow> map_of (read_back cols row) f = Some (cell_text (the (map_of row f)))"
  by (induction cols) (auto simp: read_back_def)

lemma column_read_back: "f \<in> set cols \<Longrightarrow> \<exists>s. column (read_back cols row) f = Inr s"
  by (simp add: column_def map_of_read_back)

lemma number_read_back:
  assumes "full_row cols row" and "numeric_row row" and "f \<in> set cols" and "f \<notin> {''workload'', ''boundary'', ''repetitions''}"
  obtains x where "signed_column (read_back cols row) f = Inr x"
proof -
  have "f \<in> fst ` set row" using assms(1,3) by (auto simp: full_row_def)
  then obtain c where c: "map_of row f = Some c" using map_of_eq_None_iff [of row f] by auto
  then have "(f, c) \<in> set row" by (rule map_of_SomeD)
  with assms(2,4) obtain q where q: "c = Flt q" by (cases c) (auto simp: numeric_row_def list_all_iff)
  then have "py_float (cell_text c) \<noteq> None" using py_float_fixed [of 6 "(q < 0, q)"] by (simp add: cell_text_def)
  then show thesis using that assms(3) c by (auto simp: signed_column_def column_def map_of_read_back)
qed

lemma numeric_cells: "numeric_row (overhead_cells p zs @ row) \<longleftrightarrow> numeric_row row"
  by (simp add: numeric_row_def overhead_cells_def)

lemma numeric_append: "numeric_row (a @ b) \<longleftrightarrow> numeric_row a \<and> numeric_row b"
  by (simp add: numeric_row_def)

lemma numeric_overheads: "numeric_row (overhead_cells p zs)"
  by (simp add: numeric_row_def overhead_cells_def)

lemma numeric_modes: "numeric_row (p9a_mode_cells d n)"
  by (simp add: numeric_row_def p9a_mode_cells_def Let_def)

lemma p8_application_numeric: "p8_application samples = Inr rows \<Longrightarrow> row \<in> set rows \<Longrightarrow> numeric_row row"
proof -
  assume "p8_application samples = Inr rows" "row \<in> set rows"
  then obtain g n where "p8_application_row g n = Inr row"
    by (auto simp: p8_application_def res_simps elim: res_map_members)
  then show ?thesis unfolding p8_application_row_Inr
    by (elim conjE exE) (simp only: numeric_append numeric_overheads, simp add: numeric_row_def)
qed

lemma p8_performance_numeric: "p8_performance samples = Inr rows \<Longrightarrow> row \<in> set rows \<Longrightarrow> numeric_row row"
proof -
  assume "p8_performance samples = Inr rows" "row \<in> set rows"
  then obtain g n where "p8_performance_row g n = Inr row"
    by (auto simp: p8_performance_def res_simps elim: res_map_members)
  then show ?thesis unfolding p8_performance_row_Inr
    by (elim conjE exE) (simp only: numeric_append numeric_overheads, simp add: numeric_row_def)
qed

lemma p9a_numeric: "p9a_application samples = Inr rows \<Longrightarrow> row \<in> set rows \<Longrightarrow> numeric_row row"
proof -
  assume "p9a_application samples = Inr rows" "row \<in> set rows"
  then obtain g n where "p9a_row g n = Inr row"
    by (auto simp: p9a_application_def res_simps elim: res_map_members)
  then show ?thesis unfolding p9a_row_Inr
    by (elim conjE exE) (simp only: numeric_append numeric_overheads numeric_modes, simp add: numeric_row_def)
qed

section \<open>The runtime table\<close>

text \<open>
  The rows of the runtime benchmark, which come from outside these tools: what a row must have
  for the page, which rows the page shows, and their text.
\<close>

definition int_text :: "(string \<times> string) list \<Rightarrow> string \<Rightarrow> int option" where
  "int_text row name = Option.bind (map_of row name) py_int"

definition float_text :: "(string \<times> string) list \<Rightarrow> string \<Rightarrow> signed_float option" where
  "float_text row name = Option.bind (map_of row name) py_float"

definition shown_metric :: "(string \<times> string) list \<Rightarrow> bool" where
  "shown_metric row \<longleftrightarrow> map_of row ''metric'' \<in> {Some ''check_live'', Some ''remaining_bytes''}"

definition runtime_shown :: "(string \<times> string) list \<Rightarrow> bool" where
  "runtime_shown row \<longleftrightarrow> shown_metric row \<and> int_text row ''threads'' = Some 1 \<and>
     int_text row ''population'' \<in> {Some 1, Some 256, Some 4096, Some 16384}"

definition runtime_decided :: "(string \<times> string) list \<Rightarrow> bool" where
  "runtime_decided row \<longleftrightarrow> map_of row ''metric'' \<noteq> None \<and>
     (shown_metric row \<longrightarrow> int_text row ''threads'' \<noteq> None \<and>
       (int_text row ''threads'' = Some 1 \<longrightarrow> int_text row ''population'' \<noteq> None))"

definition runtime_row_ok :: "(string \<times> string) list \<Rightarrow> bool" where
  "runtime_row_ok row \<longleftrightarrow> runtime_decided row \<and> (runtime_shown row \<longrightarrow> float_text row ''ns_per_op'' \<noteq> None)"

definition runtime_line :: "(string \<times> string) list \<Rightarrow> string" where
  "runtime_line row = table_row [the (map_of row ''population''), the (map_of row ''metric''),
     fixed_format 2 (the (float_text row ''ns_per_op''))]"

text \<open>The shown rows by population and metric, equal ones in the order of the table.\<close>

definition runtime_order :: "(string \<times> string) list list \<Rightarrow> (string \<times> string) list list \<Rightarrow> bool" where
  "runtime_order rows shown \<longleftrightarrow>
     sorted (map (\<lambda>r. (the (int_text r ''population''), the (map_of r ''metric''))) shown) \<and>
     (\<forall>k m. filter (\<lambda>r. int_text r ''population'' = Some k \<and> map_of r ''metric'' = Some m) shown =
        filter (\<lambda>r. runtime_shown r \<and> int_text r ''population'' = Some k \<and> map_of r ''metric'' = Some m) rows) \<and>
     length shown = length (filter runtime_shown rows)"

lemma selected_runtime_row_Inr:
  "selected_runtime_row row = Inr b \<longleftrightarrow> runtime_decided row \<and> b = runtime_shown row"
proof (cases "map_of row ''metric''")
  case None
  then show ?thesis by (simp add: selected_runtime_row_def column_def runtime_decided_def)
next
  case (Some metric)
  show ?thesis
  proof (cases "shown_metric row")
    case False
    with Some show ?thesis
      by (auto simp: selected_runtime_row_def column_def runtime_decided_def runtime_shown_def shown_metric_def)
  next
    case True
    with Some have "metric \<in> {''check_live'', ''remaining_bytes''}" by (auto simp: shown_metric_def)
    with Some True show ?thesis
      by (cases "map_of row ''threads''"; cases "map_of row ''population''")
         (auto simp: selected_runtime_row_def column_def int_column_def int_text_def runtime_decided_def
           runtime_shown_def split: option.split)
  qed
qed

lemma filter_by_keep: "map fst (filter snd (zip xs (map P xs))) = filter P xs"
  by (induction xs) simp_all

lemma selected_runtime_rows_Inr:
  "selected_runtime_rows rows = Inr shown \<longleftrightarrow>
     list_all runtime_decided rows \<and> shown = sort_key runtime_key (filter runtime_shown rows)"
proof -
  have "res_map selected_runtime_row rows = Inr keep \<longleftrightarrow> list_all runtime_decided rows \<and> keep = map runtime_shown rows" for keep
    by (induction rows arbitrary: keep) (auto simp: res_simps selected_runtime_row_Inr)
  then show ?thesis by (auto simp: selected_runtime_rows_def res_bind_Inr filter_by_keep)
qed

lemma runtime_table_row_Inr:
  assumes "runtime_shown row"
  shows "runtime_table_row row = Inr s \<longleftrightarrow> float_text row ''ns_per_op'' \<noteq> None \<and> s = runtime_line row"
proof -
  obtain p where p: "map_of row ''population'' = Some p"
    using assms by (cases "map_of row ''population''") (auto simp: runtime_shown_def int_text_def)
  obtain m where m: "map_of row ''metric'' = Some m"
    using assms by (cases "map_of row ''metric''") (auto simp: runtime_shown_def shown_metric_def)
  show ?thesis
    by (cases "map_of row ''ns_per_op''")
       (auto simp: runtime_table_row_def runtime_line_def num_def signed_column_def column_def float_text_def p m
         split: option.split)
qed

lemma runtime_rows_ordered: "runtime_order rows (sort_key runtime_key (filter runtime_shown rows))"
proof -
  let ?shown = "sort_key runtime_key (filter runtime_shown rows)"
  have key: "runtime_key r = (the (int_text r ''population''), the (map_of r ''metric''))" if "runtime_shown r" for r
    using that by (cases "map_of r ''population''") (auto simp: runtime_key_def int_text_def runtime_shown_def)
  have "map runtime_key ?shown = map (\<lambda>r. (the (int_text r ''population''), the (map_of r ''metric''))) ?shown"
    using key by (intro map_cong) auto
  then have "sorted (map (\<lambda>r. (the (int_text r ''population''), the (map_of r ''metric''))) ?shown)"
    by (metis sorted_sort_key)
  moreover have "filter (\<lambda>r. int_text r ''population'' = Some k \<and> map_of r ''metric'' = Some m) ?shown =
      filter (\<lambda>r. runtime_shown r \<and> int_text r ''population'' = Some k \<and> map_of r ''metric'' = Some m) rows" for k m
  proof -
    have eq: "(int_text r ''population'' = Some k \<and> map_of r ''metric'' = Some m) \<longleftrightarrow> runtime_key r = (k, m)"
      if "runtime_shown r" for r
      using key [OF that] that
      by (cases "int_text r ''population''"; cases "map_of r ''metric''") (auto simp: runtime_shown_def shown_metric_def)
    have "filter (\<lambda>r. int_text r ''population'' = Some k \<and> map_of r ''metric'' = Some m) ?shown =
        filter (\<lambda>r. runtime_key r = (k, m)) ?shown" using eq by (intro filter_cong) auto
    also have "\<dots> = filter (\<lambda>r. runtime_key r = (k, m)) (filter runtime_shown rows)" by (rule sort_key_stable)
    also have "\<dots> = filter (\<lambda>r. runtime_shown r \<and> int_text r ''population'' = Some k \<and> map_of r ''metric'' = Some m) rows"
      unfolding filter_filter using eq by (intro filter_cong) auto
    finally show ?thesis .
  qed
  ultimately show ?thesis by (simp add: runtime_order_def)
qed

text \<open>The part of the page for the runtime table.\<close>

lemma runtime_part_Inr:
  "res_bind (selected_runtime_rows rows) (\<lambda>sel. res_bind (res_map runtime_table_row sel) (\<lambda>table. Inr (p8_runtime_heading @ table))) = Inr part \<longleftrightarrow>
     list_all runtime_row_ok rows \<and> part = p8_runtime_heading @ map runtime_line (sort_key runtime_key (filter runtime_shown rows))"
proof -
  let ?shown = "sort_key runtime_key (filter runtime_shown rows)"
  have table: "res_map runtime_table_row xs = Inr table \<longleftrightarrow>
      list_all (\<lambda>r. float_text r ''ns_per_op'' \<noteq> None) xs \<and> table = map runtime_line xs"
    if "list_all runtime_shown xs" for xs table
    using that by (induction xs arbitrary: table) (auto simp: res_simps runtime_table_row_Inr)
  have "list_all runtime_shown ?shown" by (simp add: list_all_iff)
  note table = table [OF this]
  have "list_all (\<lambda>r. float_text r ''ns_per_op'' \<noteq> None) ?shown \<and> list_all runtime_decided rows \<longleftrightarrow> list_all runtime_row_ok rows"
    by (auto simp: list_all_iff runtime_row_ok_def)
  then show ?thesis by (auto simp: res_bind_Inr selected_runtime_rows_Inr table)
qed

lemma py_join_append:
  "xs \<noteq> [] \<Longrightarrow> ys \<noteq> [] \<Longrightarrow> py_join sep (xs @ ys) = py_join sep xs @ sep @ py_join sep ys"
proof (induction sep xs rule: py_join.induct)
  case (2 sep x)
  then show ?case by (cases ys) simp_all
qed simp_all

lemma join_part:
  assumes "xs \<noteq> []" and "ys \<noteq> []" and "zs \<noteq> []"
  shows "sublist (py_join sep ys) (py_join sep (xs @ ys @ zs))"
  using assms by (simp add: py_join_append) (metis append.assoc sublist_appendI)

section \<open>Pages\<close>

lemma res_map_total: "(\<And>x. x \<in> set xs \<Longrightarrow> \<exists>y. f x = Inr y) \<Longrightarrow> \<exists>ys. res_map f xs = Inr ys"
  by (induction xs) force+

lemma p9a_table_row_total:
  assumes "full_row p9a_fields row" and "numeric_row row"
  shows "\<exists>s. p9a_table_row (read_back p9a_fields row) = Inr s"
proof -
  have n: "\<exists>x. signed_column (read_back p9a_fields row) f = Inr x"
    if "f \<in> set p9a_fields" "f \<notin> {''workload'', ''boundary'', ''repetitions''}" for f
    using number_read_back [OF assms that] by metis
  obtain w where w: "column (read_back p9a_fields row) ''workload'' = Inr w"
    using column_read_back [of "''workload''" p9a_fields row] by (auto simp: p9a_fields_def)
  obtain x1 where x1: "signed_column (read_back p9a_fields row) ''rlbox_median_ms'' = Inr x1"
    using n [of "''rlbox_median_ms''"] by (auto simp: p9a_fields_def)
  obtain x2 where x2: "signed_column (read_back p9a_fields row) ''tracked_median_ms'' = Inr x2"
    using n [of "''tracked_median_ms''"] by (auto simp: p9a_fields_def)
  obtain x3 where x3: "signed_column (read_back p9a_fields row) ''extended_median_ms'' = Inr x3"
    using n [of "''extended_median_ms''"] by (auto simp: p9a_fields_def)
  obtain x4 where x4: "signed_column (read_back p9a_fields row) ''tracking_overhead_median_pct'' = Inr x4"
    using n [of "''tracking_overhead_median_pct''"] by (auto simp: p9a_fields_def)
  obtain x5 where x5: "signed_column (read_back p9a_fields row) ''validation_overhead_median_pct'' = Inr x5"
    using n [of "''validation_overhead_median_pct''"] by (auto simp: p9a_fields_def)
  obtain x6 where x6: "signed_column (read_back p9a_fields row) ''total_overhead_median_pct'' = Inr x6"
    using n [of "''total_overhead_median_pct''"] by (auto simp: p9a_fields_def)
  show ?thesis by (simp add: p9a_table_row_def num_def pct_def w x1 x2 x3 x4 x5 x6)
qed

lemma timing_row_total:
  assumes "full_row cols row" and "numeric_row row" and "nm \<in> set cols"
    and "{base, ext, ''paired_overhead_median_pct''} \<subseteq> set cols - {''workload'', ''boundary'', ''repetitions''}"
  shows "\<exists>s. timing_table_row d nm base ext (read_back cols row) = Inr s"
proof -
  have n: "\<exists>x. signed_column (read_back cols row) f = Inr x"
    if "f \<in> {base, ext, ''paired_overhead_median_pct''}" for f
  proof -
    have "f \<in> set cols - {''workload'', ''boundary'', ''repetitions''}" using assms(4) that by (rule subsetD)
    then have "f \<in> set cols" "f \<notin> {''workload'', ''boundary'', ''repetitions''}" by simp_all
    from number_read_back [OF assms(1,2) this] show ?thesis by blast
  qed
  obtain x1 x2 x3 s where "signed_column (read_back cols row) base = Inr x1" "signed_column (read_back cols row) ext = Inr x2"
    "signed_column (read_back cols row) ''paired_overhead_median_pct'' = Inr x3" "column (read_back cols row) nm = Inr s"
    using n [of base] n [of ext] n [of "''paired_overhead_median_pct''"] column_read_back [OF assms(3)] by blast
  then show ?thesis by (simp add: timing_table_row_def pct_def)
qed

lemma automation_row_total: "\<exists>s. automation_table_row (automation_row b) = Inr s"
  by (simp add: automation_table_row_def automation_row_def column_def)

text \<open>The P8 page, once the other tables are accepted.\<close>

lemma render_p8_page:
  assumes "res_map automation_table_row autos = Inr auto_lines"
    and "res_map (timing_table_row 2 ''boundary'' ''baseline_median_ns'' ''extended_median_ns'') bounds = Inr bound_lines"
    and "res_map (timing_table_row 3 ''workload'' ''baseline_median_ms'' ''extended_median_ms'') apps = Inr app_lines"
  shows "((\<exists>page. render_p8 r autos bounds apps commit note runtime = Inr page) \<longleftrightarrow> list_all runtime_row_ok runtime) \<and>
    (\<forall>page. render_p8 r autos bounds apps commit note runtime = Inr page \<longrightarrow> runtime \<noteq> [] \<longrightarrow>
       (\<exists>shown. runtime_order runtime shown \<and>
          sublist (py_join [LF] (p8_runtime_heading @ map runtime_line shown)) page))"
proof (cases "runtime = []")
  case True
  then show ?thesis using assms by (simp add: render_p8_def)
next
  case False
  let ?shown = "sort_key runtime_key (filter runtime_shown runtime)"
  let ?part = "p8_runtime_heading @ map runtime_line ?shown"
  let ?before = "p8_heading r commit note @ auto_lines @ p8_helpers_note"
  let ?after = "p8_boundary_heading ''## 4. Incremental validation cost at real boundaries'' @ bound_lines @
    p8_app_heading ''## 5. Complete rsync paired measurement'' @ app_lines @ p8_closing ''## 6. Interpretation and limitations''"
  have page: "render_p8 r autos bounds apps commit note runtime = Inr page \<longleftrightarrow>
      list_all runtime_row_ok runtime \<and> page = py_join [LF] (?before @ ?part @ ?after)" for page
  proof -
    have "render_p8 r autos bounds apps commit note runtime = Inr page \<longleftrightarrow>
        (\<exists>part. res_bind (selected_runtime_rows runtime) (\<lambda>sel. res_bind (res_map runtime_table_row sel)
            (\<lambda>table. Inr (p8_runtime_heading @ table))) = Inr part \<and> page = py_join [LF] (?before @ part @ ?after))"
      using False by (auto simp: render_p8_def assms res_bind_Inr)
    then show ?thesis unfolding runtime_part_Inr by auto
  qed
  have "sublist (py_join [LF] ?part) (py_join [LF] (?before @ ?part @ ?after))"
    by (rule join_part) (simp_all add: p8_heading_def p8_runtime_heading_def p8_boundary_heading_def)
  then show ?thesis unfolding page using runtime_rows_ordered by blast
qed

text \<open>
  Property C36. The measurements are published whole.  If the three summary tools and the P8
  report accept their inputs, the tables are written without an exception, one line per workload
  with a text in every column, and the pages are rendered from the tables as they are read back:
  every column a page asks for is there, and what stands in a number column is a number.  The P9a
  page is always rendered.  The P8 page, which also shows the table of the runtime benchmark, is
  rendered exactly if the rows of that table are sound, whatever else they hold: each
  has a metric, those of the two metrics shown have integer threads, those of one thread an
  integer population, and those shown a number of nanoseconds (the texts of infinities and NaN,
  which Python's \<^verbatim>\<open>float\<close> also reads, are outside the model of floats).  The page of a table that is not empty then
  holds its section, with the shown rows sorted by population and metric.
\<close>

theorem measurements_published:
  assumes "p8_application samples = Inr apps" and "p8_performance timings = Inr bounds"
    and "p9a_application triples = Inr rows" and "build_p8 files security m = Inr r"
  shows "p8_application_write apps =
      Inr (csv_row p8_application_fields @ concat (map (full_line p8_application_fields) apps)) \<and>
    p8_performance_write bounds =
      Inr (csv_row p8_performance_fields @ concat (map (full_line p8_performance_fields) bounds)) \<and>
    p9a_write rows = Inr (csv_row p9a_fields @ concat (map (full_line p9a_fields) rows)) \<and>
    (\<exists>page. render_p9a (map (read_back p9a_fields) rows) commit note = Inr page) \<and>
    ((\<exists>page. render_p8 r (map automation_row (ir_boundaries (pr_generalization r)))
       (map (read_back p8_performance_fields) bounds) (map (read_back p8_application_fields) apps)
       commit note runtime = Inr page) \<longleftrightarrow> list_all runtime_row_ok runtime) \<and>
    (\<forall>page. render_p8 r (map automation_row (ir_boundaries (pr_generalization r)))
       (map (read_back p8_performance_fields) bounds) (map (read_back p8_application_fields) apps)
       commit note runtime = Inr page \<longrightarrow> runtime \<noteq> [] \<longrightarrow>
       (\<exists>shown. runtime_order runtime shown \<and>
          sublist (py_join [LF] (p8_runtime_heading @ map runtime_line shown)) page))"
proof -
  have "\<exists>s. p9a_table_row x = Inr s" if "x \<in> set (map (read_back p9a_fields) rows)" for x
  proof -
    from that obtain row where "row \<in> set rows" and x: "x = read_back p9a_fields row" by auto
    then show ?thesis unfolding x
      by (intro p9a_table_row_total p9a_full [OF assms(3)] p9a_numeric [OF assms(3)])
  qed
  then obtain triple_lines where "res_map p9a_table_row (map (read_back p9a_fields) rows) = Inr triple_lines"
    using res_map_total by meson
  then have p9a: "\<exists>page. render_p9a (map (read_back p9a_fields) rows) commit note = Inr page"
    by (simp add: render_p9a_def)
  let ?autos = "map automation_row (ir_boundaries (pr_generalization r))"
  let ?bounds = "map (read_back p8_performance_fields) bounds" and ?apps = "map (read_back p8_application_fields) apps"
  obtain auto_lines where autos: "res_map automation_table_row ?autos = Inr auto_lines"
    using res_map_total [of ?autos automation_table_row] automation_row_total by auto
  have "\<exists>s. timing_table_row 2 ''boundary'' ''baseline_median_ns'' ''extended_median_ns''
      (read_back p8_performance_fields row) = Inr s" if "row \<in> set bounds" for row
    using p8_performance_full [OF assms(2) that] p8_performance_numeric [OF assms(2) that]
    by (intro timing_row_total) (simp_all add: p8_performance_fields_def)
  then obtain bound_lines where bounds:
    "res_map (timing_table_row 2 ''boundary'' ''baseline_median_ns'' ''extended_median_ns'') ?bounds = Inr bound_lines"
    using res_map_total [of ?bounds "timing_table_row 2 ''boundary'' ''baseline_median_ns'' ''extended_median_ns''"] by auto
  have "\<exists>s. timing_table_row 3 ''workload'' ''baseline_median_ms'' ''extended_median_ms''
      (read_back p8_application_fields row) = Inr s" if "row \<in> set apps" for row
    using p8_application_full [OF assms(1) that] p8_application_numeric [OF assms(1) that]
    by (intro timing_row_total) (simp_all add: p8_application_fields_def)
  then obtain app_lines where apps:
    "res_map (timing_table_row 3 ''workload'' ''baseline_median_ms'' ''extended_median_ms'') ?apps = Inr app_lines"
    using res_map_total [of ?apps "timing_table_row 3 ''workload'' ''baseline_median_ms'' ''extended_median_ms''"] by auto
  note p8 = render_p8_page [OF autos bounds apps, of r commit "note" runtime]
  show ?thesis using tables_written [OF assms(1-3)] p9a p8 by blast
qed

text \<open>A runtime table with a row that is shown, one of another metric and one of two threads.\<close>

definition small_runtime :: "(string \<times> string) list list" where
  "small_runtime =
     [[(''metric'', ''check_live''), (''threads'', ''1''), (''population'', ''256''), (''ns_per_op'', ''21.5'')],
      [(''metric'', ''allocate'')],
      [(''metric'', ''remaining_bytes''), (''threads'', ''2'')]]"

theorem measurements_published_witness:
  "(\<exists>page. render_p9a [read_back p9a_fields small_triple_row] ''b0157dc'' ''linux'' = Inr page) \<and>
   (\<exists>page shown. render_p8 (projr (build_p8 example_files example_security example_manifest))
      (map automation_row (ir_boundaries (pr_generalization (projr (build_p8 example_files example_security example_manifest)))))
      [read_back p8_performance_fields small_timings_row] [read_back p8_application_fields small_application_row]
      ''b0157dc'' ''linux'' small_runtime = Inr page \<and> runtime_order small_runtime shown \<and> length shown = 1)"
proof -
  have ok: "list_all runtime_row_ok small_runtime" by code_simp
  have one: "length (filter runtime_shown small_runtime) = 1" by code_simp
  have ne: "small_runtime \<noteq> []" by (simp add: small_runtime_def)
  note p = measurements_published [OF small_application small_timings small_triple example_accepted,
    of "''b0157dc''" "''linux''" small_runtime]
  from p ok obtain page where page: "render_p8 (projr (build_p8 example_files example_security example_manifest))
      (map automation_row (ir_boundaries (pr_generalization (projr (build_p8 example_files example_security example_manifest)))))
      [read_back p8_performance_fields small_timings_row] [read_back p8_application_fields small_application_row]
      ''b0157dc'' ''linux'' small_runtime = Inr page" by (simp only: list.map) blast
  with p ne obtain shown where "runtime_order small_runtime shown" by (simp only: list.map) blast
  with page p one show ?thesis by (auto simp: runtime_order_def)
qed

end
