(* ===== verification/BridgeText.thy ===== *)
theory BridgeText
  imports PyStr
begin

text \<open>
  The two edits of the \<^verbatim>\<open>tools/build_p*_bridge.py\<close> scripts: \<open>replace_once\<close>, which wants exactly
  one occurrence of a text, and \<open>regex_once\<close>, which replaces the first match of a pattern.  The
  patterns are literal texts with \<open>.*?\<close> (any text, the shortest first) and \<open>\s+\<close> between them.
  The replacements have no backslash, so \<open>re.subn\<close> inserts them as they are.
\<close>

datatype bridge_error =
    Not_exactly_one string nat      \<comment> \<open>the label and the count\<close>
  | Active_marker string
  | Typed_copy

section \<open>\<open>replace_once\<close>\<close>

definition replace_once :: "string \<Rightarrow> string \<Rightarrow> string \<Rightarrow> string \<Rightarrow> bridge_error + string" where
  "replace_once s old new label =
     (let count = py_count old s
      in if count \<noteq> 1 then Inl (Not_exactly_one label count) else Inr (py_replace_first old new s))"

section \<open>\<open>regex_once\<close>\<close>

datatype piece = Txt string | Gap | Blanks

text \<open>The match at the start of a text: the rest after it.\<close>

function piece_match :: "piece list \<Rightarrow> string \<Rightarrow> string option" where
  "piece_match [] s = Some s"
| "piece_match (Txt w # ps) s = (if prefix w s then piece_match ps (drop (length w) s) else None)"
| "piece_match (Gap # ps) s =
     (case piece_match ps s of
        Some r \<Rightarrow> Some r
      | None \<Rightarrow> (case s of [] \<Rightarrow> None | c # cs \<Rightarrow> piece_match (Gap # ps) cs))"
| "piece_match (Blanks # ps) s =
     (case s of [] \<Rightarrow> None
      | c # cs \<Rightarrow> if py_isspace c
                then (case piece_match (Blanks # ps) cs of Some r \<Rightarrow> Some r | None \<Rightarrow> piece_match ps cs)
                else None)"
  by pat_completeness auto
termination
  by (relation "measure (\<lambda>(ps, s). length ps + length s)") auto

declare piece_match.simps(3,4) [simp del]

text \<open>The first match in a text: what is before it and after it.\<close>

fun piece_search :: "piece list \<Rightarrow> string \<Rightarrow> (string \<times> string) option" where
  "piece_search ps s =
     (case piece_match ps s of
        Some r \<Rightarrow> Some ([], r)
      | None \<Rightarrow> (case s of [] \<Rightarrow> None | c # cs \<Rightarrow> map_option (map_prod (Cons c) id) (piece_search ps cs)))"

declare piece_search.simps [simp del]

definition regex_once :: "string \<Rightarrow> piece list \<Rightarrow> string \<Rightarrow> string \<Rightarrow> bridge_error + string" where
  "regex_once s ps new label =
     (case piece_search ps s of
        None \<Rightarrow> Inl (Not_exactly_one label 0)
      | Some (u, v) \<Rightarrow> Inr (u @ new @ v))"

section \<open>The texts of a pattern\<close>

inductive piece_text :: "piece list \<Rightarrow> string \<Rightarrow> bool" where
  text_Nil: "piece_text [] []"
| text_Txt: "piece_text ps m \<Longrightarrow> piece_text (Txt w # ps) (w @ m)"
| text_Gap: "piece_text ps m \<Longrightarrow> piece_text (Gap # ps) (u @ m)"
| text_Blanks: "piece_text ps m \<Longrightarrow> u \<noteq> [] \<Longrightarrow> list_all py_isspace u \<Longrightarrow> piece_text (Blanks # ps) (u @ m)"

inductive_simps piece_text_simps [simp]:
  "piece_text [] m"
  "piece_text (Txt w # ps) m"
  "piece_text (Gap # ps) m"
  "piece_text (Blanks # ps) m"

lemma piece_match_sound: "piece_match ps s = Some r \<Longrightarrow> \<exists>m. s = m @ r \<and> piece_text ps m"
proof (induction ps s rule: piece_match.induct)
  case (1 s)
  then show ?case by simp
next
  case (2 w ps s)
  then obtain m where "drop (length w) s = m @ r" "piece_text ps m" "prefix w s" by (auto split: if_splits)
  moreover from this have "s = (w @ m) @ r" by (auto simp: prefix_def)
  ultimately show ?case by (metis text_Txt)
next
  case (3 ps s)
  show ?case
  proof (cases "piece_match ps s")
    case (Some r')
    with 3 show ?thesis by (fastforce simp: piece_match.simps(3) [of ps s])
  next
    case None
    with 3(3) obtain c cs where s: "s = c # cs" "piece_match (Gap # ps) cs = Some r"
      by (auto simp: piece_match.simps(3) [of ps s] split: list.splits)
    from 3(2) [OF None s] obtain u m where m: "cs = u @ m @ r" "piece_text ps m" by auto
    have "s = ((c # u) @ m) @ r" using s(1) m(1) by simp
    with text_Gap [OF m(2), of "c # u"] show ?thesis by blast
  qed
next
  case (4 ps s)
  then obtain c cs where s: "s = c # cs" "py_isspace c"
    and r: "piece_match (Blanks # ps) cs = Some r \<or> (piece_match (Blanks # ps) cs = None \<and> piece_match ps cs = Some r)"
    by (auto simp: piece_match.simps(4) [of ps s] split: list.splits if_splits option.splits)
  from r show ?case
  proof (elim disjE conjE)
    assume 1: "piece_match (Blanks # ps) cs = Some r"
    from 4(1) [OF s 1] obtain u m where m: "cs = u @ m @ r" "list_all py_isspace u" "piece_text ps m" by auto
    have "s = ((c # u) @ m) @ r" using s(1) m(1) by simp
    with text_Blanks [OF m(3), of "c # u"] m(2) s(2) show ?thesis by auto
  next
    assume 2: "piece_match (Blanks # ps) cs = None" "piece_match ps cs = Some r"
    from 4(2) [OF s 2] obtain m where m: "cs = m @ r" "piece_text ps m" by blast
    have "s = ([c] @ m) @ r" using s(1) m(1) by simp
    with text_Blanks [OF m(2), of "[c]"] s(2) show ?thesis by auto
  qed
qed

lemma piece_match_complete: "piece_text ps m \<Longrightarrow> piece_match ps (m @ r) \<noteq> None"
proof (induction ps m rule: piece_text.induct)
  case text_Nil
  show ?case by simp
next
  case (text_Txt ps m w)
  then show ?case by simp
next
  case (text_Gap ps m u)
  have "piece_match (Gap # ps) (u @ m @ r) \<noteq> None"
  proof (induction u)
    case Nil
    from text_Gap.IH show ?case by (auto simp: piece_match.simps(3) [of ps "m @ r"])
  next
    case (Cons c u)
    then show ?case by (auto simp: piece_match.simps(3) [of ps "c # u @ m @ r"] split: option.split)
  qed
  then show ?case by simp
next
  case (text_Blanks ps m u)
  then have "piece_match (Blanks # ps) (u @ m @ r) \<noteq> None"
  proof (induction u)
    case (Cons c u)
    then show ?case
      by (cases u) (auto simp: piece_match.simps(4) [of ps "c # _"] split: option.split)
  qed simp
  then show ?case by simp
qed

text \<open>A pattern without blanks takes the shortest match, even among the later starts.\<close>

lemma piece_match_shortest:
  assumes "Blanks \<notin> set ps" and "piece_match ps (x @ m @ r') = Some r" and "piece_text ps m"
  shows "length r' \<le> length r"
  using assms
proof (induction ps arbitrary: x m r' r)
  case Nil
  then show ?case by auto
next
  case (Cons p ps)
  show ?case
  proof (cases p)
    case (Txt w)
    with Cons.prems obtain m1 where m: "m = w @ m1" "piece_text ps m1" by auto
    have w: "prefix w (x @ m @ r')" and r: "piece_match ps (drop (length w) (x @ m @ r')) = Some r"
      using Cons.prems Txt by (auto split: if_splits)
    have "drop (length w) (x @ m @ r') = drop (length w) (x @ w) @ m1 @ r'"
      unfolding m by (simp add: drop_Cons')
    with r show ?thesis using Cons.IH [of _ m1 r' r] Cons.prems(1) m(2) by (metis list.set_intros(2))
  next
    case Gap
    with Cons.prems obtain g m1 where m: "m = g @ m1" "piece_text ps m1" by auto
    have "piece_match (Gap # ps) (y @ m1 @ r') = Some r \<Longrightarrow> length r' \<le> length r" for y
    proof (induction y)
      case Nil
      have "piece_match ps ([] @ m1 @ r') \<noteq> None" using piece_match_complete [OF m(2)] by simp
      with Nil have "piece_match ps ([] @ m1 @ r') = Some r"
        by (auto simp: piece_match.simps(3) [of ps "m1 @ r'"])
      then show ?case using Cons.IH Cons.prems(1) m(2) by (metis list.set_intros(2))
    next
      case (Cons c y)
      show ?case
      proof (cases "piece_match ps ((c # y) @ m1 @ r')")
        case None
        with Cons show ?thesis by (auto simp: piece_match.simps(3) [of ps "c # y @ m1 @ r'"])
      next
        case (Some q)
        with Cons.prems have "q = r" by (auto simp: piece_match.simps(3) [of ps "c # y @ m1 @ r'"])
        with Some show ?thesis using \<open>\<And>x m r' r. Blanks \<notin> set ps \<Longrightarrow> piece_match ps (x @ m @ r') = Some r \<Longrightarrow> piece_text ps m \<Longrightarrow> length r' \<le> length r\<close>
          \<open>Blanks \<notin> set (p # ps)\<close> m(2) by (metis list.set_intros(2))
      qed
    qed
    from this [of "x @ g"] show ?thesis using Cons.prems(2) Gap m(1) by simp
  next
    case Blanks
    with Cons.prems show ?thesis by simp
  qed
qed

section \<open>The first match\<close>

lemma piece_search_sound:
  "piece_search ps s = Some (u, v) \<Longrightarrow>
     piece_match ps (drop (length u) s) = Some v \<and> prefix u s \<and>
     (\<forall>i < length u. piece_match ps (drop i s) = None)"
proof (induction s arbitrary: u)
  case Nil
  then show ?case by (auto simp: piece_search.simps [of ps "[]"] split: option.splits)
next
  case (Cons c cs)
  show ?case
  proof (cases "piece_match ps (c # cs)")
    case (Some r)
    with Cons.prems show ?thesis by (simp add: piece_search.simps [of ps "c # cs"])
  next
    case None
    with Cons.prems obtain u' where u: "u = c # u'" "piece_search ps cs = Some (u', v)"
      by (auto simp: piece_search.simps [of ps "c # cs"])
    have "piece_match ps (drop i (c # cs)) = None" if "i < length u" for i
      using that Cons.IH [OF u(2)] None u(1) by (cases i) auto
    with Cons.IH [OF u(2)] u(1) show ?thesis by auto
  qed
qed

lemma piece_search_None: "piece_search ps s = None \<Longrightarrow> piece_match ps (drop i s) = None"
proof (induction s arbitrary: i)
  case Nil
  then show ?case by (auto simp: piece_search.simps [of ps "[]"] split: option.splits)
next
  case (Cons c cs)
  then have "piece_match ps (c # cs) = None" "piece_search ps cs = None"
    by (auto simp: piece_search.simps [of ps "c # cs"] split: option.splits)
  with Cons.IH show ?case by (cases i) simp_all
qed

text \<open>The reference: the leftmost factor that belongs to the pattern, and the shortest at its
  place.\<close>

definition first_shortest :: "piece list \<Rightarrow> string \<Rightarrow> string \<Rightarrow> string \<Rightarrow> string \<Rightarrow> bool" where
  "first_shortest ps s u m v \<longleftrightarrow>
     s = u @ m @ v \<and> piece_text ps m \<and>
     (\<forall>u' m' v'. s = u' @ m' @ v' \<longrightarrow> piece_text ps m' \<longrightarrow>
        length u < length u' \<or> length u = length u' \<and> length m \<le> length m')"

lemma first_shortest_unique:
  "first_shortest ps s u m v \<Longrightarrow> first_shortest ps s u' m' v' \<Longrightarrow> u = u' \<and> m = m' \<and> v = v'"
proof -
  assume a: "first_shortest ps s u m v" and b: "first_shortest ps s u' m' v'"
  then have "length u = length u'" "length m = length m'" unfolding first_shortest_def by (metis less_not_sym less_irrefl order_antisym)+
  moreover have "u @ m @ v = u' @ m' @ v'" using a b by (simp add: first_shortest_def)
  ultimately show ?thesis by simp
qed

lemma factor_matches:
  assumes "s = u @ m @ v" and "piece_text ps m" shows "piece_match ps (drop (length u) s) \<noteq> None"
  using piece_match_complete [OF assms(2), of v] assms(1) by simp

lemma piece_search_first:
  assumes "Blanks \<notin> set ps" and "piece_search ps s = Some (u, v)"
  shows "\<exists>m. first_shortest ps s u m v"
proof -
  note found = piece_search_sound [OF assms(2)]
  obtain m where m: "drop (length u) s = m @ v" "piece_text ps m" using piece_match_sound found by blast
  have s: "s = u @ m @ v" using m(1) found by (auto simp: prefix_def)
  have "length u < length u' \<or> length u = length u' \<and> length m \<le> length m'"
    if f: "s = u' @ m' @ v'" "piece_text ps m'" for u' m' v'
  proof -
    have "\<forall>i < length u. piece_match ps (drop i s) = None" using found by (elim conjE)
    then have "\<not> length u' < length u" using factor_matches [OF f] by auto
    moreover have "length m \<le> length m'" if "length u' = length u"
    proof -
      have "m @ v = [] @ m' @ v'" using s f(1) that by simp
      then have "length v' \<le> length v"
        using piece_match_shortest [OF assms(1) _ f(2), of "[]" v' v] found m(1) by simp
      with \<open>m @ v = [] @ m' @ v'\<close> show ?thesis by (metis append_Nil length_append add_le_cancel_right add_left_mono le_trans nat_add_left_cancel_le)
    qed
    ultimately show ?thesis by linarith
  qed
  with s m(2) show ?thesis unfolding first_shortest_def by blast
qed

lemma regex_once_first:
  assumes "Blanks \<notin> set ps"
  shows "regex_once s ps new label = Inr out \<longleftrightarrow> (\<exists>u m v. first_shortest ps s u m v \<and> out = u @ new @ v)"
proof (cases "piece_search ps s")
  case None
  have "\<not> first_shortest ps s u m v" for u m v
  proof
    assume "first_shortest ps s u m v"
    then have f: "s = u @ m @ v" "piece_text ps m" by (simp_all only: first_shortest_def)
    from factor_matches [OF f] piece_search_None [OF None, of "length u"] show False by blast
  qed
  with None show ?thesis by (simp add: regex_once_def)
next
  case (Some p)
  obtain u v where p: "p = (u, v)" by fastforce
  obtain m where m: "first_shortest ps s u m v" using piece_search_first [OF assms Some [unfolded p]] by (elim exE)
  have "regex_once s ps new label = Inr out \<longleftrightarrow> out = u @ new @ v" using Some p by (auto simp: regex_once_def)
  also have "\<dots> \<longleftrightarrow> (\<exists>u m v. first_shortest ps s u m v \<and> out = u @ new @ v)"
    using m first_shortest_unique [OF m] by metis
  finally show ?thesis .
qed

lemma regex_once_fails:
  "(\<exists>u m v. s = u @ m @ v \<and> piece_text ps m) \<longleftrightarrow> regex_once s ps new label \<noteq> Inl (Not_exactly_one label 0)"
proof (cases "piece_search ps s")
  case None
  have "\<not> (s = u @ m @ v \<and> piece_text ps m)" for u m v
    using factor_matches [of s u m v ps] piece_search_None [OF None, of "length u"] by blast
  then have "\<not> (\<exists>u m v. s = u @ m @ v \<and> piece_text ps m)" by blast
  with None show ?thesis by (simp add: regex_once_def)
next
  case (Some p)
  obtain u v where p: "p = (u, v)" by fastforce
  note found = piece_search_sound [OF Some [unfolded p]]
  obtain m where "drop (length u) s = m @ v" "piece_text ps m" using piece_match_sound found by blast
  moreover then have "s = u @ m @ v" using found by (auto simp: prefix_def)
  ultimately show ?thesis using Some p by (auto simp: regex_once_def)
qed

section \<open>Exactly one occurrence\<close>

lemma py_count_zero: "w \<noteq> [] \<Longrightarrow> py_count w s = 0 \<longleftrightarrow> \<not> sublist w s"
proof (induction w s rule: py_count.induct)
  case (1 w s)
  show ?case
  proof (cases s)
    case Nil
    with 1(3) show ?thesis by (simp add: py_count.simps [of w "[]"])
  next
    case (Cons c cs)
    with 1 show ?thesis
      by (cases "prefix w s") (auto simp: py_count.simps [of w "c # cs"] sublist_Cons_right)
  qed
qed

lemma py_count_one:
  assumes "w \<noteq> []" and "py_count w s = 1"
  obtains u v where "s = u @ w @ v" and "py_replace_first w new s = u @ new @ v"
    and "\<not> sublist w u" and "\<not> sublist w v"
proof -
  have "\<exists>u v. s = u @ w @ v \<and> py_replace_first w new s = u @ new @ v \<and>
      (\<forall>i < length u. \<not> prefix w (drop i s)) \<and> \<not> sublist w v"
    using assms
  proof (induction s)
    case Nil
    then show ?case by (simp add: py_count.simps [of w "[]"])
  next
    case (Cons c cs)
    show ?case
    proof (cases "prefix w (c # cs)")
      case True
      then obtain v where v: "c # cs = w @ v" by (auto simp: prefix_def)
      have "py_count w (c # cs) = Suc (py_count w (drop (length w) (c # cs)))"
        using True Cons.prems(1) by (simp only: py_count.simps [of w "c # cs"]) simp
      then have "py_count w v = 0" using Cons.prems(2) v by simp
      then have "\<not> sublist w v" using py_count_zero Cons.prems by simp
      moreover have "py_replace_first w new (c # cs) = new @ v" using True v by (metis append_eq_conv_conj py_replace_first.simps(2))
      ultimately show ?thesis using v by (intro exI [of _ "[]"] exI [of _ v]) simp
    next
      case False
      with Cons.prems have "py_count w cs = 1" by (simp add: py_count.simps [of w "c # cs"])
      from Cons.IH [OF Cons.prems(1) this] obtain u v where uv: "cs = u @ w @ v" "py_replace_first w new cs = u @ new @ v"
        "\<forall>i < length u. \<not> prefix w (drop i cs)" "\<not> sublist w v" by blast
      have "\<forall>i < length (c # u). \<not> prefix w (drop i (c # cs))"
        using uv(3) False by (auto simp: less_Suc_eq_0_disj)
      with uv False show ?thesis by (intro exI [of _ "c # u"] exI [of _ v]) simp
    qed
  qed
  then obtain u v where uv: "s = u @ w @ v" "py_replace_first w new s = u @ new @ v"
    "\<forall>i < length u. \<not> prefix w (drop i s)" "\<not> sublist w v" by blast
  have "\<not> sublist w u"
  proof
    assume "sublist w u"
    then obtain x y where "u = x @ w @ y" by (auto simp: sublist_def)
    then have "prefix w (drop (length x) s)" "length x < length u" using uv(1) assms(1) by (auto simp: prefix_def)
    with uv(3) show False by blast
  qed
  with uv show thesis by (intro that)
qed

lemma replace_once_Inr:
  assumes "old \<noteq> []" and "replace_once s old new label = Inr out"
  obtains u v where "s = u @ old @ v" and "out = u @ new @ v" and "\<not> sublist old u" and "\<not> sublist old v"
proof -
  have "py_count old s = 1" "out = py_replace_first old new s"
    using assms(2) by (auto simp: replace_once_def Let_def split: if_splits)
  with py_count_one [OF assms(1), of s new] that show thesis by metis
qed

lemma replace_once_absent: "old \<noteq> [] \<Longrightarrow> \<not> sublist old s \<Longrightarrow> replace_once s old new label = Inl (Not_exactly_one label 0)"
  
  using py_count_zero [of old s] by (simp add: replace_once_def Let_def)

end
