(* ===== verification/Bridges.thy ===== *)
theory Bridges
  imports BridgeText BackendPatch SourceEdit
begin

text \<open>
  The transforms of \<^verbatim>\<open>tools/build_p9a_rlbox_only_bridge.py\<close>,
  \<^verbatim>\<open>tools/build_p9b_wasm2c_bridge.py\<close> and \<^verbatim>\<open>tools/build_p11_wasm2c_rlbox_only_bridge.py\<close>, which
  make measurement variants of the trusted bridge by editing its source.
\<close>

section \<open>The RLBox-only bridge of P9a\<close>

definition typed_constructor :: string where
  \<open>typed_constructor =
  py_join [LF]
    [''  Engine() {'',
     ''    if (!sandbox_.create_sandbox(GLUE_LIB_NACL_PATH, NACL_LIBC_PATH))'',
     ''      throw std::runtime_error("failed to create RLBox NaCl sandbox");'',
     '''',
     ''    constexpr uint32_t kArenaSize = 16u * 1024u * 1024u;'',
     ''    const uint32_t arena_base ='',
     ''      sandbox_.get_sandbox_impl()->reserve_typed_arena(kArenaSize);'',
     ''    if (!arena_base) throw std::runtime_error("failed to reserve typed arena");'',
     '''',
     ''    policy_runtime_ ='',
     ''      std::make_unique<interspec::PolicyRuntime>(arena_base, kArenaSize);'',
     ''    auto* impl = sandbox_.get_sandbox_impl();'',
     ''    if (!policy_runtime_->initialize_from_sandbox('',
     ''          *impl,'',
     ''          [](interspec::Runtime& runtime) {'',
     ''            return interspec::rsync_popt_generated::register_types(runtime);'',
     ''          },'',
     ''          [](interspec::Runtime& runtime, auto resolve) {'',
     ''            return interspec::rsync_popt_generated::register_allocation_policy('',
     ''              runtime, resolve);'',
     ''          }))'',
     ''      throw std::runtime_error("failed to initialize InterSpec allocation policy");'',
     '''',
     ''    sandbox_.sandbox_storage = this;'',
     ''    alloc_cb_ = sandbox_.register_callback(p4c_allocate);'',
     ''    release_cb_ = sandbox_.register_callback(p4c_release);'',
     ''    size_cb_ = sandbox_.register_callback(p4c_size);'',
     ''    realloc_cb_ = sandbox_.register_callback(p4c_reallocate);'',
     ''    const uint32_t alloc_slot = sandbox_.get_sandbox_impl()->callback_slot_for_key('',
     ''      reinterpret_cast<const void*>(p4c_allocate));'',
     ''    if (alloc_slot == std::numeric_limits<uint32_t>::max())'',
     ''      throw std::runtime_error("failed to resolve allocator callback slot");'',
     ''    sandbox_.invoke_sandbox_function(interspec_popt_init_lifetime,'',
     ''                                     alloc_slot,'',
     ''                                     release_cb_,'',
     ''                                     size_cb_,'',
     ''                                     realloc_cb_);'',
     ''  }'',
     '''']\<close>

definition rlbox_only_constructor :: string where
  \<open>rlbox_only_constructor =
  py_join [LF]
    [''  Engine() {'',
     ''    if (!sandbox_.create_sandbox(GLUE_LIB_NACL_PATH, NACL_LIBC_PATH))'',
     ''      throw std::runtime_error("failed to create RLBox NaCl sandbox");'',
     '''',
     ''    /*'',
     ''     * P9a RLBox-only baseline: do not reserve the InterSpec typed arena, create'',
     ''     * PolicyRuntime, register allocation provenance, or install lifetime'',
     ''     * callbacks. The sandbox and host-side API bridge remain unchanged.'',
     ''     */'',
     ''    sandbox_.sandbox_storage = this;'',
     ''  }'',
     '''']\<close>

definition typed_copy_to_u :: string where
  \<open>typed_copy_to_u =
  py_join [LF]
    [''  UCharPtr copy_to_u(const char* src) {'',
     ''    if (!src) return UCharPtr(nullptr);'',
     '''',
     ''    const size_t bytes = std::strlen(src) + 1;'',
     ''    if (bytes > std::numeric_limits<uint32_t>::max())'',
     ''      throw std::runtime_error("popt string exceeds sandbox ABI");'',
     '''',
     ''    auto temporary = sandbox_.malloc_in_sandbox<char>(static_cast<uint32_t>(bytes));'',
     ''    if (temporary.UNSAFE_unverified() == nullptr)'',
     ''      throw std::bad_alloc();'',
     ''    std::memcpy(temporary.UNSAFE_unverified(), src, bytes);'',
     '''',
     ''    auto typed ='',
     ''      sandbox_.invoke_sandbox_function(interspec_p4c_typed_copy, temporary);'',
     ''    sandbox_.free_in_sandbox(temporary);'',
     ''    if (typed.UNSAFE_unverified() == nullptr) throw std::bad_alloc();'',
     ''    return typed;'',
     ''  }'',
     '''']\<close>

definition rlbox_only_copy_to_u :: string where
  \<open>rlbox_only_copy_to_u =
  py_join [LF]
    [''  UCharPtr copy_to_u(const char* src) {'',
     ''    if (!src) return UCharPtr(nullptr);'',
     '''',
     ''    const size_t bytes = std::strlen(src) + 1;'',
     ''    if (bytes > std::numeric_limits<uint32_t>::max())'',
     ''      throw std::runtime_error("popt string exceeds sandbox ABI");'',
     '''',
     ''    /* RLBox-only marshalling uses the sandbox'' @ [SQ] @ ''s ordinary allocator. */'',
     ''    auto copy = sandbox_.malloc_in_sandbox<char>(static_cast<uint32_t>(bytes));'',
     ''    if (copy.UNSAFE_unverified() == nullptr) throw std::bad_alloc();'',
     ''    std::memcpy(copy.UNSAFE_unverified(), src, bytes);'',
     ''    return copy;'',
     ''  }'',
     '''']\<close>

definition p8_no_check :: string where
  \<open>p8_no_check =
  py_join [LF]
    [''#ifdef INTERSPEC_P8_MEASURE_NO_VALIDATION'',
     ''    /*'',
     ''     * Measurement-only baseline. The sandbox, marshalling, typed allocation,'',
     ''     * provenance, and workload remain identical; only the final Extended-SP3'',
     ''     * acceptance check is bypassed. This build is never used by correctness'',
     ''     * tests and deliberately trusts the known-valid benchmark workload.'',
     ''     */'',
     ''    const size_t bytes = std::strlen(raw) + 1;'',
     ''#else'',
     '''']\<close>

definition p9a_and_p8_no_check :: string where
  \<open>p9a_and_p8_no_check =
  py_join [LF]
    [''#ifdef INTERSPEC_P9A_RLBOX_ONLY'',
     ''    /*'',
     ''     * P9a RLBox-only baseline. InterSpec typed allocation/provenance is absent'',
     ''     * from both T and U. The benchmark uses known-valid data and keeps the'',
     ''     * established copy behavior while omitting the Extended-SP3 acceptance'',
     ''     * check.'',
     ''     */'',
     ''    const size_t bytes = std::strlen(raw) + 1;'',
     ''#elif defined(INTERSPEC_P8_MEASURE_NO_VALIDATION)'',
     ''    /*'',
     ''     * Measurement-only baseline. The sandbox, marshalling, typed allocation,'',
     ''     * provenance, and workload remain identical; only the final Extended-SP3'',
     ''     * acceptance check is bypassed. This build is never used by correctness'',
     ''     * tests and deliberately trusts the known-valid benchmark workload.'',
     ''     */'',
     ''    const size_t bytes = std::strlen(raw) + 1;'',
     ''#else'',
     '''']\<close>

definition p9a_transform :: "string \<Rightarrow> bridge_error + string" where
  "p9a_transform text0 =
     res_bind (replace_once text0 typed_constructor rlbox_only_constructor ''Engine constructor'') (\<lambda>text1.
     res_bind (replace_once text1 typed_copy_to_u rlbox_only_copy_to_u ''copy_to_u'') (\<lambda>text2.
     replace_once text2 p8_no_check p9a_and_p8_no_check ''copy_checked baseline''))"

section \<open>The wasm2c bridge of P9b\<close>

definition p9b_sandbox_headers :: "string \<times> string" where
  \<open>p9b_sandbox_headers =
  (py_join [LF]
    [''#include "rlbox.hpp"'',
     ''#include "rlbox_nacl_sandbox.hpp"''],
   py_join [LF]
    [''#define RLBOX_USE_STATIC_CALLS() rlbox_wasm2c_sandbox_lookup_symbol'',
     ''#define RLBOX_WASM2C_MODULE_NAME glue__lib__wasm2c'',
     ''#include "glue_lib_wasm2c.h"'',
     ''#include "rlbox.hpp"'',
     ''#include "rlbox_wasm2c_sandbox.hpp"''])\<close>

definition p9b_policy_header :: "string \<times> string" where
  \<open>p9b_policy_header =
  (''#include "interspec_popt_t_policy.h"'',
   ''#include "interspec_t_policy.h"'')\<close>

definition p9b_sandbox_type :: "string \<times> string" where
  \<open>p9b_sandbox_type =
  (''using SandboxType = rlbox::rlbox_nacl_sandbox;'',
   ''using SandboxType = rlbox::rlbox_wasm2c_sandbox;'')\<close>

definition p9b_lifetime_typedefs :: "piece list \<times> string" where
  \<open>p9b_lifetime_typedefs =
  ([Txt (''using p4c_release_fn =''),
    Gap,
    Txt (py_join [LF]
    [''using p4c_realloc_fn = uint32_t (*)(uint32_t, uint32_t);'',
     '''',
     ''''])],
   '''')\<close>

definition p9b_lifetime_declaration :: "piece list \<times> string" where
  \<open>p9b_lifetime_declaration =
  ([Txt (py_join [LF]
    [''void interspec_popt_init_lifetime(uint32_t,'',
     '''']),
    Blanks,
    Txt (py_join [LF]
    [''p4c_release_fn,'',
     '''']),
    Blanks,
    Txt (py_join [LF]
    [''p4c_size_fn,'',
     '''']),
    Blanks,
    Txt (py_join [LF]
    [''p4c_realloc_fn);'',
     ''''])],
   '''')\<close>

definition p9b_callback_declarations :: "piece list \<times> string" where
  \<open>p9b_callback_declarations =
  ([Txt (py_join [LF]
    [''class Engine;'',
     ''Engine& engine_from(Sandbox& sandbox);'',
     '''',
     ''static U32 p4c_allocate'']),
    Gap,
    Txt (py_join [LF]
    [''static U32 p4c_reallocate(Sandbox& sandbox, U32 ptr, U32 size);'',
     ''''])],
   py_join [LF]
    [''class Engine;'',
     ''static uint32_t p9b_allocate(void*, uint32_t, uint32_t);'',
     ''static uint32_t p9b_release(void*, uint32_t);'',
     ''static uint32_t p9b_size(void*, uint32_t);'',
     ''static uint32_t p9b_reallocate(void*, uint32_t, uint32_t);'',
     ''''])\<close>

definition p9b_engine_constructor :: "piece list \<times> string" where
  \<open>p9b_engine_constructor =
  ([Txt (''  Engine() {''),
    Gap,
    Txt (py_join [LF]
    ['''',
     ''  }'',
     '''',
     ''  Sandbox& sandbox()''])],
   py_join [LF]
    [''  Engine() {'',
     ''    if (!sandbox_.create_sandbox())'',
     ''      throw std::runtime_error("failed to create RLBox wasm2c sandbox");'',
     '''',
     ''    constexpr uint32_t kArenaSize = 16u * 1024u * 1024u;'',
     ''    const uint32_t arena_base ='',
     ''      sandbox_.get_sandbox_impl()->reserve_typed_arena(kArenaSize);'',
     ''    if (!arena_base) throw std::runtime_error("failed to reserve typed arena");'',
     '''',
     ''    policy_runtime_ ='',
     ''      std::make_unique<interspec::PolicyRuntime>(arena_base, kArenaSize);'',
     ''    auto& runtime = policy_runtime_->runtime();'',
     ''    if (!interspec::rsync_popt_generated::register_types(runtime) ||'',
     ''        !interspec::rsync_popt_generated::register_wasm_allocation_policy(runtime))'',
     ''      throw std::runtime_error("failed to initialize wasm InterSpec allocation policy");'',
     '''',
     ''    sandbox_.sandbox_storage = this;'',
     ''    sandbox_.get_sandbox_impl()->set_interspec_runtime('',
     ''      this, p9b_allocate, p9b_release, p9b_size, p9b_reallocate);'',
     ''  }'',
     '''',
     ''  Sandbox& sandbox()''])\<close>

definition p9b_allocation_dispatch :: "piece list \<times> string" where
  \<open>p9b_allocation_dispatch =
  ([Txt (''  uintptr_t allocate_for_callback_pc(uint32_t size) {''),
    Gap,
    Txt (py_join [LF]
    ['''',
     ''  }'',
     ''''])],
   py_join [LF]
    [''  uintptr_t allocate_for_site(uint32_t site_id, uint32_t size) {'',
     ''    return runtime().allocate_from_site(size, site_id);'',
     ''  }'',
     ''''])\<close>

definition p9b_callback_members :: "piece list \<times> string" where
  \<open>p9b_callback_members =
  ([Txt (py_join [LF]
    ['' private:'',
     ''  using AllocCallback ='']),
    Gap,
    Txt (py_join [LF]
    [''  ReallocCallback realloc_cb_;'',
     ''''])],
   py_join [LF]
    ['' private:'',
     ''  Sandbox sandbox_;'',
     ''  std::unique_ptr<interspec::PolicyRuntime> policy_runtime_;'',
     ''''])\<close>

definition p9b_duplicate_members :: "string \<times> string" where
  \<open>p9b_duplicate_members =
  (py_join [LF]
    [''  Sandbox sandbox_;'',
     ''  std::unique_ptr<interspec::PolicyRuntime> policy_runtime_;'',
     ''  Sandbox sandbox_;'',
     ''  std::unique_ptr<interspec::PolicyRuntime> policy_runtime_;'',
     ''''],
   py_join [LF]
    [''  Sandbox sandbox_;'',
     ''  std::unique_ptr<interspec::PolicyRuntime> policy_runtime_;'',
     ''''])\<close>

definition p9b_callback_implementations :: "piece list \<times> string" where
  \<open>p9b_callback_implementations =
  ([Txt (''Engine& engine_from(Sandbox& sandbox) {''),
    Gap,
    Txt (py_join [LF]
    ['''',
     ''}'',
     '''',
     ''static U32 p4c_allocate'']),
    Gap,
    Txt (py_join [LF]
    ['''',
     ''}'',
     '''',
     ''enum class SlotKind''])],
   py_join [LF]
    [''static uint32_t p9b_allocate(void* context, uint32_t site_id, uint32_t size) {'',
     ''  auto* value = static_cast<Engine*>(context);'',
     ''  return value ? static_cast<uint32_t>(value->allocate_for_site(site_id, size)) : 0u;'',
     ''}'',
     '''',
     ''static uint32_t p9b_release(void* context, uint32_t ptr) {'',
     ''  auto* value = static_cast<Engine*>(context);'',
     ''  return value && value->runtime().release(ptr) ? 1u : 0u;'',
     ''}'',
     '''',
     ''static uint32_t p9b_size(void* context, uint32_t ptr) {'',
     ''  auto* value = static_cast<Engine*>(context);'',
     ''  if (!value) return 0u;'',
     ''  size_t size = 0;'',
     ''  if (!value->runtime().allocation_size(ptr, size) ||'',
     ''      size > std::numeric_limits<uint32_t>::max())'',
     ''    return 0u;'',
     ''  return static_cast<uint32_t>(size);'',
     ''}'',
     '''',
     ''static uint32_t p9b_reallocate(void* context, uint32_t ptr, uint32_t size) {'',
     ''  auto* value = static_cast<Engine*>(context);'',
     ''  return value ? static_cast<uint32_t>(value->runtime().reallocate(ptr, size)) : 0u;'',
     ''}'',
     '''',
     ''enum class SlotKind''])\<close>

definition p9b_transform :: "string \<Rightarrow> bridge_error + string" where
  "p9b_transform text0 =
     res_bind (replace_once text0 (fst p9b_sandbox_headers) (snd p9b_sandbox_headers) ''sandbox headers'') (\<lambda>text1.
     res_bind (replace_once text1 (fst p9b_policy_header) (snd p9b_policy_header) ''wasm policy header'') (\<lambda>text2.
     res_bind (replace_once text2 (fst p9b_sandbox_type) (snd p9b_sandbox_type) ''sandbox type'') (\<lambda>text3.
     res_bind (regex_once text3 (fst p9b_lifetime_typedefs) (snd p9b_lifetime_typedefs) ''NaCl lifetime typedefs'') (\<lambda>text4.
     res_bind (regex_once text4 (fst p9b_lifetime_declaration) (snd p9b_lifetime_declaration) ''NaCl lifetime declaration'') (\<lambda>text5.
     res_bind (regex_once text5 (fst p9b_callback_declarations) (snd p9b_callback_declarations) ''NaCl callback declarations'') (\<lambda>text6.
     res_bind (regex_once text6 (fst p9b_engine_constructor) (snd p9b_engine_constructor) ''Engine constructor'') (\<lambda>text7.
     res_bind (regex_once text7 (fst p9b_allocation_dispatch) (snd p9b_allocation_dispatch) ''allocation dispatch method'') (\<lambda>text8.
     res_bind (regex_once text8 (fst p9b_callback_members) (snd p9b_callback_members) ''NaCl callback members'') (\<lambda>text9.
     res_bind (Inr (py_replace (fst p9b_duplicate_members) (snd p9b_duplicate_members) text9)) (\<lambda>text10.
     regex_once text10 (fst p9b_callback_implementations) (snd p9b_callback_implementations) ''NaCl callback implementations''))))))))))"

section \<open>The RLBox-only bridge of P11\<close>

definition p11_rlbox_only_constructor :: string where
  \<open>p11_rlbox_only_constructor =
  py_join [LF]
    [''  Engine() {'',
     ''    if (!sandbox_.create_sandbox())'',
     ''      throw std::runtime_error("failed to create RLBox wasm2c sandbox");'',
     '''',
     ''    /*'',
     ''     * P11 RLBox-only runtime-path baseline. Do not reserve the InterSpec typed'',
     ''     * arena, instantiate PolicyRuntime, register allocation-site provenance,'',
     ''     * or install InterSpec allocation/lifetime callbacks.'',
     ''     */'',
     ''    sandbox_.sandbox_storage = this;'',
     ''  }'',
     '''']\<close>

definition p11_rlbox_only_copy_to_u :: string where
  \<open>p11_rlbox_only_copy_to_u =
  py_join [LF]
    [''  UCharPtr copy_to_u(const char* src) {'',
     ''    if (!src) return UCharPtr(nullptr);'',
     '''',
     ''    const size_t bytes = std::strlen(src) + 1;'',
     ''    if (bytes > std::numeric_limits<uint32_t>::max())'',
     ''      throw std::runtime_error("popt string exceeds sandbox ABI");'',
     '''',
     ''    /* P11 RLBox-only marshalling uses the ordinary sandbox allocator. */'',
     ''    auto copy = sandbox_.malloc_in_sandbox<char>(static_cast<uint32_t>(bytes));'',
     ''    if (copy.UNSAFE_unverified() == nullptr) throw std::bad_alloc();'',
     ''    std::memcpy(copy.UNSAFE_unverified(), src, bytes);'',
     ''    return copy;'',
     ''  }'',
     '''']\<close>

definition p11_constructor_pattern :: "piece list" where
  \<open>p11_constructor_pattern = [Txt (''  Engine() {''),
    Gap,
    Txt (py_join [LF]
    ['''',
     ''  }'',
     '''',
     ''  Sandbox& sandbox()''])]\<close>

definition p11_copy_pattern :: "piece list" where
  \<open>p11_copy_pattern = [Txt (''  UCharPtr copy_to_u(const char* src) {''),
    Gap,
    Txt (py_join [LF]
    ['''',
     ''  }'',
     '''',
     ''  char* copy_checked''])]\<close>

definition forbidden_markers :: "string list" where
  "forbidden_markers = [''reserve_typed_arena'', ''set_interspec_runtime'', ''register_wasm_allocation_policy'']"

definition typed_copy_call :: string where
  "typed_copy_call = ''sandbox_.invoke_sandbox_function(interspec_p4c_typed_copy''"

definition p11_transform :: "string \<Rightarrow> bridge_error + string" where
  \<open>p11_transform text0 =
     res_bind (regex_once text0 p11_constructor_pattern
        (p11_rlbox_only_constructor @ [LF] @ ''  Sandbox& sandbox()'') ''wasm Engine constructor'') (\<lambda>text1.
     res_bind (regex_once text1 p11_copy_pattern
        (p11_rlbox_only_copy_to_u @ [LF] @ ''  char* copy_checked'') ''copy_to_u'') (\<lambda>text2.
     res_bind (res_check (\<lambda>marker. if sublist marker text2 then Some (Active_marker marker) else None) forbidden_markers) (\<lambda>_.
     if sublist typed_copy_call text2 then Inl Typed_copy else Inr text2)))\<close>

end
