(* ===== verification/BridgeFacts.thy ===== *)
theory BridgeFacts
  imports Bridges
begin

text \<open>
  What the bridge transforms do: \<open>regex_once\<close> replaces the leftmost, shortest match; the P9a
  transform refuses a source it has already transformed; what the P11 transform accepts is
  free of the setup it is to remove.
\<close>

section \<open>Blocks that do not overlap\<close>

lemma sublist_separated: "c \<notin> set w \<Longrightarrow> sublist w (u @ [c] @ v) \<Longrightarrow> sublist w u \<or> sublist w v"
proof -
  assume c: "c \<notin> set w" and "sublist w (u @ [c] @ v)"
  then obtain p s where ps: "p @ w @ s = u @ c # v" by (auto simp: sublist_def)
  show ?thesis
  proof (cases "length (p @ w) \<le> length u")
    case True
    then have "take (length (p @ w)) u = p @ w" using arg_cong [OF ps, of "take (length (p @ w))"] by simp
    then have "u = p @ w @ drop (length (p @ w)) u" by (metis append.assoc append_take_drop_id)
    then show ?thesis by (metis sublist_appendI)
  next
    case False
    have "length u < length p"
    proof (rule ccontr)
      assume "\<not> length u < length p"
      with False have "(p @ w @ s) ! length u \<in> set w" by (auto simp: nth_append)
      then show False unfolding ps using c by simp
    qed
    then obtain k where k: "length p = Suc (length u + k)" using less_iff_Suc_add by auto
    then have "drop k v = w @ s" using arg_cong [OF ps, of "drop (length p)"] by simp
    then have "v = take k v @ w @ s" by (metis append_take_drop_id)
    then show ?thesis by (metis sublist_appendI)
  qed
qed

lemma replaced_absent:
  assumes "spares new w" and "new \<noteq> []" and "c \<notin> set w" and "\<not> sublist w u" and "\<not> sublist w v"
  shows "\<not> sublist w (u @ new @ v)"
  using spared_kept [OF assms(1) _ assms(2), of u v "[c]"] sublist_separated [OF assms(3)] assms(4,5) by blast

lemma starts_outside_first:
  assumes "\<not> comparable (c # u) (v @ t)" and "starts_outside v u"
  shows "starts_outside (v @ t) (c # u)"
  using assms starts_outside_longer by simp

lemma skip_prefix: "starts_outside w u \<Longrightarrow> k < length u \<Longrightarrow> \<not> prefix w (drop k u @ s)"
  using starts_outside_drop [of w u k] unfolding comparable_prefix by (metis prefix_same_cases prefixI)

lemma py_count_skip: "w \<noteq> [] \<Longrightarrow> starts_outside w u \<Longrightarrow> py_count w (u @ s) = py_count w s"
proof (induction u)
  case (Cons c u)
  then have "\<not> prefix w (c # u @ s)" using skip_prefix [of w "c # u" 0 s] by simp
  with Cons show ?case by (simp add: py_count.simps [of w "c # u @ s"])
qed simp

lemma replace_first_skip: "w \<noteq> [] \<Longrightarrow> starts_outside w u \<Longrightarrow> py_replace_first w new (u @ s) = u @ py_replace_first w new s"
proof (induction u)
  case (Cons c u)
  then have "\<not> prefix w (c # u @ s)" using skip_prefix [of w "c # u" 0 s] by simp
  with Cons show ?case by simp
qed simp

lemma replace_once_block:
  assumes "w \<noteq> []" and "starts_outside w u" and "starts_outside w v"
  shows "replace_once (u @ w @ v) w new label = Inr (u @ new @ v)"
proof -
  have "py_count w (u @ w @ v) = py_count w (w @ v)" using assms(1,2) by (rule py_count_skip)
  also have "\<dots> = Suc (py_count w v)" using assms(1) by (subst py_count.simps) simp
  also have "py_count w v = py_count w []" using py_count_skip [OF assms(1,3), of "[]"] by simp
  also have "py_count w [] = 0" using assms(1) by (simp add: py_count.simps [of w "[]"])
  finally have "py_count w (u @ w @ v) = 1" by simp
  moreover have "py_replace_first w new (w @ v) = new @ v" using assms(1) by (cases w) simp_all
  ultimately show ?thesis using replace_first_skip [OF assms(1,2), of new "w @ v"] by (simp add: replace_once_def)
qed

section \<open>The blocks of P9a\<close>

lemmas p9a_blocks = typed_constructor_def rlbox_only_constructor_def typed_copy_to_u_def
  rlbox_only_copy_to_u_def p8_no_check_def p9a_and_p8_no_check_def

text \<open>Different first lines that no line of the other block contains.\<close>

lemma blocks_outside:
  "lines_apart v (w # ws) \<Longrightarrow> starts_outside (py_join [LF] (v # vs)) (py_join [LF] (w # ws))"
  using py_join_Cons [of "[LF]" v vs] starts_outside_longer [OF lines_apart_outside] by metis

lemma constructor_outside:
  "starts_outside typed_constructor typed_copy_to_u" "starts_outside typed_constructor rlbox_only_copy_to_u"
  "starts_outside typed_constructor p8_no_check" "starts_outside typed_constructor p9a_and_p8_no_check"
  unfolding p9a_blocks by (rule blocks_outside, code_simp)+

lemma outside_constructor:
  "starts_outside rlbox_only_copy_to_u typed_constructor" "starts_outside p9a_and_p8_no_check typed_constructor"
  unfolding p9a_blocks by (rule blocks_outside, code_simp)+

lemma copy_outside:
  "starts_outside typed_copy_to_u rlbox_only_constructor" "starts_outside typed_copy_to_u p8_no_check"
  unfolding p9a_blocks by (rule blocks_outside, code_simp)+

lemma check_outside:
  "starts_outside p8_no_check rlbox_only_constructor" "starts_outside p8_no_check rlbox_only_copy_to_u"
  unfolding p9a_blocks by (rule blocks_outside, code_simp)+

text \<open>The two constructors begin alike and differ later.\<close>

fun lines_differ :: "string list \<Rightarrow> string list \<Rightarrow> bool" where
  "lines_differ (l # l' # ls) (v # v' # vs) =
     (if l = v then lines_differ (l' # ls) (v' # vs) else \<not> comparable (l @ [LF]) (v @ [LF]))"
| "lines_differ _ _ = False"

lemma comparable_same: "comparable (a @ u) (a @ v) \<longleftrightarrow> comparable u v"
  by (induction a) simp_all

lemma lines_differ_texts: "lines_differ ls vs \<Longrightarrow> \<not> comparable (py_join [LF] ls) (py_join [LF] vs)"
proof (induction ls vs rule: lines_differ.induct)
  case (1 l l' ls v v' vs)
  show ?case
  proof (cases "l = v")
    case True
    with 1 show ?thesis by (simp add: comparable_same)
  next
    case False
    with 1(2) have "\<not> comparable (l @ [LF]) (v @ [LF])" by simp
    then show ?thesis
      using comparable_shorter [of "l @ [LF]" "py_join [LF] (l' # ls)" "v @ [LF]" "py_join [LF] (v' # vs)"] by auto
  qed
qed simp_all

lemma first_char_outside:
  assumes "lines_differ ((c # l) # l' # ls) (v # vs)" and "lines_apart v (l # l' # ls)"
  shows "starts_outside (py_join [LF] (v # vs)) (py_join [LF] ((c # l) # l' # ls))"
proof -
  obtain t where t: "py_join [LF] (v # vs) = v @ t" using py_join_Cons by blast
  have u: "py_join [LF] ((c # l) # l' # ls) = c # py_join [LF] (l # l' # ls)" by simp
  show ?thesis
    using starts_outside_first [of c "py_join [LF] (l # l' # ls)" v t] lines_differ_texts [OF assms(1)] lines_apart_outside [OF assms(2)]
    unfolding t u by blast
qed

lemma constructors_outside:
  "starts_outside typed_constructor rlbox_only_constructor" "starts_outside rlbox_only_constructor typed_constructor"
  unfolding p9a_blocks by (rule first_char_outside, simp, code_simp)+

lemma blocks_solid:
  "typed_constructor \<noteq> []" "rlbox_only_constructor \<noteq> []" "typed_copy_to_u \<noteq> []" "rlbox_only_copy_to_u \<noteq> []"
  "p8_no_check \<noteq> []" "p9a_and_p8_no_check \<noteq> []"
  unfolding p9a_blocks by simp_all

lemma set_py_join: "set (py_join sep ls) \<subseteq> set sep \<union> \<Union> (set ` set ls)"
  by (induction sep ls rule: py_join.induct) auto

lemma constructor_no_null: "CHR 0x00 \<notin> set typed_constructor"
proof -
  have *: "list_all (\<lambda>l. list_all (\<lambda>c. c \<noteq> CHR 0x00) l) ls \<Longrightarrow> CHR 0x00 \<notin> set (py_join [LF] ls)" for ls
    using set_py_join [of "[LF]" ls] by (auto simp: list_all_iff LF_def)
  show ?thesis unfolding typed_constructor_def by (rule *) code_simp
qed

section \<open>Properties\<close>

text \<open>
  Property C38.  The P9a transform is not applied twice: whenever it accepts a source, it refuses
  the source it made, because the typed constructor does not occur in it any more, neither left
  over nor formed anew across the edges of the replaced blocks.
\<close>

theorem p9a_refused_again:
  assumes "p9a_transform source = Inr out"
  shows "p9a_transform out = Inl (Not_exactly_one ''Engine constructor'' 0)"
proof -
  obtain s1 s2 where s1: "replace_once source typed_constructor rlbox_only_constructor ''Engine constructor'' = Inr s1"
    and s2: "replace_once s1 typed_copy_to_u rlbox_only_copy_to_u ''copy_to_u'' = Inr s2"
    and out: "replace_once s2 p8_no_check p9a_and_p8_no_check ''copy_checked baseline'' = Inr out"
    using assms by (auto simp: p9a_transform_def res_simps)
  obtain u v where "s1 = u @ rlbox_only_constructor @ v" "\<not> sublist typed_constructor u" "\<not> sublist typed_constructor v"
    by (rule replace_once_Inr [OF blocks_solid(1) s1])
  then have "\<not> sublist typed_constructor s1"
    using replaced_absent [OF _ blocks_solid(2) constructor_no_null] constructors_outside by (simp add: spares_def)
  moreover obtain a b where "s1 = a @ typed_copy_to_u @ b" "s2 = a @ rlbox_only_copy_to_u @ b"
    by (rule replace_once_Inr [OF blocks_solid(3) s2])
  ultimately have "\<not> sublist typed_constructor s2"
    using spared_kept [of rlbox_only_copy_to_u typed_constructor a b typed_copy_to_u] blocks_solid
      constructor_outside outside_constructor by (auto simp: spares_def)
  moreover obtain c d where "s2 = c @ p8_no_check @ d" "out = c @ p9a_and_p8_no_check @ d"
    by (rule replace_once_Inr [OF blocks_solid(5) out])
  ultimately have "\<not> sublist typed_constructor out"
    using spared_kept [of p9a_and_p8_no_check typed_constructor c d p8_no_check] blocks_solid
      constructor_outside outside_constructor by (auto simp: spares_def)
  then show ?thesis using replace_once_absent [OF blocks_solid(1)] by (simp add: p9a_transform_def)
qed

text \<open>A bridge that has the three blocks only.\<close>

lemma p9a_small:
  "p9a_transform (typed_constructor @ typed_copy_to_u @ p8_no_check) =
     Inr (rlbox_only_constructor @ rlbox_only_copy_to_u @ p9a_and_p8_no_check)"
proof -
  have "replace_once (typed_constructor @ typed_copy_to_u @ p8_no_check) typed_constructor rlbox_only_constructor ''Engine constructor'' =
      Inr (rlbox_only_constructor @ typed_copy_to_u @ p8_no_check)"
    using replace_once_block [OF blocks_solid(1), of "[]" "typed_copy_to_u @ p8_no_check"] constructor_outside
    by (simp add: starts_outside_append)
  moreover have "replace_once (rlbox_only_constructor @ typed_copy_to_u @ p8_no_check) typed_copy_to_u rlbox_only_copy_to_u ''copy_to_u'' =
      Inr (rlbox_only_constructor @ rlbox_only_copy_to_u @ p8_no_check)"
    using replace_once_block [OF blocks_solid(3)] copy_outside by blast
  moreover have "replace_once (rlbox_only_constructor @ rlbox_only_copy_to_u @ p8_no_check) p8_no_check p9a_and_p8_no_check ''copy_checked baseline'' =
      Inr (rlbox_only_constructor @ rlbox_only_copy_to_u @ p9a_and_p8_no_check)"
    using replace_once_block [OF blocks_solid(5), of "rlbox_only_constructor @ rlbox_only_copy_to_u" "[]"] check_outside
    by (simp add: starts_outside_append)
  ultimately show ?thesis by (simp add: p9a_transform_def)
qed

theorem p9a_refused_again_witness:
  "p9a_transform (rlbox_only_constructor @ rlbox_only_copy_to_u @ p9a_and_p8_no_check) =
     Inl (Not_exactly_one ''Engine constructor'' 0)"
  by (rule p9a_refused_again [OF p9a_small])

text \<open>
  Property C39.  Editing by pattern finds the block a reader would: with a pattern without \<open>\s\<close> a
  text is refused exactly if no part of it belongs to the pattern, and otherwise what is replaced
  is the leftmost such part, and the shortest one at its place.
\<close>

theorem regex_once_leftmost_shortest:
  assumes "Blanks \<notin> set ps"
  shows "(regex_once s ps new label = Inr out \<longleftrightarrow> (\<exists>u m v. first_shortest ps s u m v \<and> out = u @ new @ v)) \<and>
    (regex_once s ps new label = Inl (Not_exactly_one label 0) \<longleftrightarrow> (\<nexists>u m v. s = u @ m @ v \<and> piece_text ps m))"
  unfolding regex_once_first [OF assms] regex_once_fails [of s ps new label] by simp

theorem regex_once_leftmost_shortest_witness:
  "\<exists>u m v. first_shortest [Txt ''a'', Gap, Txt ''b''] ''xaabb'' u m v \<and> ''xNb'' = u @ ''N'' @ v"
proof -
  have "regex_once ''xaabb'' [Txt ''a'', Gap, Txt ''b''] ''N'' [] = Inr ''xNb''" by code_simp
  with regex_once_leftmost_shortest [of "[Txt ''a'', Gap, Txt ''b'']" "''xaabb''" "''N''" "[]" "''xNb''"]
  show ?thesis by simp
qed

text \<open>What the P11 transform accepts is free of the setup it removes; a source that keeps some of
  it is refused.\<close>

lemma p11_free_of_setup:
  assumes "p11_transform source = Inr out" and "marker \<in> set forbidden_markers"
  shows "\<not> sublist marker out \<and> \<not> sublist typed_copy_call out"
proof -
  obtain text2 x where c: "res_check (\<lambda>marker. if sublist marker text2 then Some (Active_marker marker) else None) forbidden_markers = Inr x"
    and out: "(if sublist typed_copy_call text2 then Inl Typed_copy else Inr text2) = Inr out"
    using assms(1) unfolding p11_transform_def res_bind_Inr by blast
  have "out = text2" "\<not> sublist typed_copy_call text2" using out by (simp_all split: if_splits)
  with c assms(2) show ?thesis by (auto simp: res_check_Inr list_all_iff split: if_splits)
qed

end
