(* ===== verification/AllocProgress.thy ===== *)
theory AllocProgress
  imports RuntimeLedger
begin

text \<open>
  Progress of the allocator: a run of authorised requests that fits into the rest of the arena
  is served completely, and every block of it is live at its end.
\<close>

text \<open>A run of requests: the pointers, in order, and the state after it.\<close>

fun serve :: "(alloc_call \<times> u64) list \<Rightarrow> runtime \<Rightarrow> u64 list \<times> runtime" where
  "serve [] s = ([], s)"
| "serve ((c, z) # rs) s =
     (let (r, s1) = do_alloc c z s; (ps, s2) = serve rs s1 in (r # ps, s2))"

text \<open>The space a run needs.\<close>

definition demand :: "(alloc_call \<times> u64) list \<Rightarrow> nat" where
  "demand rs = sum_list (map (\<lambda>(_, z). round8 (unat z)) rs)"

lemma call_authority_bumped: "call_authority c (bumped z h i s) = call_authority c s"
  by (cases c) (simp_all add: find_site_unlocked_def)

lemma do_alloc_served:
  assumes inv: "runtime_inv s" and ok: "proper_arena s" and au: "call_authority c s = Some (h, i)"
    and z: "z \<noteq> 0" and room: "unat (rt_used s) + round8 (unat z) \<le> unat (rt_capacity s)"
  shows "do_alloc c z s = (rt_base s + rt_used s, bumped z h i s)" and "rt_base s + rt_used s \<noteq> 0"
    and "runtime_inv (bumped z h i s)" and "proper_arena (bumped z h i s)"
    and "unat (rt_used (bumped z h i s)) = unat (rt_used s) + round8 (unat z)"
    and "om_find (rt_allocations (bumped z h i s)) =
      (om_find (rt_allocations s))(rt_base s + rt_used s \<mapsto> new_allocation z h i s)"
    and "om_find (rt_allocations s) (rt_base s + rt_used s) = None"
proof -
  have fits: "alloc_fits z s" using ok z room by (simp add: alloc_fits_def proper_arena_def unat_gt_0)
  show eq: "do_alloc c z s = (rt_base s + rt_used s, bumped z h i s)" using fits au by (simp add: do_alloc_eq [OF inv])
  show "rt_base s + rt_used s \<noteq> 0" using bump_nonzero [OF inv fits ok] .
  show "runtime_inv (bumped z h i s)" using inv fits au
    by (cases c) (auto intro!: bumped_inv intro: ranI dest: find_site_type site_type_registered)
  show "proper_arena (bumped z h i s)" using ok by (simp add: proper_arena_def bumped_def)
  show "unat (rt_used (bumped z h i s)) = unat (rt_used s) + round8 (unat z)" by (rule bump_unat(2) [OF inv fits])
  show "om_find (rt_allocations (bumped z h i s)) =
      (om_find (rt_allocations s))(rt_base s + rt_used s \<mapsto> new_allocation z h i s)" by (rule bumped_find [OF inv fits])
  show "om_find (rt_allocations s) (rt_base s + rt_used s) = None"  by (rule bump_fresh [OF inv fits])
qed

text \<open>The block of a served request.\<close>

definition served :: "runtime \<Rightarrow> runtime \<Rightarrow> alloc_call \<times> u64 \<Rightarrow> u64 \<Rightarrow> bool" where
  "served s t = (\<lambda>(c, z) p. p \<noteq> 0 \<and> (\<exists>a. om_find (rt_allocations t) p = Some a \<and>
     al_base a = p \<and> al_size a = z \<and> call_authority c s = Some (al_type_hash a, al_site_id a)))"

lemma serve_all:
  assumes "runtime_inv s" and "proper_arena s"
    and "\<forall>(c, z) \<in> set rs. call_authority c s \<noteq> None \<and> z \<noteq> 0"
    and "unat (rt_used s) + demand rs \<le> unat (rt_capacity s)" and "serve rs s = (ps, t)"
  shows "list_all2 (served s t) rs ps \<and> unat (rt_used t) = unat (rt_used s) + demand rs \<and>
    distinct ps \<and> (\<forall>p a. om_find (rt_allocations s) p = Some a \<longrightarrow> om_find (rt_allocations t) p = Some a \<and> p \<notin> set ps)"
  using assms
proof (induction rs arbitrary: s ps)
  case Nil
  then show ?case by (simp add: demand_def)
next
  case (Cons rq rs)
  obtain c z where rq: "rq = (c, z)" by fastforce
  obtain h i where au: "call_authority c s = Some (h, i)" using Cons.prems(3) rq by auto
  have z: "z \<noteq> 0" using Cons.prems(3) rq by auto
  have room: "unat (rt_used s) + round8 (unat z) \<le> unat (rt_capacity s)"
    using Cons.prems(4) by (simp add: rq demand_def)
  note step = do_alloc_served [OF Cons.prems(1,2) au z room]
  let ?s = "bumped z h i s" and ?r = "rt_base s + rt_used s"
  obtain qs where qs: "serve rs ?s = (qs, t)" "ps = ?r # qs"
    using Cons.prems(5) by (auto simp: rq step(1) Let_def split: prod.splits)
  have ready: "\<forall>(c, z) \<in> set rs. call_authority c ?s \<noteq> None \<and> z \<noteq> 0"
    using Cons.prems(3) by (auto simp: call_authority_bumped)
  have cap: "rt_capacity ?s = rt_capacity s" by (simp add: bumped_def)
  then have room': "unat (rt_used ?s) + demand rs \<le> unat (rt_capacity ?s)"
    using Cons.prems(4) step(5) by (simp add: rq demand_def)
  from Cons.IH [OF step(3,4) ready room' qs(1)] have IH: "list_all2 (served ?s t) rs qs"
    "unat (rt_used t) = unat (rt_used ?s) + demand rs" "distinct qs"
    "om_find (rt_allocations ?s) p = Some a \<Longrightarrow> om_find (rt_allocations t) p = Some a \<and> p \<notin> set qs" for p a
    by blast+
  have new: "om_find (rt_allocations t) ?r = Some (new_allocation z h i s)" "?r \<notin> set qs"
    using IH(4) [of ?r] by (simp_all add: step(6))
  have kept: "om_find (rt_allocations t) p = Some a \<and> p \<notin> set ps" if "om_find (rt_allocations s) p = Some a" for p a
  proof -
    have "p \<noteq> ?r" using that step(7) by auto
    with IH(4) [of p a] that show ?thesis by (simp add: step(6) qs(2))
  qed
  have "served s t rq ?r" using new step(2) au by (simp add: served_def rq new_allocation_def)
  moreover have "list_all2 (served s t) rs qs"
    using IH(1) by (rule list_all2_mono) (auto simp: served_def call_authority_bumped)
  ultimately show ?case using IH(2,3) new(2) kept step(5) by (simp add: qs(2) rq demand_def)
qed

text \<open>
  Property C40.  Room means service: in an arena at a non-zero address, a run of requests of
  non-zero sizes that the trusted tables authorise, and whose rounded sizes together fit into what is left of the
  arena, is served completely.  Every request gets a pointer, all pointers differ, and at the
  end every block is live with the size it was asked for and the type and site of its authority;
  exactly the rounded sizes have been used.
\<close>

theorem allocations_served:
  assumes "runtime_inv s" and "rt_arena_valid s" and "rt_base s \<noteq> 0"
    and "\<forall>(c, z) \<in> set rs. call_authority c s \<noteq> None \<and> z \<noteq> 0"
    and "unat (rt_used s) + demand rs \<le> unat (rt_capacity s)" and "serve rs s = (ps, t)"
  shows "list_all2 (served s t) rs ps \<and> distinct ps \<and> unat (rt_used t) = unat (rt_used s) + demand rs"
  using serve_all [OF assms(1) _ assms(4-6)] assms(2,3) by (simp add: proper_arena_def)

theorem allocations_served_witness:
  "distinct (fst (serve [(By_type 1, 24), (By_site 7, 100), (By_pc 4100, 8)] demo)) \<and>
   unat (rt_used (snd (serve [(By_type 1, 24), (By_site 7, 100), (By_pc 4100, 8)] demo))) = 160"
proof -
  let ?rs = "[(By_type 1, 24), (By_site 7, 100), (By_pc 4100, 8)] :: (alloc_call \<times> u64) list"
  have inv: "runtime_inv demo" using reachable_imp_inv [OF demo_reachable] .
  have "rt_arena_valid demo" "rt_base demo \<noteq> 0" "unat (rt_used demo) = 24" "demand ?rs = 136"
    "unat (rt_capacity demo) = 4096"
    by code_simp+
  moreover have "list_all (\<lambda>(c, z). call_authority c demo \<noteq> None \<and> z \<noteq> 0) ?rs" by code_simp
  then have "\<forall>(c, z) \<in> set ?rs. call_authority c demo \<noteq> None \<and> z \<noteq> 0" by (simp only: list_all_iff)
  ultimately show ?thesis
    using allocations_served [OF inv, of ?rs "fst (serve ?rs demo)" "snd (serve ?rs demo)"] by simp
qed

end
