(* ===== verification/Spec2Isabelle.thy ===== *)
theory Spec2Isabelle
  imports WasmProvenance CodeqlFacts NumberFacts SpliceSites NoinlineMark NaclBackend Wasm2cBackend
    RenderFacts BridgeFacts AllocProgress
begin

text \<open>
  A verification development of the InterSpec typed allocator.

  \<^bold>\<open>The program.\<close>  A trusted host runs untrusted code in a sandbox (NaCl or wasm2c, through RLBox).
  A trusted runtime outside the sandbox hands out the blocks of the sandbox heap and keeps, for
  every block, its size, its type and the site that allocated it; trusted code asks the runtime
  before it touches a sandbox address as an object of a type.  Which site allocates which type is
  a policy: it is inferred by CodeQL queries, converted to JSON, and compiled by generators into
  (a) an edited copy of the untrusted C source, whose allocation calls carry labels or become
  typed imports, and (b) C++ headers that register the policy with the runtime and offer the
  checks of the trusted uses.  Scripts patch the two backends, derive benchmark variants of the
  bridges, summarise the measurements and publish the result pages.

  \<^bold>\<open>The trusted runtime\<close> (\<^verbatim>\<open>include/interspec/runtime.h\<close>, \<^verbatim>\<open>policy_runtime.h\<close>).
  \<^item> \<^verbatim>\<open>OrdMap\<close>: \<^verbatim>\<open>std::map\<close> and \<^verbatim>\<open>std::unordered_map\<close> as association lists; the locales
    \<^verbatim>\<open>ordered_map\<close> and \<^verbatim>\<open>interval_index\<close> state what the runtime needs of them.
  \<^item> \<^verbatim>\<open>Runtime\<close>: class \<^verbatim>\<open>Runtime\<close>, a record of its fields with 64-bit words for addresses, sizes and
    identifiers, one definition per operation, early returns and wrap-around included.  The class
    holds a mutex in every public operation, so an execution is a sequence of operations
    (in \<^verbatim>\<open>RuntimeSafety\<close>: \<^verbatim>\<open>runtime_op\<close>, \<^verbatim>\<open>apply_op\<close>, \<^verbatim>\<open>run_ops\<close>).
  \<^item> \<^verbatim>\<open>RuntimeInv\<close>, \<^verbatim>\<open>RuntimeSafety\<close>: the invariant of every reachable state, the exact meaning of each
    verdict of \<^verbatim>\<open>check\<close>, and that a released object is never accepted again.
  \<^item> \<^verbatim>\<open>RuntimeAuthority\<close>: freshness of allocations, the conditions of site registration, the
    authority of the program counter, provenance of live metadata, \<^verbatim>\<open>reallocate\<close>, the base-zero case.
  \<^item> \<^verbatim>\<open>RuntimeLedger\<close>: a ledger over unbounded numbers that the runtime refines.
    \<^verbatim>\<open>AllocProgress\<close>: authorised requests that fit are all served.
  \<^item> \<^verbatim>\<open>PolicyRuntime\<close>: class \<^verbatim>\<open>PolicyRuntime\<close>, with the sandbox as a record of the values it supplies, and
    the callback that serves the sandbox's allocation requests.

  \<^bold>\<open>The generators\<close> (\<^verbatim>\<open>tools/\<close>).
  \<^item> \<^verbatim>\<open>Prelude\<close>, \<^verbatim>\<open>PyStr\<close>, \<^verbatim>\<open>PyInt\<close>, \<^verbatim>\<open>PyRegex\<close>, \<^verbatim>\<open>PyFloat\<close>, \<^verbatim>\<open>PyFormat\<close>: exceptions as sums (\<^verbatim>\<open>res_bind\<close>, \<^verbatim>\<open>res_map\<close>,
    \<^verbatim>\<open>res_fold\<close>, \<^verbatim>\<open>res_check\<close>) and the parts of Python's library that the tools use.
  \<^item> \<^verbatim>\<open>PolicyData\<close>: policies and boundary descriptions as records, and the exceptions of the tools.
  \<^item> \<^verbatim>\<open>SourceEdit\<close>, \<^verbatim>\<open>SiteRewrite\<close>, \<^verbatim>\<open>GenPolicy\<close>, \<^verbatim>\<open>GenHeaders\<close>: \<^verbatim>\<open>generate_policy.py\<close>, from the source position of a call
    (\<^verbatim>\<open>source_offset\<close>, \<^verbatim>\<open>malloc_call_extent\<close>, \<^verbatim>\<open>function_match\<close>, \<^verbatim>\<open>locate_call\<close>) over the two \<^verbatim>\<open>instrument_site\<close> functions to
    \<^verbatim>\<open>generate\<close> and the header text it returns.  \<^verbatim>\<open>BoundaryPolicy\<close>: \<^verbatim>\<open>generate_boundary_policy.py\<close>.  \<^verbatim>\<open>WasmPolicy\<close>:
    \<^verbatim>\<open>generate_wasm_boundary_policy.py\<close>.  \<^verbatim>\<open>CodeqlPolicy\<close>: \<^verbatim>\<open>codeql_policy_to_json.py\<close>.
  \<^item> \<^verbatim>\<open>EmittedPolicy\<close>, \<^verbatim>\<open>Registration\<close>, \<^verbatim>\<open>EmittedSafety\<close>: the emitted C++ functions, run on the model of the
    runtime; when the emitted registration succeeds and what the emitted checks accept.  The locale
    \<^verbatim>\<open>extent_checker\<close> is the contract between the checks and the runtime.
  \<^item> \<^verbatim>\<open>GenFacts\<close>, \<^verbatim>\<open>NameFacts\<close>, \<^verbatim>\<open>LabelFacts\<close>: what \<^verbatim>\<open>generate\<close> accepts, the type hash of both
    languages, uniqueness of labels and imports.
  \<^item> \<^verbatim>\<open>PolicyProvenance\<close>, \<^verbatim>\<open>WasmProvenance\<close>: from the policy file to the metadata of a block.
  \<^item> \<^verbatim>\<open>CallExtent\<close>, \<^verbatim>\<open>HeaderMatch\<close>, \<^verbatim>\<open>NoinlineMark\<close>, \<^verbatim>\<open>SourceFacts\<close>, \<^verbatim>\<open>RewriteStability\<close>, \<^verbatim>\<open>SpliceSites\<close>: the
    source edits.  The locale \<^verbatim>\<open>site_rewriter\<close> proves that the loop over the sites, which searches
    the text it has already changed, is the simultaneous replacement of all calls of the original
    text; both tools interpret it.
  \<^item> \<^verbatim>\<open>CodeqlFacts\<close>, \<^verbatim>\<open>NumberFacts\<close>: the converter's output and the numbers on the command line.

  \<^bold>\<open>The backend scripts and bridges.\<close>
  \<^item> \<^verbatim>\<open>BackendPatch\<close>, \<^verbatim>\<open>NaclBackend\<close>, \<^verbatim>\<open>Wasm2cBackend\<close>: \<^verbatim>\<open>backends/*/apply_backend.py\<close> with all their texts; a second
    run changes nothing.  That both touch only their files, at pinned revisions, is proved below.
  \<^item> \<^verbatim>\<open>BridgeText\<close>, \<^verbatim>\<open>Bridges\<close>, \<^verbatim>\<open>BridgeFacts\<close>: \<^verbatim>\<open>build_p9a_rlbox_only_bridge.py\<close>, \<^verbatim>\<open>build_p9b_wasm2c_bridge.py\<close> and
    \<^verbatim>\<open>build_p11_wasm2c_rlbox_only_bridge.py\<close> with all their texts and patterns; the backtracking
    search is compared with a declarative leftmost, shortest match.

  \<^bold>\<open>Measurements and reports.\<close>
  \<^item> \<^verbatim>\<open>Summaries\<close>, \<^verbatim>\<open>SummaryTables\<close>, \<^verbatim>\<open>SummaryFacts\<close>: the three \<^verbatim>\<open>summarize_*.py\<close>; the locale \<^verbatim>\<open>summariser\<close> is
    interpreted on each.
  \<^item> \<^verbatim>\<open>Reports\<close>, \<^verbatim>\<open>ReportFacts\<close>: \<^verbatim>\<open>p7c_report.py\<close> and \<^verbatim>\<open>build_p8_report.py\<close>.
  \<^item> \<^verbatim>\<open>Render\<close>, \<^verbatim>\<open>RenderFacts\<close>: \<^verbatim>\<open>render_p8_results.py\<close> and \<^verbatim>\<open>render_p9a_results.py\<close>, on the tables of the summaries, the P8
    report and an arbitrary table of the runtime benchmark.

  \<^bold>\<open>Conventions and bounds.\<close>  Every recursion of the model terminates by a structural or measure
  argument; there is no fuel.  A \<^verbatim>\<open>raise\<close> is an \<^verbatim>\<open>Inl\<close> with a constructor of the error datatype; the wording of messages
  is left out.  Strings are over code points below 256.  Python ints are unbounded.  Floats are rationals, each
  operation rounded to 53 bits, ties to even, with an unbounded exponent: infinities, NaN, subnormal
  numbers and \<^verbatim>\<open>OverflowError\<close> are outside the model, and the sign of a zero is kept only where a number is read and rendered.
  Files are a map from paths to texts, and newline translation is left out.  The output of git, the commits of the manifest,
  the rows of \<^verbatim>\<open>csv.reader\<close> and \<^verbatim>\<open>csv.DictReader\<close> and the parsed JSON documents are inputs; the rows of the security table have the
  keys of its first row.  What a page reads from a table just written is the table's cells as text.

  \<^bold>\<open>Not modelled.\<close>  The \<^verbatim>\<open>main\<close> functions (arguments, file access), the \<^verbatim>\<open>read_csv\<close> helpers, the CodeQL queries, the sandboxed
  C code and the example hosts, which may do anything a sequence of operations with arbitrary arguments can do, the
  benchmarks, the shell scripts and the tests.
\<close>

section \<open>The two backend scripts\<close>

text \<open>
  Property C37.  The backend scripts touch only their own files, and only in checkouts whose
  revisions are those of the manifest; otherwise they fail before they write anything.
\<close>

theorem backend_scripts_pinned:
  assumes "apply_nacl_backend git manifest dir fs = (r, fs')"
    and "apply_wasm2c_backend git' manifest' dir' gs = (q, gs')"
  shows "{p. fs' p \<noteq> fs p} \<subseteq> fst ` set (below dir nacl_patches) \<and>
    (fs' = fs \<and> r \<noteq> None \<or>
     manifest ''rlbox_nacl_sandbox'' = map_option py_strip (git dir) \<and> git dir \<noteq> None \<and>
     manifest ''nacl_sandbox_compiler'' = map_option py_strip (git (dir @ ''/nacl_rlbox/native_client'')) \<and>
     git (dir @ ''/nacl_rlbox/native_client'') \<noteq> None) \<and>
    {p. gs' p \<noteq> gs p} \<subseteq> fst ` set (below dir' (wasm2c_patches [] [])) \<and>
    (gs' = gs \<and> q \<noteq> None \<or>
     manifest' ''rlbox_wasm2c_sandbox'' = map_option py_strip (git' dir') \<and> git' dir' \<noteq> None)"
  using nacl_backend_frame [OF assms(1)] wasm2c_backend_frame [OF assms(2)] by blast

theorem backend_scripts_pinned_witness:
  "nacl_manifest ''rlbox_nacl_sandbox'' = map_option py_strip (nacl_git ''r'') \<and>
   (\<exists>fs. apply_wasm2c_backend wasm2c_git wasm2c_manifest ''r'' wasm2c_tree = (None, fs) \<and>
     {p. fs p \<noteq> wasm2c_tree p} \<subseteq> fst ` set (below ''r'' (wasm2c_patches [] [])))"
proof -
  obtain fs where "apply_wasm2c_backend wasm2c_git wasm2c_manifest ''r'' wasm2c_tree = (None, fs)"
    using wasm2c_tree_run by (metis prod.collapse)
  from backend_scripts_pinned [OF nacl_tree_run this] this show ?thesis by blast
qed

end
